(* ===== verification/Prelude.thy ===== *)
theory Prelude
  imports Complex_Main "HOL-Library.Word"
begin

text \<open>
  Shared vocabulary of the development: machine integer types, the overflow-checked
  arithmetic of a debug build, little- and big-endian byte strings, the
  two interfaces the wire formats and the state machines have in common
  (a fixed-width codec, an invariant-preserving step), and a keyed store for the
  scheduler's slot maps. Nothing here models a line of the program by itself; the
  component theories do.
\<close>

unbundle bit_operations_syntax

section \<open>Machine integers\<close>

type_synonym u8 = "8 word"
type_synonym u16 = "16 word"
type_synonym u32 = "32 word"
type_synonym u64 = "64 word"
type_synonym u256 = "256 word"

named_theorems checked \<open>the overflow-checked operators and when they succeed\<close>

text \<open>
  A debug build panics where an operator overflows. The checked operators return \<open>None\<close>
  there; a function of the model that can panic returns an option with the same reading.
\<close>

definition add_chk :: "'a::len word \<Rightarrow> 'a word \<Rightarrow> 'a word option" where
  "add_chk a b = (if unat a + unat b < 2 ^ LENGTH('a) then Some (a + b) else None)"

definition sub_chk :: "'a::len word \<Rightarrow> 'a word \<Rightarrow> 'a word option" where
  "sub_chk a b = (if b \<le> a then Some (a - b) else None)"

definition mul_chk :: "'a::len word \<Rightarrow> 'a word \<Rightarrow> 'a word option" where
  "mul_chk a b = (if unat a * unat b < 2 ^ LENGTH('a) then Some (a * b) else None)"

definition shl_chk :: "'a::len word \<Rightarrow> nat \<Rightarrow> 'a word option" where
  "shl_chk a n = (if n < LENGTH('a) then Some (push_bit n a) else None)"

definition add_sat :: "'a::len word \<Rightarrow> 'a word \<Rightarrow> 'a word" where
  "add_sat a b = (if unat a + unat b < 2 ^ LENGTH('a) then a + b else - 1)"

lemma add_chk_Some [checked]:
  "add_chk a b = Some c \<longleftrightarrow> unat (a :: 'a::len word) + unat b < 2 ^ LENGTH('a) \<and> c = a + b"
  by (auto simp: add_chk_def)

lemma add_chk_None [checked]:
  "add_chk a b = None \<longleftrightarrow> 2 ^ LENGTH('a) \<le> unat (a :: 'a::len word) + unat b"
  by (auto simp: add_chk_def)

lemma sub_chk_Some [checked]: "sub_chk a b = Some c \<longleftrightarrow> b \<le> a \<and> c = a - b"
  by (auto simp: sub_chk_def)

lemma sub_chk_None [checked]: "sub_chk a b = None \<longleftrightarrow> a < b"
  by (auto simp: sub_chk_def)

lemma mul_chk_Some [checked]:
  "mul_chk a b = Some c \<longleftrightarrow> unat (a :: 'a::len word) * unat b < 2 ^ LENGTH('a) \<and> c = a * b"
  by (auto simp: mul_chk_def)

lemma shl_chk_Some [checked]:
  "shl_chk a n = Some c \<longleftrightarrow> n < LENGTH('a) \<and> c = push_bit n (a :: 'a::len word)"
  by (auto simp: shl_chk_def)

lemma unat_add_chk: "add_chk a b = Some c \<Longrightarrow> unat c = unat a + unat b"
  by (auto simp: add_chk_Some unat_word_ariths)

lemma unat_sub_chk: "sub_chk a b = Some c \<Longrightarrow> unat c = unat a - unat b"
  by (auto simp: sub_chk_Some unat_sub)

lemma unat_mul_chk: "mul_chk a b = Some c \<Longrightarrow> unat c = unat a * unat b"
  by (auto simp: mul_chk_Some unat_word_ariths)

lemma unat_word_of_nat: "n < 2 ^ LENGTH('a) \<Longrightarrow> unat (word_of_nat n :: 'a::len word) = n"
  by (simp add: unsigned_of_nat take_bit_nat_eq_self)

lemma add_chk_nat:
  "a + b < 2 ^ LENGTH('a) \<Longrightarrow>
    add_chk (word_of_nat a :: 'a::len word) (word_of_nat b) = Some (word_of_nat (a + b))"
  by (simp add: add_chk_def unat_word_of_nat)

lemma sub_chk_nat:
  "b \<le> a \<Longrightarrow> a < 2 ^ LENGTH('a) \<Longrightarrow>
    sub_chk (word_of_nat a :: 'a::len word) (word_of_nat b) = Some (word_of_nat (a - b))"
  by (simp add: sub_chk_def unat_word_of_nat word_le_nat_alt of_nat_diff)

lemma unat_max_word: "unat (- 1 :: 'a::len word) = 2 ^ LENGTH('a) - 1"
  by (simp add: unsigned_minus_1_eq_mask mask_eq_exp_minus_1)

lemma unat_mask: "n \<le> LENGTH('a) \<Longrightarrow> unat (mask n :: 'a::len word) = 2 ^ n - 1"
proof -
  assume n: "n \<le> LENGTH('a)"
  have "unat (mask n :: 'a word) = unat (take_bit n (- 1 :: 'a word))"
    by (simp only: take_bit_minus_one_eq_mask)
  also have "\<dots> = take_bit n (mask LENGTH('a))"
    by (simp only: unsigned_take_bit_eq unat_max_word mask_eq_exp_minus_1)
  also have "\<dots> = mask n" using n by (simp add: take_bit_of_mask min_absorb1)
  also have "\<dots> = 2 ^ n - 1" by (simp only: mask_eq_exp_minus_1)
  finally show ?thesis .
qed

lemma unat_add_sat:
  "unat (add_sat a b :: 'a::len word) = min (unat a + unat b) (2 ^ LENGTH('a) - 1)"
  by (auto simp: add_sat_def unat_word_ariths unat_max_word)

text \<open>Code equations that stay inside the word type.\<close>

lemma add_overflow_iff: "unat a + unat b < 2 ^ LENGTH('a) \<longleftrightarrow> \<not> a + b < (a :: 'a::len word)"
proof (cases "unat a + unat b < 2 ^ LENGTH('a)")
  case True
  then have "unat (a + b) = unat a + unat b" unfolding unat_word_ariths by (rule mod_less)
  with True show ?thesis unfolding word_less_nat_alt by linarith
next
  case False
  have a: "unat a < 2 ^ LENGTH('a)" and b: "unat b < 2 ^ LENGTH('a)" by (rule unsigned_less)+
  have "unat (a + b) = (unat a + unat b) mod 2 ^ LENGTH('a)" by (rule unat_word_ariths)
  also have "\<dots> = unat a + unat b - 2 ^ LENGTH('a)"
  proof -
    have "(unat a + unat b) mod 2 ^ LENGTH('a) = (unat a + unat b - 2 ^ LENGTH('a)) mod 2 ^ LENGTH('a)"
      using False by (intro le_mod_geq) linarith
    also have "\<dots> = unat a + unat b - 2 ^ LENGTH('a)" using a b by (intro mod_less) linarith
    finally show ?thesis .
  qed
  finally show ?thesis using False b unfolding word_less_nat_alt by linarith
qed

lemma add_chk_code [code]: "add_chk a b = (if a + b < a then None else Some (a + b))"
  by (simp add: add_chk_def add_overflow_iff)

lemma add_sat_code [code]: "add_sat a b = (if a + b < a then - 1 else a + b)"
  by (simp add: add_sat_def add_overflow_iff)

section \<open>Loops that may panic\<close>

text \<open>Run a computation for every element, in order; the first panic ends the loop.\<close>

fun traverse :: "('a \<Rightarrow> 'b option) \<Rightarrow> 'a list \<Rightarrow> 'b list option" where
  "traverse f [] = Some []"
| "traverse f (x # xs) = Option.bind (f x) (\<lambda>y. map_option ((#) y) (traverse f xs))"

lemma traverse_Some_iff: "traverse f xs = Some ys \<longleftrightarrow> map f xs = map Some ys"
  by (induction xs arbitrary: ys) (auto simp: bind_eq_Some_conv)

lemma traverse_None_iff: "traverse f xs = None \<longleftrightarrow> (\<exists>x \<in> set xs. f x = None)"
  by (induction xs) (auto simp: bind_eq_None_conv)

section \<open>Byte strings\<close>

text \<open>
  \<open>to_le n w\<close> is the first \<open>n\<close> bytes of \<open>w\<close>, least significant first
  (\<open>to_le_bytes\<close>), and \<open>from_le\<close> reads such a string back (\<open>from_le_bytes\<close>);
  the big-endian versions reverse the string.
\<close>

definition to_le :: "nat \<Rightarrow> 'a::len word \<Rightarrow> u8 list" where
  "to_le n w = map (\<lambda>i. ucast (drop_bit (8 * i) w)) [0..<n]"

definition from_le :: "u8 list \<Rightarrow> 'a::len word" where
  "from_le bs = foldr (\<lambda>b acc. ucast b OR push_bit 8 acc) bs 0"

definition to_be :: "nat \<Rightarrow> 'a::len word \<Rightarrow> u8 list" where
  "to_be n w = rev (to_le n w)"

definition from_be :: "u8 list \<Rightarrow> 'a::len word" where
  "from_be bs = from_le (rev bs)"

lemma length_to_le [simp]: "length (to_le n w) = n"
  by (simp add: to_le_def)

lemma length_to_be [simp]: "length (to_be n w) = n"
  by (simp add: to_be_def)

lemma to_le_nth [simp]: "i < n \<Longrightarrow> to_le n w ! i = ucast (drop_bit (8 * i) w)"
  by (simp add: to_le_def)

lemma from_le_Nil [simp]: "from_le [] = 0"
  by (simp add: from_le_def)

lemma from_le_Cons [simp]: "from_le (b # bs) = ucast b OR push_bit 8 (from_le bs)"
  by (simp add: from_le_def)

lemma bit_from_le:
  "bit (from_le bs :: 'a::len word) k \<longleftrightarrow>
    k < LENGTH('a) \<and> k div 8 < length bs \<and> bit (bs ! (k div 8)) (k mod 8)"
proof (induction bs arbitrary: k)
  case Nil
  then show ?case by simp
next
  case (Cons b bs)
  show ?case
  proof (cases "k < 8")
    case True
    then show ?thesis by (auto simp: bit_simps)
  next
    case False
    then have "k div 8 = Suc ((k - 8) div 8)" and "k mod 8 = (k - 8) mod 8"
      by (simp_all add: le_div_geq le_mod_geq)
    with False Cons.IH [of "k - 8"] show ?thesis
      by (auto simp: bit_simps dest: bit_imp_le_length)
  qed
qed

lemma from_le_to_le:
  assumes "8 * n = LENGTH('a)"
  shows "from_le (to_le n w) = (w :: 'a::len word)"
proof (rule bit_word_eqI)
  fix k assume k: "k < LENGTH('a)"
  with assms have "k div 8 < n" by simp
  moreover have "8 * (k div 8) + k mod 8 = k" by simp
  ultimately show "bit (from_le (to_le n w) :: 'a word) k = bit w k"
    using k by (simp add: bit_from_le bit_simps)
qed

lemma to_le_from_le:
  assumes "length bs = n" and "8 * n = LENGTH('a)"
  shows "to_le n (from_le bs :: 'a::len word) = bs"
proof (rule nth_equalityI)
  show "length (to_le n (from_le bs :: 'a word)) = length bs" using assms by simp
next
  fix i assume "i < length (to_le n (from_le bs :: 'a word))"
  then have i: "i < n" by simp
  have "ucast (drop_bit (8 * i) (from_le bs :: 'a word)) = bs ! i"
  proof (rule bit_word_eqI)
    fix k assume "k < LENGTH(8)"
    then have "k < 8" by simp
    then have "(8 * i + k) div 8 = i" and "(8 * i + k) mod 8 = k" and "8 * i + k < LENGTH('a)"
      using i assms(2) by simp_all
    then show "bit (ucast (drop_bit (8 * i) (from_le bs :: 'a word)) :: u8) k = bit (bs ! i) k"
      using i assms(1) \<open>k < 8\<close> by (simp add: bit_simps bit_from_le)
  qed
  with i show "to_le n (from_le bs :: 'a word) ! i = bs ! i" by simp
qed

lemma from_be_to_be: "8 * n = LENGTH('a) \<Longrightarrow> from_be (to_be n w) = (w :: 'a::len word)"
  by (simp add: from_be_def to_be_def from_le_to_le)

lemma to_be_from_be:
  "length bs = n \<Longrightarrow> 8 * n = LENGTH('a) \<Longrightarrow> to_be n (from_be bs :: 'a::len word) = bs"
  by (simp add: from_be_def to_be_def to_le_from_le)


subsection \<open>Bytes, nibbles and masks of a word\<close>

lemma byte_of_from_le:
  assumes "i < length bs" "8 * Suc i \<le> LENGTH('a::len)"
  shows "ucast (drop_bit (8 * i) (from_le bs :: 'a word)) = bs ! i"
proof (rule bit_word_eqI)
  fix k assume "k < LENGTH(8)"
  then have "k < 8" by simp
  then have "(8 * i + k) div 8 = i" and "(8 * i + k) mod 8 = k" and "8 * i + k < LENGTH('a)"
    using assms by simp_all
  then show "bit (ucast (drop_bit (8 * i) (from_le bs :: 'a word)) :: u8) k = bit (bs ! i) k"
    using assms \<open>k < 8\<close> by (simp add: bit_simps bit_from_le)
qed

lemma mask_consts:
  "(0xff :: u32) = mask 8" "(0xffff :: u32) = mask 16" "(0xf :: u32) = mask 4"
  "(0xf :: u8) = mask 4" "(1 :: u8) = mask 1"
  by (simp_all add: mask_eq_exp_minus_1)

lemma ucast_and_mask: "LENGTH('b::len) \<le> n \<Longrightarrow> (ucast (w AND mask n) :: 'b word) = ucast (w :: 'a::len word)"
  by (rule bit_word_eqI) (auto simp: bit_simps dest: bit_imp_le_length)

lemma upt4: "[0..<4] = [0, 1, 2, 3::nat]"
  by (simp add: upt_rec)

lemma to_le_4: "to_le 4 w = [ucast w, ucast (drop_bit 8 w), ucast (drop_bit 16 w), ucast (drop_bit 24 w)]"
  unfolding to_le_def upt4 by simp

lemma push_bit_1_minus_1: "push_bit n (1 :: 'a::len word) - 1 = mask n"
  by (simp only: mask_eq_exp_minus_1 push_bit_of_1)

lemma to_be_4: "to_be 4 w = [ucast (drop_bit 24 w), ucast (drop_bit 16 w), ucast (drop_bit 8 w), ucast w]"
  unfolding to_be_def to_le_4 by simp

lemma length_filter_upt_less: "n \<le> m \<Longrightarrow> length (filter (\<lambda>k. k < n) [0..<m]) = n"
  by (induction m) (auto simp: le_Suc_eq)

lemma take_bit_less: "x < 2 ^ n \<Longrightarrow> take_bit n x = (x :: 'a::len word)"
  using less_mask_eq [of x n] by (simp add: take_bit_eq_mask)

lemma foldl_inv: "I a \<Longrightarrow> (\<And>a x. x \<in> set xs \<Longrightarrow> I a \<Longrightarrow> I (f a x)) \<Longrightarrow> I (foldl f a xs)"
  by (induction xs arbitrary: a) auto

section \<open>Fixed-width codecs\<close>

text \<open>
  The contract every fixed-width wire format of the program has: encoding a valid value
  succeeds, gives exactly \<open>width\<close> bytes, and decoding them gives the value back. The
  encoder may panic (\<open>None\<close>) outside \<open>valid\<close>, the decoder may reject.
\<close>

fun dec_chunks :: "nat \<Rightarrow> (u8 list \<Rightarrow> 'a option) \<Rightarrow> nat \<Rightarrow> u8 list \<Rightarrow> 'a list option" where
  "dec_chunks w dec 0 bs = (if bs = [] then Some [] else None)"
| "dec_chunks w dec (Suc n) bs =
     Option.bind (dec (take w bs)) (\<lambda>x. map_option ((#) x) (dec_chunks w dec n (drop w bs)))"

locale wire_codec =
  fixes enc :: "'a \<Rightarrow> u8 list option"
    and dec :: "u8 list \<Rightarrow> 'a option"
    and valid :: "'a \<Rightarrow> bool"
    and width :: nat
  assumes enc_total: "valid x \<Longrightarrow> \<exists>bs. enc x = Some bs"
    and enc_length: "valid x \<Longrightarrow> enc x = Some bs \<Longrightarrow> length bs = width"
    and dec_enc: "valid x \<Longrightarrow> enc x = Some bs \<Longrightarrow> dec bs = Some x"
begin

lemma enc_inj: "valid x \<Longrightarrow> valid y \<Longrightarrow> enc x = enc y \<Longrightarrow> x = y"
  using dec_enc enc_total by (metis option.inject)

lemma dec_chunks_enc:
  "list_all valid xs \<Longrightarrow>
    dec_chunks width dec (length xs) (concat (map (\<lambda>x. the (enc x)) xs)) = Some xs"
proof (induction xs)
  case Nil
  then show ?case by simp
next
  case (Cons x xs)
  then obtain bs where bs: "enc x = Some bs" using enc_total by auto
  with Cons.prems have "length bs = width" "dec bs = Some x"
    by (auto simp: enc_length dec_enc)
  with Cons bs show ?case by simp
qed

end

interpretation le32: wire_codec "\<lambda>w :: u32. Some (to_le 4 w)" "\<lambda>bs. Some (from_le bs)" "\<lambda>_. True" 4
  by unfold_locales (auto simp: from_le_to_le)

interpretation be32: wire_codec "\<lambda>w :: u32. Some (to_be 4 w)" "\<lambda>bs. Some (from_be bs)" "\<lambda>_. True" 4
  by unfold_locales (auto simp: from_be_to_be)

section \<open>Stream decoders\<close>

text \<open>
  A decoder is called on a receive buffer and returns a frame or nothing, and what is left of
  the buffer. \<open>need\<close> is the shortest buffer it looks at. \<open>drain\<close> calls it until the buffer
  is too short, with fuel for the number of calls; the locale shows that the length of the
  buffer is always enough fuel and that cutting the input into chunks changes nothing.
\<close>

fun drain :: "(u8 list \<Rightarrow> 'r option \<times> u8 list) \<Rightarrow> nat \<Rightarrow> nat \<Rightarrow> u8 list \<Rightarrow> 'r list \<times> u8 list" where
  "drain dec need 0 buf = ([], buf)"
| "drain dec need (Suc n) buf =
     (if length buf < need then ([], buf)
      else let (r, rest) = dec buf; (rs, out) = drain dec need n rest
           in (case r of None \<Rightarrow> rs | Some x \<Rightarrow> x # rs, out))"

locale frame_stream =
  fixes dec :: "u8 list \<Rightarrow> 'r option \<times> u8 list"
    and need :: nat
  assumes need_pos: "0 < need"
    and short: "length buf < need \<Longrightarrow> dec buf = (None, buf)"
    and progress: "need \<le> length buf \<Longrightarrow> dec buf = (r, rest) \<Longrightarrow> length rest < length buf"
    and local: "need \<le> length buf \<Longrightarrow> dec buf = (r, rest) \<Longrightarrow> dec (buf @ more) = (r, rest @ more)"
begin

lemma drain_fuel:
  "length buf \<le> n \<Longrightarrow> length buf \<le> m \<Longrightarrow> drain dec need n buf = drain dec need m buf"
proof (induction n arbitrary: m buf)
  case 0
  then show ?case using need_pos by (cases m) auto
next
  case (Suc n)
  show ?case
  proof (cases "length buf < need")
    case True
    then show ?thesis by (cases m) auto
  next
    case False
    obtain r rest where d: "dec buf = (r, rest)" by fastforce
    with False progress have l: "length rest < length buf" by simp
    then obtain m' where m: "m = Suc m'" using Suc.prems(2) by (cases m) auto
    have "drain dec need n rest = drain dec need m' rest"
      using l m Suc.prems by (intro Suc.IH) simp_all
    then show ?thesis using False by (simp add: d m)
  qed
qed

lemma drain_rest_short: "length buf \<le> n \<Longrightarrow> length (snd (drain dec need n buf)) < need"
proof (induction n arbitrary: buf)
  case 0
  then show ?case using need_pos by simp
next
  case (Suc n)
  show ?case
  proof (cases "length buf < need")
    case False
    obtain r rest where d: "dec buf = (r, rest)" by fastforce
    with False progress have "length rest < length buf" by simp
    then have "length (snd (drain dec need n rest)) < need" using Suc.prems by (intro Suc.IH) simp
    then show ?thesis using False by (cases "drain dec need n rest") (simp add: d)
  qed simp
qed

lemma drain_append:
  "length buf + length more \<le> n \<Longrightarrow>
    drain dec need n (buf @ more) =
      (let (rs, out) = drain dec need n buf; (rs', out') = drain dec need n (out @ more)
       in (rs @ rs', out'))"
proof (induction "length buf" arbitrary: buf n rule: less_induct)
  case less
  show ?case
  proof (cases "length buf < need")
    case True
    then have "drain dec need n buf = ([], buf)" by (cases n) auto
    then show ?thesis by simp
  next
    case False
    obtain r rest where d: "dec buf = (r, rest)" by fastforce
    with False progress have l: "length rest < length buf" by simp
    obtain m where n: "n = Suc m" using less.prems False need_pos by (cases n) auto
    have da: "dec (buf @ more) = (r, rest @ more)" using False d by (intro local) simp_all
    obtain rs out where o: "drain dec need m rest = (rs, out)" by fastforce
    have lo: "length out < need"
      using l drain_rest_short [of rest m] less.prems n o by simp
    have IH: "drain dec need m (rest @ more) =
        (let (rs, out) = drain dec need m rest; (rs', out') = drain dec need m (out @ more)
         in (rs @ rs', out'))"
      using l less.prems n by (intro less.hyps) simp_all
    have "drain dec need m (out @ more) = drain dec need n (out @ more)"
      using lo False less.prems n by (intro drain_fuel) simp_all
    then show ?thesis using False IH by (simp add: n d da o split: prod.split option.split)
  qed
qed

end

section \<open>State machines that keep an invariant\<close>

text \<open>
  A component whose operations are a step function on events: \<open>inv\<close> holds at the start
  and every admissible event keeps it, so it holds after every admissible run.
\<close>

fun run_ok :: "('s \<Rightarrow> 'e \<Rightarrow> bool) \<Rightarrow> ('s \<Rightarrow> 'e \<Rightarrow> 's) \<Rightarrow> 's \<Rightarrow> 'e list \<Rightarrow> bool" where
  "run_ok ok step s [] = True"
| "run_ok ok step s (e # es) = (ok s e \<and> run_ok ok step (step s e) es)"

locale step_system =
  fixes init :: 's
    and step :: "'s \<Rightarrow> 'e \<Rightarrow> 's"
    and ok :: "'s \<Rightarrow> 'e \<Rightarrow> bool"
    and inv :: "'s \<Rightarrow> bool"
  assumes inv_init: "inv init"
    and inv_step: "inv s \<Longrightarrow> ok s e \<Longrightarrow> inv (step s e)"
begin

lemma inv_run_from: "inv s \<Longrightarrow> run_ok ok step s es \<Longrightarrow> inv (foldl step s es)"
  by (induction es arbitrary: s) (auto intro: inv_step)

lemma inv_run: "run_ok ok step init es \<Longrightarrow> inv (foldl step init es)"
  by (rule inv_run_from [OF inv_init])

end

text \<open>A system in which every event is admissible at every state.\<close>

locale total_step_system = step_system init step "\<lambda>_ _. True" inv
  for init :: 's and step :: "'s \<Rightarrow> 'e \<Rightarrow> 's" and inv :: "'s \<Rightarrow> bool"
begin

lemma run_ok_True: "run_ok (\<lambda>_ _. True) step s es"
  by (induction es arbitrary: s) auto

lemma inv_always: "inv (foldl step init es)"
  by (rule inv_run) (rule run_ok_True)

end

end
