(* ===== verification/Registers.thy ===== *)
theory Registers
  imports Prelude
begin

text \<open>
  The register data model of the BM13xx chips, from
  \<open>mujina-miner/src/asic/bm13xx/protocol.rs\<close>: PLL configuration and its search, chip types,
  nonce ranges, ticket masks, baud rates, driver strengths, version masks, and the encoding
  and decoding of the four data bytes of every register. Arrays are lists whose lengths the
  well-formedness predicate \<open>wf_register\<close> fixes. The \<open>f32\<close> arithmetic of the PLL search
  is a parameter (\<open>f32_ops\<close>): every statement holds for any rounding, and where an order law
  of IEEE comparison is needed it is a named hypothesis.
\<close>

section \<open>Floating point as a parameter\<close>

record 'f f32_ops =
  f32_lit :: "rat \<Rightarrow> 'f"
  f32_of_u8 :: "u8 \<Rightarrow> 'f"
  f32_add :: "'f \<Rightarrow> 'f \<Rightarrow> 'f"
  f32_sub :: "'f \<Rightarrow> 'f \<Rightarrow> 'f"
  f32_mul :: "'f \<Rightarrow> 'f \<Rightarrow> 'f"
  f32_div :: "'f \<Rightarrow> 'f \<Rightarrow> 'f"
  f32_abs :: "'f \<Rightarrow> 'f"
  f32_lt :: "'f \<Rightarrow> 'f \<Rightarrow> bool"
  f32_le :: "'f \<Rightarrow> 'f \<Rightarrow> bool"
  f32_max :: 'f
  f32_round_u8 :: "'f \<Rightarrow> u8"
  f32_as_u32 :: "'f \<Rightarrow> u32"

text \<open>
  What the search relies on: comparison is transitive and irreflexive and one lies below
  the largest finite value. IEEE comparison has all three, NaN included (it compares false).
\<close>

definition f32_sane :: "('f, 'm) f32_ops_scheme \<Rightarrow> bool" where
  "f32_sane F \<longleftrightarrow> transp (f32_lt F) \<and> irreflp (f32_lt F) \<and> f32_lt F (f32_lit F 1) (f32_max F)"

text \<open>Exact rational arithmetic, an instance the witnesses evaluate.\<close>

definition rat_ops :: "rat f32_ops" where
  "rat_ops = \<lparr>f32_lit = id, f32_of_u8 = (\<lambda>b. of_nat (unat b)),
    f32_add = (+), f32_sub = (-), f32_mul = (*), f32_div = (/), f32_abs = abs,
    f32_lt = (<), f32_le = (\<le>), f32_max = 2 ^ 128,
    f32_round_u8 = (\<lambda>x. word_of_nat (nat (min 255 \<lfloor>x + 1 / 2\<rfloor>))),
    f32_as_u32 = (\<lambda>x. word_of_nat (nat \<lfloor>x\<rfloor>))\<rparr>"

lemma rat_ops_sane: "f32_sane rat_ops"
  by (simp add: f32_sane_def rat_ops_def transp_on_def irreflp_on_def)

section \<open>Protocol errors\<close>

datatype register_address =
  AddrChipId | AddrPllDivider | AddrNonceRange | AddrTicketMask | AddrMiscControl
  | AddrUartBaud | AddrUartRelay | AddrCore | AddrAnalogMux | AddrIoDriverStrength
  | AddrPll3Parameter | AddrVersionMask | AddrInitControl | AddrMiscSettings

datatype protocol_error =
  InvalidRegisterAddress u8
  | InvalidResponseType u8
  | ReadOnlyRegister register_address
  | InvalidFrame
  | BufferTooSmall nat nat
  | InvalidFrequency u32

text \<open>\<open>RegisterAddress\<close> is \<open>repr(u8)\<close>; \<open>from_repr\<close> is derived.\<close>

primrec register_address_repr :: "register_address \<Rightarrow> u8" where
  "register_address_repr AddrChipId = 0x00"
| "register_address_repr AddrPllDivider = 0x08"
| "register_address_repr AddrNonceRange = 0x10"
| "register_address_repr AddrTicketMask = 0x14"
| "register_address_repr AddrMiscControl = 0x18"
| "register_address_repr AddrUartBaud = 0x28"
| "register_address_repr AddrUartRelay = 0x2C"
| "register_address_repr AddrCore = 0x3C"
| "register_address_repr AddrAnalogMux = 0x54"
| "register_address_repr AddrIoDriverStrength = 0x58"
| "register_address_repr AddrPll3Parameter = 0x68"
| "register_address_repr AddrVersionMask = 0xA4"
| "register_address_repr AddrInitControl = 0xA8"
| "register_address_repr AddrMiscSettings = 0xB9"

definition all_register_addresses :: "register_address list" where
  "all_register_addresses =
    [AddrChipId, AddrPllDivider, AddrNonceRange, AddrTicketMask, AddrMiscControl,
     AddrUartBaud, AddrUartRelay, AddrCore, AddrAnalogMux, AddrIoDriverStrength,
     AddrPll3Parameter, AddrVersionMask, AddrInitControl, AddrMiscSettings]"

definition register_address_from_repr :: "u8 \<Rightarrow> register_address option" where
  "register_address_from_repr b =
    find (\<lambda>a. register_address_repr a = b) all_register_addresses"

section \<open>Frequency and PLL\<close>

record pll_config =
  pll_flag :: u8
  pll_fb_div :: u8
  pll_ref_div :: u8
  pll_post_div :: u8

definition pll_new :: "('f, 'm) f32_ops_scheme \<Rightarrow> u8 \<Rightarrow> u8 \<Rightarrow> u8 \<Rightarrow> pll_config" where
  "pll_new F fb ref post =
    (let vco = f32_div F (f32_mul F (f32_of_u8 F fb) (f32_lit F 25)) (f32_of_u8 F ref);
         flag = (if f32_le F (f32_lit F 2400) vco then 0x50 else 0x40)
     in \<lparr>pll_flag = flag, pll_fb_div = fb, pll_ref_div = ref, pll_post_div = post\<rparr>)"

definition pll_from_u32 :: "u32 \<Rightarrow> pll_config" where
  "pll_from_u32 raw =
    \<lparr>pll_flag = ucast (raw AND 0xff),
     pll_fb_div = ucast (drop_bit 8 raw AND 0xff),
     pll_ref_div = ucast (drop_bit 16 raw AND 0xff),
     pll_post_div = ucast (drop_bit 24 raw AND 0xff)\<rparr>"

definition pll_bytes :: "pll_config \<Rightarrow> u8 list" where
  "pll_bytes c = [pll_flag c, pll_fb_div c, pll_ref_div c, pll_post_div c]"

definition frequency_from_mhz :: "('f, 'm) f32_ops_scheme \<Rightarrow> 'f \<Rightarrow> protocol_error + 'f" where
  "frequency_from_mhz F mhz =
    (if \<not> (f32_le F (f32_lit F 50) mhz \<and> f32_le F mhz (f32_lit F 800))
     then Inl (InvalidFrequency (f32_as_u32 F mhz)) else Inr mhz)"

text \<open>The loops over the reference divider and both post dividers, in source order.\<close>

definition pll_candidates :: "(u8 \<times> u8 \<times> u8) list" where
  "pll_candidates =
    concat (map (\<lambda>r. concat (map (\<lambda>p1.
      map (\<lambda>p2. (r, p1, p2)) (filter (\<lambda>p2. p2 \<le> p1) [7, 6, 5, 4, 3, 2, 1]))
      [7, 6, 5, 4, 3, 2, 1])) [2, 1])"

definition post_div_code :: "u8 \<Rightarrow> u8 \<Rightarrow> u8" where
  "post_div_code p1 p2 = push_bit 4 (p1 - 1) OR (p2 - 1)"

fun fb_div_for :: "('f, 'm) f32_ops_scheme \<Rightarrow> 'f \<Rightarrow> u8 \<times> u8 \<times> u8 \<Rightarrow> u8" where
  "fb_div_for F target (r, p1, p2) =
    f32_round_u8 F
      (f32_div F (f32_mul F (f32_mul F (f32_of_u8 F (p1 * p2)) target) (f32_of_u8 F r))
        (f32_lit F 25))"

fun pll_error :: "('f, 'm) f32_ops_scheme \<Rightarrow> 'f \<Rightarrow> u8 \<times> u8 \<times> u8 \<Rightarrow> 'f" where
  "pll_error F target (r, p1, p2) =
    f32_abs F (f32_sub F target
      (f32_div F (f32_mul F (f32_lit F 25) (f32_of_u8 F (fb_div_for F target (r, p1, p2))))
        (f32_mul F (f32_mul F (f32_of_u8 F r) (f32_of_u8 F p1)) (f32_of_u8 F p2))))"

fun pll_step :: "('f, 'm) f32_ops_scheme \<Rightarrow> 'f \<Rightarrow> pll_config \<times> 'f \<Rightarrow> u8 \<times> u8 \<times> u8 \<Rightarrow> pll_config \<times> 'f"
where
  "pll_step F target (best, min_error) (r, p1, p2) =
    (let fb = fb_div_for F target (r, p1, p2) in
     if 0xa0 \<le> fb \<and> fb \<le> 0xef then
       let error = pll_error F target (r, p1, p2) in
       if f32_lt F error min_error \<and> f32_lt F error (f32_lit F 1)
       then (pll_new F fb r (post_div_code p1 p2), error)
       else (best, min_error)
     else (best, min_error))"

definition calculate_pll :: "('f, 'm) f32_ops_scheme \<Rightarrow> 'f \<Rightarrow> pll_config" where
  "calculate_pll F mhz =
    fst (foldl (pll_step F mhz) (pll_new F 0xa0 2 0x55, f32_max F) pll_candidates)"

section \<open>Chip types and nonce ranges\<close>

datatype chip_type = BM1362 | BM1366 | BM1370 | BM1397 | UnknownChip u8 u8

primrec id_bytes :: "chip_type \<Rightarrow> u8 list" where
  "id_bytes BM1362 = [0x13, 0x62]"
| "id_bytes BM1366 = [0x13, 0x66]"
| "id_bytes BM1370 = [0x13, 0x70]"
| "id_bytes BM1397 = [0x13, 0x97]"
| "id_bytes (UnknownChip a b) = [a, b]"

definition chip_core_count :: "chip_type \<Rightarrow> u32 option" where
  "chip_core_count t = (case t of BM1370 \<Rightarrow> Some 2048 | _ \<Rightarrow> None)"

definition chip_type_from :: "u8 \<Rightarrow> u8 \<Rightarrow> chip_type" where
  "chip_type_from a b =
    (if a = 0x13 \<and> b = 0x62 then BM1362
     else if a = 0x13 \<and> b = 0x66 then BM1366
     else if a = 0x13 \<and> b = 0x70 then BM1370
     else if a = 0x13 \<and> b = 0x97 then BM1397
     else UnknownChip a b)"

text \<open>A \<open>NonceRangeConfig\<close> is its four wire bytes.\<close>

type_synonym nonce_range_config = "u8 list"

definition nonce_range_single_chip :: nonce_range_config where
  "nonce_range_single_chip = [0xff, 0xff, 0xff, 0xff]"

definition nonce_range_multi_chip :: "nat \<Rightarrow> nonce_range_config" where
  "nonce_range_multi_chip n =
    (if n = 1 then [0xff, 0xff, 0xff, 0xff]
     else if 2 \<le> n \<and> n \<le> 8 then [0xff, 0xff, 0xff, 0x1f]
     else if 9 \<le> n \<and> n \<le> 16 then [0xff, 0xff, 0xff, 0x0f]
     else if 17 \<le> n \<and> n \<le> 32 then [0xff, 0xff, 0xff, 0x07]
     else if 33 \<le> n \<and> n \<le> 64 then [0xff, 0xff, 0xff, 0x03]
     else if 65 \<le> n \<and> n \<le> 128 then [0x00, 0x00, 0x1e, 0xb5]
     else [0xff, 0xff, 0xff, 0x01])"

definition nonce_range_from_raw :: "u32 \<Rightarrow> nonce_range_config" where
  "nonce_range_from_raw v = to_le 4 v"

section \<open>Difficulty exponent and ticket mask\<close>

text \<open>
  A \<open>Log2Difficulty\<close> is its exponent. The conversion from a difficulty reads it as \<open>f64\<close>
  (\<open>as_f64\<close>), compares with one and takes \<open>log2().floor() as u8\<close>: the three float steps are
  arguments.
\<close>

definition log2_from_difficulty ::
  "('d \<Rightarrow> 'f) \<Rightarrow> ('f \<Rightarrow> bool) \<Rightarrow> ('f \<Rightarrow> u8) \<Rightarrow> 'd \<Rightarrow> u8" where
  "log2_from_difficulty as_f64 at_least_one log2_floor_u8 difficulty =
    (let d = as_f64 difficulty in if at_least_one d then log2_floor_u8 d else 0)"

fun reverse_bits_loop :: "nat \<Rightarrow> u8 \<Rightarrow> u8 \<Rightarrow> u8" where
  "reverse_bits_loop 0 result b = result"
| "reverse_bits_loop (Suc n) result b =
     reverse_bits_loop n (push_bit 1 result OR (b AND 1)) (drop_bit 1 b)"

definition reverse_bits :: "u8 \<Rightarrow> u8" where
  "reverse_bits b = reverse_bits_loop 8 0 b"

text \<open>
  \<open>TicketMask::to_wire_bytes\<close>: the shift \<open>1u32 << zero_bits\<close> panics from 32 on. Byte
  \<open>3 - i\<close> of the result is the reversed byte \<open>i\<close> of the mask.
\<close>

definition ticket_mask_bytes :: "u8 \<Rightarrow> u8 list option" where
  "ticket_mask_bytes zero_bits =
    (if zero_bits = 0 then Some [0, 0, 0, 0]
     else map_option
       (\<lambda>p. let mask_value = p - 1 in
         map (\<lambda>j. reverse_bits (ucast (drop_bit (8 * (3 - j)) mask_value AND (0xFF :: u32))))
           [0, 1, 2, 3])
       (shl_chk (1 :: u32) (unat zero_bits)))"

definition decode_ticket_mask_bytes :: "u8 list \<Rightarrow> u32" where
  "decode_ticket_mask_bytes bytes =
    foldl (\<lambda>mask i. mask OR push_bit (8 * i) (ucast (reverse_bits (bytes ! (3 - i))))) 0
      [0, 1, 2, 3]"

definition count_ones :: "'a::len word \<Rightarrow> nat" where
  "count_ones w = length (filter (bit w) [0..<LENGTH('a)])"

definition zero_bits_of_bytes :: "u8 list \<Rightarrow> u8" where
  "zero_bits_of_bytes bytes = word_of_nat (count_ones (decode_ticket_mask_bytes bytes))"

section \<open>Baud rates, driver strength, version mask\<close>

datatype baud_rate = Baud115200 | Baud1M | Baud3M | CustomBaud u32

primrec baud_value :: "baud_rate \<Rightarrow> u32" where
  "baud_value Baud115200 = 0x00000271"
| "baud_value Baud1M = 0x00023011"
| "baud_value Baud3M = 0x00003001"
| "baud_value (CustomBaud v) = v"

definition baud_bytes :: "baud_rate \<Rightarrow> u8 list" where
  "baud_bytes b = to_le 4 (baud_value b)"

definition decode_baud :: "u32 \<Rightarrow> baud_rate" where
  "decode_baud raw =
    (if raw = 0x00000271 then Baud115200
     else if raw = 0x00000130 then Baud1M
     else if raw = 0x00003001 then Baud3M
     else CustomBaud raw)"

text \<open>\<open>IoDriverStrength\<close> holds eight strengths of four bits each.\<close>

type_synonym io_driver_strength = "u8 list"

definition io_driver_normal :: io_driver_strength where
  "io_driver_normal = [0x0, 0x0, 0x1, 0x0, 0x1, 0x1, 0x1, 0x1]"

definition io_driver_domain_boundary :: io_driver_strength where
  "io_driver_domain_boundary = [0x0, 0x0, 0x1, 0xf, 0x1, 0x1, 0x1, 0x1]"

definition io_driver_bytes :: "io_driver_strength \<Rightarrow> u8 list" where
  "io_driver_bytes s =
    [s ! 0 OR push_bit 4 (s ! 1), s ! 2 OR push_bit 4 (s ! 3),
     s ! 4 OR push_bit 4 (s ! 5), s ! 6 OR push_bit 4 (s ! 7)]"

definition decode_io_driver :: "u32 \<Rightarrow> io_driver_strength" where
  "decode_io_driver raw = map (\<lambda>i. ucast (drop_bit (i * 4) raw AND 0xf)) [0..<8]"

record version_mask =
  vm_mask :: u16
  vm_control :: u16

definition version_mask_full_rolling :: version_mask where
  "version_mask_full_rolling = \<lparr>vm_mask = 0xffff, vm_control = 0x0090\<rparr>"

definition version_mask_bytes :: "version_mask \<Rightarrow> u8 list" where
  "version_mask_bytes m = to_le 2 (vm_control m) @ to_le 2 (vm_mask m)"

definition decode_version_mask :: "u32 \<Rightarrow> version_mask" where
  "decode_version_mask raw =
    \<lparr>vm_mask = ucast (drop_bit 16 raw), vm_control = ucast (raw AND 0xffff)\<rparr>"

section \<open>Registers\<close>

datatype register =
  ChipId chip_type u8 u8
  | PllDivider pll_config
  | NonceRange nonce_range_config
  | TicketMask u8
  | MiscControl u32
  | UartBaud baud_rate
  | UartRelay u32
  | Core u32
  | AnalogMux u32
  | IoDriverStrength io_driver_strength
  | Pll3Parameter u32
  | VersionMask version_mask
  | InitControl u32
  | MiscSettings u32

primrec register_decode :: "register_address \<Rightarrow> u8 list \<Rightarrow> register" where
  "register_decode AddrChipId bs = ChipId (chip_type_from (bs ! 0) (bs ! 1)) (bs ! 2) (bs ! 3)"
| "register_decode AddrPllDivider bs = PllDivider (pll_from_u32 (from_le bs))"
| "register_decode AddrNonceRange bs = NonceRange bs"
| "register_decode AddrTicketMask bs = TicketMask (zero_bits_of_bytes bs)"
| "register_decode AddrMiscControl bs = MiscControl (from_le bs)"
| "register_decode AddrUartBaud bs = UartBaud (decode_baud (from_le bs))"
| "register_decode AddrUartRelay bs = UartRelay (from_le bs)"
| "register_decode AddrCore bs = Core (from_le bs)"
| "register_decode AddrAnalogMux bs = AnalogMux (from_le bs)"
| "register_decode AddrIoDriverStrength bs = IoDriverStrength (decode_io_driver (from_le bs))"
| "register_decode AddrPll3Parameter bs = Pll3Parameter (from_le bs)"
| "register_decode AddrVersionMask bs = VersionMask (decode_version_mask (from_le bs))"
| "register_decode AddrInitControl bs = InitControl (from_le bs)"
| "register_decode AddrMiscSettings bs = MiscSettings (from_le bs)"

primrec address_of :: "register \<Rightarrow> register_address" where
  "address_of (ChipId t n a) = AddrChipId"
| "address_of (PllDivider c) = AddrPllDivider"
| "address_of (NonceRange c) = AddrNonceRange"
| "address_of (TicketMask z) = AddrTicketMask"
| "address_of (MiscControl v) = AddrMiscControl"
| "address_of (UartBaud b) = AddrUartBaud"
| "address_of (UartRelay v) = AddrUartRelay"
| "address_of (Core v) = AddrCore"
| "address_of (AnalogMux v) = AddrAnalogMux"
| "address_of (IoDriverStrength s) = AddrIoDriverStrength"
| "address_of (Pll3Parameter v) = AddrPll3Parameter"
| "address_of (VersionMask m) = AddrVersionMask"
| "address_of (InitControl v) = AddrInitControl"
| "address_of (MiscSettings v) = AddrMiscSettings"

text \<open>The data bytes of a register write; only the ticket mask can panic.\<close>

primrec encode_data :: "register \<Rightarrow> u8 list option" where
  "encode_data (ChipId t n a) = Some (id_bytes t @ [n, a])"
| "encode_data (PllDivider c) = Some (pll_bytes c)"
| "encode_data (NonceRange c) = Some c"
| "encode_data (TicketMask z) = ticket_mask_bytes z"
| "encode_data (UartBaud b) = Some (baud_bytes b)"
| "encode_data (Core v) = Some (to_be 4 v)"
| "encode_data (MiscControl v) = Some (to_le 4 v)"
| "encode_data (UartRelay v) = Some (to_le 4 v)"
| "encode_data (AnalogMux v) = Some (to_le 4 v)"
| "encode_data (Pll3Parameter v) = Some (to_le 4 v)"
| "encode_data (InitControl v) = Some (to_le 4 v)"
| "encode_data (MiscSettings v) = Some (to_le 4 v)"
| "encode_data (IoDriverStrength s) = Some (io_driver_bytes s)"
| "encode_data (VersionMask m) = Some (version_mask_bytes m)"

text \<open>The array lengths the source's types fix.\<close>

fun wf_register :: "register \<Rightarrow> bool" where
  "wf_register (NonceRange c) = (length c = 4)"
| "wf_register (IoDriverStrength s) = (length s = 8)"
| "wf_register _ = True"

section \<open>The PLL search\<close>

text \<open>
  \<open>pll_shape\<close>: a configuration the hardware format allows. \<open>acceptable\<close>: a divider triple
  whose feedback divider is in range and whose error is below one megahertz.
\<close>

definition pll_shape :: "pll_config \<Rightarrow> bool" where
  "pll_shape c \<longleftrightarrow> pll_flag c \<in> {0x40, 0x50} \<and> 0xa0 \<le> pll_fb_div c \<and> pll_fb_div c \<le> 0xef
    \<and> (\<exists>(r, p1, p2) \<in> set pll_candidates. pll_ref_div c = r \<and> pll_post_div c = post_div_code p1 p2)"

lemma pll_new_shape:
  "(r, p1, p2) \<in> set pll_candidates \<Longrightarrow> 0xa0 \<le> fb \<Longrightarrow> fb \<le> 0xef \<Longrightarrow>
    pll_shape (pll_new F fb r (post_div_code p1 p2))"
  by (auto simp: pll_shape_def pll_new_def Let_def intro!: bexI [of _ "(r, p1, p2)"])

lemma pll_step_shape: "pll_shape (fst acc) \<Longrightarrow> c \<in> set pll_candidates \<Longrightarrow> pll_shape (fst (pll_step F t acc c))"
  by (cases acc; cases c) (auto simp: Let_def pll_new_shape)

lemma default_candidate: "(2, 6, 6) \<in> set pll_candidates"
  by (simp add: pll_candidates_def)

lemma default_code: "post_div_code 6 6 = 0x55"
  by (simp add: post_div_code_def)

definition acceptable :: "('f, 'm) f32_ops_scheme \<Rightarrow> 'f \<Rightarrow> u8 \<times> u8 \<times> u8 \<Rightarrow> bool" where
  "acceptable F t c \<longleftrightarrow> 0xa0 \<le> fb_div_for F t c \<and> fb_div_for F t c \<le> 0xef \<and>
     f32_lt F (pll_error F t c) (f32_lit F 1)"

definition pll_of :: "('f, 'm) f32_ops_scheme \<Rightarrow> 'f \<Rightarrow> u8 \<times> u8 \<times> u8 \<Rightarrow> pll_config" where
  "pll_of F t c = (case c of (r, p1, p2) \<Rightarrow> pll_new F (fb_div_for F t c) r (post_div_code p1 p2))"

lemma pll_step_eq:
  "pll_step F t acc c =
    (if acceptable F t c \<and> f32_lt F (pll_error F t c) (snd acc)
     then (pll_of F t c, pll_error F t c) else acc)"
  by (cases acc; cases c) (auto simp: Let_def acceptable_def pll_of_def)

lemma pll_search_best:
  assumes sane: "f32_sane F"
  shows "(case foldl (pll_step F t) (d, f32_max F) cs of (cfg, e) \<Rightarrow>
      (if \<exists>c \<in> set cs. acceptable F t c
       then \<exists>c \<in> set cs. acceptable F t c \<and> cfg = pll_of F t c \<and> e = pll_error F t c
       else cfg = d \<and> e = f32_max F) \<and>
      (\<forall>c \<in> set cs. acceptable F t c \<longrightarrow> \<not> f32_lt F (pll_error F t c) e))"
proof (induction cs rule: rev_induct)
  case Nil
  then show ?case by simp
next
  case (snoc c cs)
  obtain cfg e where ce: "foldl (pll_step F t) (d, f32_max F) cs = (cfg, e)" by fastforce
  have tr: "f32_lt F x y \<Longrightarrow> f32_lt F y z \<Longrightarrow> f32_lt F x z" for x y z
    using sane unfolding f32_sane_def transp_on_def by blast
  have irr: "\<not> f32_lt F x x" for x
    using sane unfolding f32_sane_def irreflp_on_def by blast
  have one: "acceptable F t x \<Longrightarrow> f32_lt F (pll_error F t x) (f32_max F)" for x
    using sane tr unfolding f32_sane_def acceptable_def by blast
  note IH = snoc.IH [unfolded ce split]
  show ?case
  proof (cases "acceptable F t c \<and> f32_lt F (pll_error F t c) e")
    case True
    then have "\<forall>x \<in> set cs. acceptable F t x \<longrightarrow> \<not> f32_lt F (pll_error F t x) (pll_error F t c)"
      using IH tr by blast
    with True irr show ?thesis by (auto simp: ce pll_step_eq [of F t "(cfg, e)" c] simp del: pll_step.simps)
  next
    case False
    then have "acceptable F t c \<Longrightarrow> \<exists>x \<in> set cs. acceptable F t x"
      using IH one [of c] by (auto split: if_splits)
    with False IH show ?thesis by (auto simp: ce pll_step_eq [of F t "(cfg, e)" c] simp del: pll_step.simps split: if_splits)
  qed
qed

section \<open>Encoding and decoding of register data\<close>

lemma pll_rt: "pll_from_u32 (from_le (pll_bytes c)) = c"
  using byte_of_from_le [where 'a=32 and bs = "pll_bytes c" and i=0]
   byte_of_from_le [where 'a=32 and bs = "pll_bytes c" and i=1]
   byte_of_from_le [where 'a=32 and bs = "pll_bytes c" and i=2]
   byte_of_from_le [where 'a=32 and bs = "pll_bytes c" and i=3]
  by (cases c) (simp add: pll_from_u32_def mask_consts ucast_and_mask, simp add: pll_bytes_def)

lemma bit_shift_in: "bit (push_bit 1 r OR (b AND 1) :: u8) j \<longleftrightarrow> (if j = 0 then bit b 0 else j < 8 \<and> bit r (j - 1))"
  unfolding bit_or_iff bit_push_bit_iff bit_and_iff bit_1_iff by auto

lemma reverse_bits_loop_bit:
  "n \<le> 8 \<Longrightarrow> k < 8 \<Longrightarrow> bit (reverse_bits_loop n r b) k = (if k < n then bit b (n - 1 - k) else bit r (k - n))"
proof (induction n arbitrary: r b)
  case 0
  then show ?case by simp
next
  case (Suc n)
  have "bit (reverse_bits_loop (Suc n) r b) k =
    (if k < n then bit (drop_bit 1 b) (n - 1 - k) else bit (push_bit 1 r OR (b AND 1)) (k - n))"
    using Suc.IH [of "push_bit 1 r OR (b AND 1)" "drop_bit 1 b"] Suc.prems
    unfolding reverse_bits_loop.simps by simp
  then show ?case
    using Suc.prems unfolding bit_shift_in bit_drop_bit_eq by (auto simp: Suc_diff_Suc)
qed

lemma bit_reverse_bits: "k < 8 \<Longrightarrow> bit (reverse_bits b) k = bit b (7 - k)"
  by (simp add: reverse_bits_def reverse_bits_loop_bit)

lemma reverse_bits_twice [simp]: "reverse_bits (reverse_bits b) = b"
  by (rule bit_word_eqI) (simp add: bit_reverse_bits)


lemma decode_ticket_mask_bytes_eq:
  "decode_ticket_mask_bytes [a, b, c, d] = from_le (map reverse_bits [d, c, b, a])"
proof -
  have nth: "[a, b, c, d] ! (3 - 0) = d" "[a, b, c, d] ! (3 - 1) = c"
    "[a, b, c, d] ! (3 - 2) = b" "[a, b, c, d] ! (3 - 3) = a" by simp_all
  have sh: "push_bit (8 * 0) x = x" "push_bit (8 * 2) x = push_bit 8 (push_bit 8 x)"
    "push_bit (8 * 1) x = push_bit 8 x"
    "push_bit (8 * 3) x = push_bit 8 (push_bit 8 (push_bit 8 x))" for x :: u32
    by (simp_all only: push_bit_push_bit) simp_all
  show ?thesis
    unfolding decode_ticket_mask_bytes_def foldl.simps nth sh from_le_def list.map foldr.simps o_apply id_apply
    by (simp only: push_bit_or or.assoc or.right_neutral or.left_neutral push_bit_of_0)
qed

lemma reversed_mask_bytes:
  "map (\<lambda>j. reverse_bits (ucast (drop_bit (8 * (3 - j)) w AND (0xFF :: u32)))) [0, 1, 2, 3]
    = map reverse_bits (to_be 4 w)"
  unfolding to_be_def to_le_4 mask_consts
  by (simp add: ucast_and_mask)

lemma ticket_mask_bytes_pos:
  "z \<noteq> 0 \<Longrightarrow> ticket_mask_bytes z =
    (if z < 32 then Some (map reverse_bits (to_be 4 (mask (unat z) :: u32))) else None)"
  unfolding ticket_mask_bytes_def shl_chk_def Let_def reversed_mask_bytes push_bit_1_minus_1
  by (simp add: word_less_nat_alt mask_eq_exp_minus_1)

lemma count_ones_mask: "n \<le> LENGTH('a) \<Longrightarrow> count_ones (mask n :: 'a::len word) = n"
proof -
  assume n: "n \<le> LENGTH('a)"
  have "filter (bit (mask n :: 'a word)) [0..<LENGTH('a)] = filter (\<lambda>k. k < n) [0..<LENGTH('a)]"
    by (rule filter_cong) (auto simp: bit_simps)
  then show ?thesis using n by (simp add: count_ones_def length_filter_upt_less)
qed

lemma zero_bits_roundtrip:
  assumes "z < 32" "ticket_mask_bytes z = Some bs"
  shows "length bs = 4 \<and> zero_bits_of_bytes bs = z"
proof (cases "z = 0")
  case True
  moreover have "zero_bits_of_bytes [0, 0, 0, 0] = 0" by code_simp
  ultimately show ?thesis using assms by (auto simp: ticket_mask_bytes_def)
next
  case False
  let ?w = "mask (unat z) :: u32"
  have bs: "bs = map reverse_bits (to_be 4 ?w)" using False assms by (simp add: ticket_mask_bytes_pos)
  have "decode_ticket_mask_bytes bs = from_le (to_le 4 ?w)"
    unfolding bs to_be_4 list.map decode_ticket_mask_bytes_eq to_le_4
    by (simp only: list.map reverse_bits_twice)
  also have "\<dots> = ?w" by (rule from_le_to_le) simp
  finally have "decode_ticket_mask_bytes bs = ?w" .
  moreover have "unat z \<le> 32" using assms by (simp add: word_less_nat_alt)
  ultimately show ?thesis by (simp add: bs zero_bits_of_bytes_def count_ones_mask)
qed


lemma bit_nibble: "k < 8 \<Longrightarrow> bit (ucast (drop_bit n (w :: u32) AND 0xf) :: u8) k \<longleftrightarrow> k < 4 \<and> bit w (n + k)"
  unfolding mask_consts bit_ucast_iff bit_and_iff bit_drop_bit_eq bit_mask_iff
  by (auto dest: bit_imp_le_length)

lemma nibble_of_from_le:
  assumes "length bs = 4" "i < 8"
  shows "ucast (drop_bit (i * 4) (from_le bs :: u32) AND 0xf)
    = take_bit 4 (drop_bit (4 * (i mod 2)) (bs ! (i div 2)))"
proof (rule bit_word_eqI)
  fix k assume "k < LENGTH(8)"
  then have k: "k < 8" by simp
  have "bit (from_le bs :: u32) (i * 4 + k) = bit (bs ! (i div 2)) (4 * (i mod 2) + k)" if "k < 4"
  proof -
    have e: "i * 4 + k = 8 * (i div 2) + (4 * (i mod 2) + k)"
      using div_mult_mod_eq [of i 2] by linarith
    have s: "4 * (i mod 2) + k < 8" using that by (cases "even i") (auto simp: mod_2_eq_odd)
    have d: "(i * 4 + k) div 8 = i div 2" unfolding e using s by simp
    have m: "(i * 4 + k) mod 8 = 4 * (i mod 2) + k" unfolding e using s by simp
    have l: "i * 4 + k < 32" "i div 2 < 4" using that assms(2) by auto
    show ?thesis using l assms(1) unfolding bit_from_le d m by simp
  qed
  then show "bit (ucast (drop_bit (i * 4) (from_le bs :: u32) AND 0xf) :: u8) k
    = bit (take_bit 4 (drop_bit (4 * (i mod 2)) (bs ! (i div 2)))) k"
    unfolding bit_nibble [OF k] bit_take_bit_iff bit_drop_bit_eq comp_apply by blast
qed

lemma nibble_low: "x < 16 \<Longrightarrow> take_bit 4 (x OR push_bit 4 y :: u8) = x"
  using take_bit_less [of x 4] by (simp add: take_bit_or take_bit_push_bit)

lemma nibble_high: "x < 16 \<Longrightarrow> y < 16 \<Longrightarrow> take_bit 4 (drop_bit 4 (x OR push_bit 4 y :: u8)) = y"
proof -
  assume x: "x < 16" and y: "y < 16"
  then have "take_bit 4 x = x" "take_bit 4 y = y" using take_bit_less [of x 4] take_bit_less [of y 4] by simp_all
  then have "bit x k \<Longrightarrow> k < 4" "bit y k \<Longrightarrow> k < 4" for k by (metis bit_take_bit_iff)+
  then show ?thesis by (intro bit_word_eqI) (auto simp: bit_simps)
qed

lemma io_driver_roundtrip:
  assumes "length s = 8" "list_all (\<lambda>x. x < 16) s"
  shows "decode_io_driver (from_le (io_driver_bytes s)) = s"
proof -
  obtain a b c d e f g h where s: "s = [a, b, c, d, e, f, g, h]"
    using assms(1) by (auto simp: length_Suc_conv numeral_eq_Suc)
  have l: "length (io_driver_bytes s) = 4" by (simp add: io_driver_bytes_def)
  have "decode_io_driver (from_le (io_driver_bytes s)) =
     map (\<lambda>i. take_bit 4 (drop_bit (4 * (i mod 2)) (io_driver_bytes s ! (i div 2)))) [0..<8]"
    unfolding decode_io_driver_def by (rule map_cong [OF refl]) (simp add: nibble_of_from_le [OF l])
  also have "[0..<8] = [0, 1, 2, 3, 4, 5, 6, 7::nat]" by (simp add: upt_rec)
  finally show ?thesis using assms(2)
    unfolding s io_driver_bytes_def by (simp add: nibble_low nibble_high del: take_bit_or drop_bit_or)
qed

lemma version_mask_rt: "decode_version_mask (from_le (version_mask_bytes m)) = m"
proof -
  have "length (version_mask_bytes m) = 4" by (simp add: version_mask_bytes_def)
  have "ucast (from_le (to_le 2 c @ to_le 2 k) AND (0xffff :: u32)) = (c :: u16)"
    "ucast (drop_bit 16 (from_le (to_le 2 c @ to_le 2 k) :: u32)) = (k :: u16)" for c k :: u16
  proof -
    show "ucast (from_le (to_le 2 c @ to_le 2 k) AND (0xffff :: u32)) = (c :: u16)"
    proof (rule bit_word_eqI)
      fix j assume "j < LENGTH(16)"
      then have j: "j < 16" "j div 8 < 2" "j div 8 < 4" by auto
      then show "bit (ucast (from_le (to_le 2 c @ to_le 2 k) AND (0xffff :: u32)) :: u16) j = bit c j"
        using j(1) by (simp add: j(2,3) mask_consts bit_simps bit_from_le nth_append)
    qed
    show "ucast (drop_bit 16 (from_le (to_le 2 c @ to_le 2 k) :: u32)) = (k :: u16)"
    proof (rule bit_word_eqI)
      fix j assume "j < LENGTH(16)"
      then have j: "j < 16" by simp
      then have d: "(16 + j) div 8 = Suc (Suc (j div 8))" "j div 8 < 2" "j div 8 < 4" by auto
      have m: "(16 + j) mod 8 = j mod 8" by presburger
      show "bit (ucast (drop_bit 16 (from_le (to_le 2 c @ to_le 2 k) :: u32)) :: u16) j = bit k j"
        using j by (simp add: d m bit_simps bit_from_le nth_append)
    qed
  qed
  then show ?thesis by (simp add: decode_version_mask_def version_mask_bytes_def)
qed

text \<open>The registers a chip's answer gives back as they were written.\<close>

definition readback_exact :: "register \<Rightarrow> bool" where
  "readback_exact r = (case r of
     ChipId t n a \<Rightarrow> (case t of UnknownChip x y \<Rightarrow> chip_type_from x y = t | _ \<Rightarrow> True)
   | TicketMask z \<Rightarrow> z < 32
   | UartBaud b \<Rightarrow> (case b of Baud1M \<Rightarrow> False | CustomBaud v \<Rightarrow> v \<notin> {0x271, 0x130, 0x3001} | _ \<Rightarrow> True)
   | Core v \<Rightarrow> to_be 4 v = to_le 4 v
   | IoDriverStrength s \<Rightarrow> list_all (\<lambda>x. x < 16) s
   | _ \<Rightarrow> True)"

lemma register_data_roundtrip:
  assumes "wf_register r" "readback_exact r"
  shows "\<exists>bs. encode_data r = Some bs \<and> length bs = 4 \<and> register_decode (address_of r) bs = r"
proof (cases r)
  case (ChipId t n a)
  then show ?thesis using assms by (cases t) (auto simp: readback_exact_def chip_type_from_def)
next
  case (PllDivider c)
  then show ?thesis using pll_rt [of c] by (simp add: pll_bytes_def)
next
  case (TicketMask z)
  then have z: "z < 32" using assms by (simp add: readback_exact_def)
  then obtain bs where "ticket_mask_bytes z = Some bs"
    by (cases "z = 0") (auto simp: ticket_mask_bytes_pos, simp add: ticket_mask_bytes_def)
  then show ?thesis using zero_bits_roundtrip [OF z] TicketMask by auto
next
  case (UartBaud b)
  then show ?thesis using assms
    by (cases b) (auto simp: readback_exact_def baud_bytes_def decode_baud_def from_le_to_le)
next
  case (IoDriverStrength s)
  then show ?thesis using assms io_driver_roundtrip [of s]
    by (auto simp: readback_exact_def io_driver_bytes_def)
next
  case (VersionMask m)
  then show ?thesis using version_mask_rt [of m] by (simp add: version_mask_bytes_def)
qed (use assms in \<open>auto simp: readback_exact_def from_le_to_le\<close>)

text \<open>For every address the readable registers are a four-byte codec.\<close>

interpretation reg_codec: wire_codec encode_data "\<lambda>bs. Some (register_decode a bs)"
  "\<lambda>r. wf_register r \<and> readback_exact r \<and> address_of r = a" 4 for a
proof unfold_locales
  fix r assume "wf_register r \<and> readback_exact r \<and> address_of r = a"
  with register_data_roundtrip [of r] show "\<exists>bs. encode_data r = Some bs" by auto
next
  fix r bs assume "wf_register r \<and> readback_exact r \<and> address_of r = a" "encode_data r = Some bs"
  with register_data_roundtrip [of r] show "length bs = 4" "Some (register_decode a bs) = Some r"
    by auto
qed

lemma not_readback:
  assumes "encode_data r = Some bs" "register_decode (address_of r) bs = r"
  shows "readback_exact r"
proof (cases r)
  case (ChipId t n a)
  with assms show ?thesis by (cases t) (auto simp: readback_exact_def)
next
  case (TicketMask z)
  with assms show ?thesis
    by (cases "z = 0") (auto simp: readback_exact_def ticket_mask_bytes_pos split: if_splits)
next
  case (UartBaud b)
  with assms show ?thesis
    by (cases b) (auto simp: readback_exact_def baud_bytes_def decode_baud_def from_le_to_le split: if_splits)
next
  case (Core v)
  with assms have "from_le (to_be 4 v) = v" by auto
  then have "to_le 4 (from_le (to_be 4 v) :: u32) = to_le 4 v" by simp
  then show ?thesis using Core by (simp add: readback_exact_def to_le_from_le)
next
  case (IoDriverStrength s)
  with assms have "s = decode_io_driver (from_le bs)" by auto
  moreover have "ucast (x AND 0xf) < (16 :: u8)" for x :: u32
  proof -
    have "(ucast (x AND 0xf) :: u8) = ucast x AND mask 4"
      by (rule bit_word_eqI) (auto simp: mask_consts bit_simps)
    then show ?thesis using and_mask_less_size [of 4 "ucast x :: u8"] by (simp add: word_size)
  qed
  ultimately have "list_all (\<lambda>x. x < 16) s"
    by (auto simp: decode_io_driver_def list_all_iff)
  then show ?thesis using IoDriverStrength by (simp add: readback_exact_def)
qed (simp_all add: readback_exact_def)

section \<open>Properties\<close>

text \<open>
  Reading a register back. For a register value of the source's type, the four data
  bytes of a write decode, at the register's own address, to the same value exactly when
  \<open>readback_exact\<close> holds: unknown chip ids that are not the code of a known chip, ticket
  masks below 32 bits, driver strengths of four bits. The exceptions are real: \<open>Baud1M\<close> is
  written as 0x00023011 but recognised as 0x00000130, and the core register is written
  big-endian but read little-endian.
\<close>

theorem register_readback:
  assumes "wf_register r"
  shows "(\<exists>bs. encode_data r = Some bs \<and> length bs = 4 \<and> register_decode (address_of r) bs = r)
    \<longleftrightarrow> readback_exact r"
  using register_data_roundtrip [OF assms] not_readback by blast

theorem register_readback_witness:
  "wf_register (UartBaud Baud1M) \<and>
   (\<nexists>bs. encode_data (UartBaud Baud1M) = Some bs \<and> length bs = 4 \<and>
      register_decode AddrUartBaud bs = UartBaud Baud1M) \<and>
   (\<exists>bs. encode_data (IoDriverStrength io_driver_normal) = Some bs \<and> length bs = 4 \<and>
      register_decode AddrIoDriverStrength bs = IoDriverStrength io_driver_normal)"
  using register_readback [of "UartBaud Baud1M"]
    register_readback [of "IoDriverStrength io_driver_normal"]
  by (simp add: readback_exact_def io_driver_normal_def)

text \<open>
  C2: The ticket mask on the wire. A mask of \<open>z\<close> zero bits is the number \<open>2 ^ z - 1\<close>,
  big-endian with the bits of every byte reversed; it is produced exactly for \<open>z < 32\<close>
  (the shift panics from 32 on) and the decoder recovers the number.
\<close>

theorem ticket_mask_wire:
  "ticket_mask_bytes z =
    (if z < 32 then Some (map reverse_bits (to_be 4 (mask (unat z) :: u32))) else None) \<and>
   decode_ticket_mask_bytes (map reverse_bits (to_be 4 (mask (unat z) :: u32))) = mask (unat z)"
proof -
  have "decode_ticket_mask_bytes (map reverse_bits (to_be 4 w)) = from_le (to_le 4 w)" for w :: u32
    unfolding to_be_4 list.map decode_ticket_mask_bytes_eq to_le_4
    by (simp only: list.map reverse_bits_twice)
  then have "decode_ticket_mask_bytes (map reverse_bits (to_be 4 w)) = w" for w :: u32
    by (simp add: from_le_to_le)
  moreover have "ticket_mask_bytes 0 = Some (map reverse_bits (to_be 4 (mask (unat (0 :: u8)) :: u32)))"
    by code_simp
  ultimately show ?thesis by (cases "z = 0") (simp_all add: ticket_mask_bytes_pos)
qed

text \<open>
  The PLL search is optimal. Whatever the rounding, if some divider triple is
  acceptable (feedback divider in range, error below one megahertz) the result is the
  configuration of an acceptable triple that no acceptable triple beats; otherwise it is the
  default configuration.
\<close>

theorem pll_best_config:
  assumes "f32_sane F"
  shows "if \<exists>c \<in> set pll_candidates. acceptable F mhz c
    then \<exists>c \<in> set pll_candidates. acceptable F mhz c \<and> calculate_pll F mhz = pll_of F mhz c \<and>
      (\<forall>c' \<in> set pll_candidates. acceptable F mhz c' \<longrightarrow>
         \<not> f32_lt F (pll_error F mhz c') (pll_error F mhz c))
    else calculate_pll F mhz = pll_new F 0xa0 2 0x55"
  using pll_search_best [OF assms, where t = mhz and d = "pll_new F 0xa0 2 0x55" and cs = pll_candidates]
  unfolding calculate_pll_def by (auto split: prod.splits if_splits)

theorem pll_best_config_witness:
  "f32_sane rat_ops \<and> acceptable rat_ops 500 (2, 5, 1) \<and>
   (\<exists>c \<in> set pll_candidates. acceptable rat_ops 500 c \<and>
      calculate_pll rat_ops 500 = pll_of rat_ops 500 c \<and>
      \<not> f32_lt rat_ops (pll_error rat_ops 500 (2, 5, 1)) (pll_error rat_ops 500 c))"
proof -
  have c: "(2, 5, 1) \<in> set pll_candidates" by (simp add: pll_candidates_def)
  have a: "acceptable rat_ops 500 (2, 5, 1)" by code_simp
  from pll_best_config [OF rat_ops_sane, where mhz = 500] c a show ?thesis
    using rat_ops_sane by (auto simp del: fb_div_for.simps pll_error.simps split: if_splits)
qed

text \<open>
  Every configuration the search returns, for any arithmetic and any target, is one the
  hardware format allows: feedback divider in 0xa0..0xef, reference divider and post dividers
  of the search, VCO flag 0x40 or 0x50.
\<close>

theorem calculate_pll_shape: "pll_shape (calculate_pll F mhz)"
  unfolding calculate_pll_def
  by (rule foldl_inv [where I = "\<lambda>acc. pll_shape (fst acc)"])
     (use pll_new_shape [OF default_candidate, of "0xa0" F] pll_step_shape in \<open>auto simp: default_code\<close>)

end
