(* ===== verification/Version_Template.thy ===== *)
theory Version_Template
  imports Prelude
begin

text \<open>
  Version rolling (BIP320), from \<open>mujina-miner/src/job_source/version.rs\<close>: the sixteen
  general purpose bits at positions 13 to 28 of the block version, their mask, and the
  version template that validates a base version and the bits applied to it. The consensus
  value of a version (\<open>i32\<close>) is kept as its 32-bit pattern.
\<close>

section \<open>General purpose bits\<close>

text \<open>\<open>GeneralPurposeBits([u8; 2])\<close>: the high and the low byte.\<close>

type_synonym gp_bits = "u8 \<times> u8"

definition gp_new :: "u8 \<times> u8 \<Rightarrow> gp_bits" where
  "gp_new bytes = bytes"

definition gp_full :: gp_bits where
  "gp_full = (0xff, 0xff)"

definition gp_none :: gp_bits where
  "gp_none = (0x00, 0x00)"


text \<open>\<open>u16::from_be_bytes\<close> of the pair.\<close>

definition gp_u16 :: "gp_bits \<Rightarrow> u16" where
  "gp_u16 g = from_be [fst g, snd g]"

definition apply_to_version :: "gp_bits \<Rightarrow> u32 \<Rightarrow> u32" where
  "apply_to_version g base_version = base_version OR push_bit 13 (ucast (gp_u16 g))"

text \<open>\<open>From<&[u8; 4]>\<close>: the bits of a version mask as the pool sends it.\<close>

definition gp_from_mask_bytes :: "u8 list \<Rightarrow> gp_bits" where
  "gp_from_mask_bytes mask_bytes =
    (let msk = from_be mask_bytes :: u32;
         bits = ucast (drop_bit 13 msk) :: u16;
         bytes = to_be 2 bits
     in (bytes ! 0, bytes ! 1))"

section \<open>The version template\<close>

datatype version_template_error =
  BaseHasGeneralPurposeBits u32 "u8 \<times> u8"
  | GpBitsExceedMask gp_bits gp_bits

record version_template =
  vt_base :: u32
  vt_gp_bits_mask :: gp_bits

definition version_template_new ::
  "u32 \<Rightarrow> gp_bits \<Rightarrow> version_template_error + version_template" where
  "version_template_new base msk =
    (let gp_region = drop_bit 13 base AND 0xffff in
     if gp_region \<noteq> 0
     then Inl (BaseHasGeneralPurposeBits base (ucast (drop_bit 8 gp_region), ucast gp_region))
     else Inr \<lparr>vt_base = base, vt_gp_bits_mask = msk\<rparr>)"


section \<open>Lemmas\<close>

lemma to_be_2: "to_be 2 w = [ucast (drop_bit 8 w), ucast w]"
  by (simp add: to_be_def to_le_def upt_rec)

lemma gp_of_u16: "gp_u16 ((to_be 2 w) ! 0, (to_be 2 w) ! 1) = w"
proof -
  have "[to_be 2 w ! 0, to_be 2 w ! 1] = to_be 2 w" by (simp add: to_be_2)
  then show ?thesis by (simp add: gp_u16_def from_be_to_be)
qed


lemma gp_u16_inject: "gp_u16 g = gp_u16 h \<Longrightarrow> g = h"
proof -
  assume e: "gp_u16 g = gp_u16 h"
  have "to_be 2 (from_be [a, b] :: u16) = [a, b]" for a b by (rule to_be_from_be) simp_all
  with e have "[fst g, snd g] = [fst h, snd h]" unfolding gp_u16_def by metis
  then show "g = h" by (simp add: prod_eq_iff)
qed


definition gp_region :: "u32 \<Rightarrow> u16" where
  "gp_region v = ucast (drop_bit 13 v)"

lemma bit_apply_to_version:
  "bit (apply_to_version g b) k \<longleftrightarrow> bit b k \<or> 13 \<le> k \<and> k < 29 \<and> bit (gp_u16 g) (k - 13)"
  by (auto simp: apply_to_version_def bit_simps dest: bit_imp_le_length)

lemma version_template_new_ok:
  "version_template_new b m = Inr t \<longleftrightarrow>
    gp_region b = 0 \<and> t = \<lparr>vt_base = b, vt_gp_bits_mask = m\<rparr>"
proof -
  have lt: "n < 16 \<Longrightarrow> n < 32" for n :: nat by simp
  have "drop_bit 13 b AND 0xffff = 0 \<longleftrightarrow> gp_region b = 0"
    unfolding gp_region_def mask_consts
    by (auto simp: bit_eq_iff bit_simps) (blast dest: lt)
  then show ?thesis by (auto simp: version_template_new_def Let_def)
qed

lemma gp_region_apply: "gp_region b = 0 \<Longrightarrow> gp_region (apply_to_version g b) = gp_u16 g"
proof (rule bit_word_eqI)
  fix k assume z: "gp_region b = 0" and "k < LENGTH(16)"
  then have k: "k < 16" by simp
  have "\<not> bit b (13 + k)" using arg_cong [OF z, of "\<lambda>w. bit w k"] k
    by (auto simp: gp_region_def bit_simps)
  with k show "bit (gp_region (apply_to_version g b)) k = bit (gp_u16 g) k"
    by (auto simp: gp_region_def bit_ucast_iff bit_drop_bit_eq bit_apply_to_version)
qed

section \<open>Properties\<close>



text \<open>
  The mask a pool sends and the bits rolled under it use the same positions: the general
  purpose bits read from a four-byte big-endian version are exactly bits 13 to 28 of it, so
  reading the rolled version of an accepted template gives back the applied bits.
\<close>

theorem gp_bits_roundtrip:
  assumes "version_template_new base msk = Inr t"
  shows "gp_from_mask_bytes (to_be 4 (apply_to_version g (vt_base t))) = g"
proof (rule gp_u16_inject)
  have "gp_u16 (gp_from_mask_bytes (to_be 4 v)) = gp_region v" for v :: u32
    using gp_of_u16 [of "gp_region v"] by (simp add: gp_from_mask_bytes_def Let_def from_be_to_be gp_region_def)
  then show "gp_u16 (gp_from_mask_bytes (to_be 4 (apply_to_version g (vt_base t)))) = gp_u16 g"
    using assms by (auto simp: version_template_new_ok gp_region_apply)
qed

theorem gp_bits_roundtrip_witness:
  "gp_from_mask_bytes (to_be 4 (apply_to_version (0x05, 0xa2) 0x20000000)) = (0x05, 0xa2)"
proof -
  have "version_template_new 0x20000000 (0xff, 0xff) = Inr \<lparr>vt_base = 0x20000000, vt_gp_bits_mask = (0xff, 0xff)\<rparr>"
    by code_simp
  from gp_bits_roundtrip [OF this, of "(0x05, 0xa2)"] show ?thesis by simp
qed

end
