(* ===== verification/Frames.thy ===== *)
theory Frames
  imports Registers Version_Template
begin

text \<open>
  Commands, responses and the frame codec of the BM13xx serial protocol
  (\<open>mujina-miner/src/asic/bm13xx/protocol.rs\<close>), and the command sequences of
  \<open>BM13xxProtocol\<close>. The two checksums come from the \<open>crc_all\<close> crate, configured in
  \<open>crc.rs\<close>: they are the arguments \<open>crc5\<close> and \<open>crc16\<close> of the codec. Buffers are byte
  lists; an encoder appends to the buffer it is given, as \<open>BytesMut\<close> does.
\<close>

section \<open>Hash byte order\<close>

text \<open>Destination word \<open>7 - i\<close> is source word \<open>i\<close>.\<close>

definition hash_to_wire_bytes :: "u8 list \<Rightarrow> u8 list" where
  "hash_to_wire_bytes hash = concat (map (\<lambda>j. take 4 (drop ((7 - j) * 4) hash)) [0..<8])"

definition hash_from_wire_bytes :: "u8 list \<Rightarrow> u8 list" where
  "hash_from_wire_bytes wire = concat (map (\<lambda>j. take 4 (drop ((7 - j) * 4) wire)) [0..<8])"

section \<open>Commands\<close>

record job_full_format =
  jf_job_id :: u8
  jf_num_midstates :: u8
  jf_starting_nonce :: u32
  jf_nbits :: u32
  jf_ntime :: u32
  jf_merkle_root :: "u8 list"
  jf_prev_block_hash :: "u8 list"
  jf_version :: u32

record job_midstate_format =
  jm_job_id :: u8
  jm_num_midstates :: u8
  jm_starting_nonce :: "u8 list"
  jm_nbits :: "u8 list"
  jm_ntime :: "u8 list"
  jm_merkle4 :: "u8 list"
  jm_midstate0 :: "u8 list"
  jm_midstate1 :: "u8 list option"
  jm_midstate2 :: "u8 list option"
  jm_midstate3 :: "u8 list option"

datatype command =
  SetChipAddress u8
  | ChainInactive
  | ReadRegister bool u8 register_address
  | WriteRegister bool u8 register
  | JobFull job_full_format
  | JobMidstate job_midstate_format

datatype command_flags_type = FlagJob | FlagCommand

primrec command_flags_type_repr :: "command_flags_type \<Rightarrow> u8" where
  "command_flags_type_repr FlagJob = 1"
| "command_flags_type_repr FlagCommand = 2"

datatype command_flags_cmd = CmdSetChipAddress | CmdWriteRegisterOrJob | CmdReadRegister | CmdChainInactive

primrec command_flags_cmd_repr :: "command_flags_cmd \<Rightarrow> u8" where
  "command_flags_cmd_repr CmdSetChipAddress = 0"
| "command_flags_cmd_repr CmdWriteRegisterOrJob = 1"
| "command_flags_cmd_repr CmdReadRegister = 2"
| "command_flags_cmd_repr CmdChainInactive = 3"

text \<open>Type in bits 5 and 6, broadcast in bit 4, command in bits 0 to 3.\<close>

definition build_flags :: "command_flags_type \<Rightarrow> bool \<Rightarrow> command_flags_cmd \<Rightarrow> u8" where
  "build_flags typ broadcast cmd =
    push_bit 5 (command_flags_type_repr typ AND mask 2)
      OR push_bit 4 (of_bool broadcast) OR (command_flags_cmd_repr cmd AND mask 4)"

definition job_full_payload :: "job_full_format \<Rightarrow> u8 list option" where
  "job_full_payload j =
    (if jf_job_id j \<le> 15 then
       Some ([push_bit 3 (jf_job_id j), jf_num_midstates j]
         @ to_le 4 (jf_starting_nonce j) @ to_le 4 (jf_nbits j) @ to_le 4 (jf_ntime j)
         @ hash_to_wire_bytes (jf_merkle_root j) @ hash_to_wire_bytes (jf_prev_block_hash j)
         @ to_le 4 (jf_version j))
     else None)"

definition opt_bytes :: "u8 list option \<Rightarrow> u8 list" where
  "opt_bytes m = (case m of None \<Rightarrow> [] | Some b \<Rightarrow> b)"

text \<open>The length byte is computed with checked \<open>u8\<close> arithmetic.\<close>

definition job_midstate_total_len :: "u8 \<Rightarrow> u8 option" where
  "job_midstate_total_len n =
    Option.bind (mul_chk n 32) (\<lambda>m. Option.bind (add_chk 18 m) (\<lambda>data_len.
      Option.bind (add_chk (1 + 1) data_len) (\<lambda>t. add_chk t 2)))"

definition job_midstate_payload :: "job_midstate_format \<Rightarrow> u8 list option" where
  "job_midstate_payload j =
    (if jm_job_id j \<le> 15 then
       Some ([push_bit 3 (jm_job_id j), jm_num_midstates j]
         @ jm_starting_nonce j @ jm_nbits j @ jm_ntime j @ jm_merkle4 j
         @ jm_midstate0 j @ opt_bytes (jm_midstate1 j) @ opt_bytes (jm_midstate2 j)
         @ opt_bytes (jm_midstate3 j))
     else None)"

text \<open>\<open>Command::encode\<close>: flags, length byte, payload. \<open>None\<close> where a debug build panics.\<close>

fun command_encode :: "command \<Rightarrow> u8 list option" where
  "command_encode (SetChipAddress a) =
     Some [build_flags FlagCommand False CmdSetChipAddress, 5, a, 0]"
| "command_encode ChainInactive =
     Some [build_flags FlagCommand True CmdChainInactive, 5, 0, 0]"
| "command_encode (ReadRegister broadcast a reg) =
     Some [build_flags FlagCommand broadcast CmdReadRegister, 5, a, register_address_repr reg]"
| "command_encode (WriteRegister broadcast a reg) =
     map_option (\<lambda>dat.
       [build_flags FlagCommand broadcast CmdWriteRegisterOrJob, 9, a,
        register_address_repr (address_of reg)] @ dat) (encode_data reg)"
| "command_encode (JobFull j) =
     map_option (\<lambda>dat. [build_flags FlagJob False CmdWriteRegisterOrJob, 86] @ dat)
       (job_full_payload j)"
| "command_encode (JobMidstate j) =
     Option.bind (job_midstate_total_len (jm_num_midstates j)) (\<lambda>total_len.
       map_option (\<lambda>dat. [build_flags FlagJob False CmdWriteRegisterOrJob, total_len] @ dat)
         (job_midstate_payload j))"

fun is_job :: "command \<Rightarrow> bool" where
  "is_job (JobFull _) = True"
| "is_job (JobMidstate _) = True"
| "is_job _ = False"

text \<open>
  \<open>FrameCodec::encode\<close> appends to \<open>dst\<close>. The job checksum covers \<open>dst[start_pos..]\<close>, the
  other one \<open>dst[2..]\<close>, both exactly as the source slices the buffer.
\<close>

definition frame_encode ::
  "(u8 list \<Rightarrow> u8) \<Rightarrow> (u8 list \<Rightarrow> u16) \<Rightarrow> command \<Rightarrow> u8 list \<Rightarrow> u8 list option" where
  "frame_encode crc5 crc16 cmd dst =
    (let dst1 = dst @ [0x55, 0xaa]; start_pos = length dst1 in
     map_option (\<lambda>body.
       let dst2 = dst1 @ body in
       if is_job cmd then dst2 @ to_be 2 (crc16 (drop start_pos dst2))
       else dst2 @ [crc5 (drop 2 dst2)]) (command_encode cmd))"

section \<open>Responses\<close>

datatype response_type = RespReadRegister | RespNonce

definition response_type_from_repr :: "u8 \<Rightarrow> response_type option" where
  "response_type_from_repr b =
    (if b = 0 then Some RespReadRegister else if b = 4 then Some RespNonce else None)"

datatype response =
  RegisterResponse u8 register
  | NonceResponse u32 u8 u8 gp_bits u8 \<comment> \<open>nonce, job id, midstate number, version, subcore\<close>

text \<open>
  \<open>Response::decode\<close> on the nine bytes after the preamble; the type is the top three bits of
  the last byte.
\<close>

definition response_decode :: "u8 list \<Rightarrow> protocol_error + response" where
  "response_decode bytes =
    (let type_repr = drop_bit 5 (bytes ! (length bytes - 1)) in
     case response_type_from_repr type_repr of
       Some RespReadRegister \<Rightarrow>
         (let val = take 4 bytes; chip_address = bytes ! 4; repr = bytes ! 5 in
          case register_address_from_repr repr of
            Some a \<Rightarrow> Inr (RegisterResponse chip_address (register_decode a val))
          | None \<Rightarrow> Inl (InvalidRegisterAddress repr))
     | Some RespNonce \<Rightarrow>
         (let nonce = from_le (take 4 bytes); midstate_num = bytes ! 4;
              result_header = bytes ! 5; version = (bytes ! 6, bytes ! 7);
              job_id = drop_bit 4 result_header AND 0x0f;
              subcore_id = result_header AND 0x0f
          in Inr (NonceResponse nonce job_id midstate_num version subcore_id))
     | None \<Rightarrow> Inl (InvalidResponseType type_repr))"

definition crc5_is_valid :: "(u8 list \<Rightarrow> u8) \<Rightarrow> u8 list \<Rightarrow> bool" where
  "crc5_is_valid crc5 dat \<longleftrightarrow> crc5 dat = 0"

text \<open>\<open>FrameCodec::decode\<close> never fails; it returns what is left of the buffer.\<close>

definition frame_decode :: "(u8 list \<Rightarrow> u8) \<Rightarrow> u8 list \<Rightarrow> response option \<times> u8 list" where
  "frame_decode crc5 src =
    (if length src < 11 then (None, src)
     else if src ! 0 \<noteq> 0xaa then (None, drop 1 src)
     else if src ! 1 \<noteq> 0x55 then (None, drop 1 src)
     else if \<not> crc5_is_valid crc5 (take 9 (drop 2 src)) then (None, drop 1 src)
     else (case response_decode (take 9 (drop 2 src)) of
             Inr r \<Rightarrow> (Some r, drop 11 src)
           | Inl e \<Rightarrow> (None, drop 1 src)))"

section \<open>Command sequences\<close>

definition broadcast_write :: "register \<Rightarrow> command" where
  "broadcast_write r = WriteRegister True 0x00 r"

definition write_to :: "u8 \<Rightarrow> register \<Rightarrow> command" where
  "write_to chip_address r = WriteRegister False chip_address r"

definition single_chip_init :: "('f, 'm) f32_ops_scheme \<Rightarrow> 'f \<Rightarrow> command list" where
  "single_chip_init F frequency =
    [broadcast_write (VersionMask version_mask_full_rolling),
     broadcast_write (PllDivider (calculate_pll F frequency))]"

definition configure_nonce_ranges :: "nat \<Rightarrow> command list" where
  "configure_nonce_ranges chain_length =
    [broadcast_write (NonceRange (nonce_range_multi_chip chain_length))]"

text \<open>\<open>(i as u8) * ADDRESS_INCREMENT\<close>: the cast truncates, the product is checked.\<close>

definition chip_address_of :: "nat \<Rightarrow> u8 option" where
  "chip_address_of i = mul_chk (word_of_nat i) 2"

text \<open>The exponent of difficulty 256 is an argument: its conversion goes through \<open>f64\<close>.\<close>

definition multi_chip_init :: "u8 \<Rightarrow> nat \<Rightarrow> command list option" where
  "multi_chip_init log2_diff_256 chain_length =
    map_option (\<lambda>addressing.
      [broadcast_write (VersionMask version_mask_full_rolling),
       broadcast_write (InitControl 0x00000700),
       broadcast_write (MiscControl 0x0000c1f0),
       ChainInactive]
      @ addressing
      @ [broadcast_write (Core 0x00008b80),
         broadcast_write (Core 0x0c800080),
         broadcast_write (TicketMask log2_diff_256),
         broadcast_write (IoDriverStrength io_driver_normal)]
      @ configure_nonce_ranges chain_length)
    (traverse (\<lambda>i. map_option SetChipAddress (chip_address_of i)) [0..<chain_length])"

text \<open>
  \<open>configure_domains\<close>: \<open>None\<close> for zero chips per domain (\<open>div_ceil\<close> divides by it) and
  where a chip address overflows.
\<close>

definition domain_last_chip :: "nat \<Rightarrow> nat \<Rightarrow> nat \<Rightarrow> nat" where
  "domain_last_chip chain_length chips_per_domain domain =
    min ((domain + 1) * chips_per_domain - 1) (chain_length - 1)"

definition domain_relay_commands :: "nat \<Rightarrow> nat \<Rightarrow> nat \<Rightarrow> command list option" where
  "domain_relay_commands chain_length chips_per_domain domain =
    (let first_chip = domain * chips_per_domain;
         last_chip = domain_last_chip chain_length chips_per_domain domain;
         relay = UartRelay (0x03000000 OR push_bit 8 (word_of_nat (domain * chips_per_domain)))
     in Option.bind (chip_address_of first_chip) (\<lambda>first_address.
          if first_chip \<noteq> last_chip then
            map_option (\<lambda>last_address. [write_to first_address relay, write_to last_address relay])
              (chip_address_of last_chip)
          else Some [write_to first_address relay]))"

definition configure_domains :: "nat \<Rightarrow> nat \<Rightarrow> command list option" where
  "configure_domains chain_length chips_per_domain =
    (if chips_per_domain = 0 then None
     else
       let num_domains = (chain_length + chips_per_domain - 1) div chips_per_domain in
       Option.bind
         (traverse (\<lambda>domain. map_option
             (\<lambda>a. write_to a (IoDriverStrength io_driver_domain_boundary))
             (chip_address_of (domain_last_chip chain_length chips_per_domain domain)))
           [0..<num_domains])
         (\<lambda>drivers. map_option (\<lambda>relays. drivers @ concat relays)
           (traverse (domain_relay_commands chain_length chips_per_domain) [0..<num_domains])))"

definition read_register :: "u8 \<Rightarrow> register_address \<Rightarrow> command" where
  "read_register chip_address reg = ReadRegister False chip_address reg"

definition set_baudrate :: "baud_rate \<Rightarrow> command" where
  "set_baudrate b = WriteRegister True 0x00 (UartBaud b)"

definition discover_chips :: command where
  "discover_chips = ReadRegister True 0 AddrChipId"

definition write_register :: "u8 \<Rightarrow> register_address \<Rightarrow> u32 \<Rightarrow> protocol_error + command" where
  "write_register chip_address reg v =
    (let ok = (\<lambda>r. Inr (WriteRegister False chip_address r)) in
     case reg of
       AddrChipId \<Rightarrow> Inl (ReadOnlyRegister reg)
     | AddrPllDivider \<Rightarrow> ok (PllDivider (pll_from_u32 v))
     | AddrNonceRange \<Rightarrow> ok (NonceRange (to_le 4 v))
     | AddrTicketMask \<Rightarrow> ok (TicketMask (zero_bits_of_bytes (to_le 4 v)))
     | AddrMiscControl \<Rightarrow> ok (MiscControl v)
     | AddrUartBaud \<Rightarrow> ok (UartBaud (CustomBaud v))
     | AddrUartRelay \<Rightarrow> ok (UartRelay v)
     | AddrCore \<Rightarrow> ok (Core v)
     | AddrAnalogMux \<Rightarrow> ok (AnalogMux v)
     | AddrIoDriverStrength \<Rightarrow> ok (IoDriverStrength (decode_io_driver v))
     | AddrPll3Parameter \<Rightarrow> ok (Pll3Parameter v)
     | AddrVersionMask \<Rightarrow> ok (VersionMask (decode_version_mask v))
     | AddrInitControl \<Rightarrow> ok (InitControl v)
     | AddrMiscSettings \<Rightarrow> ok (MiscSettings v))"

section \<open>Hash byte order is an involution\<close>

lemma list32_words:
  assumes "length xs = 32"
  shows "concat (map (\<lambda>j. take 4 (drop (j * 4) xs)) [0..<8]) = xs"
proof -
  have "concat (map (\<lambda>j. take 4 (drop (j * 4) xs)) [0..<n]) = take (4 * n) xs" for n
  proof (induction n)
    case (Suc n)
    have "take (4 * n + 4) xs = take (4 * n) xs @ take 4 (drop (4 * n) xs)" by (rule take_add)
    with Suc show ?case by (simp add: mult.commute add.commute)
  qed simp
  from this [of 8] show ?thesis using assms by simp
qed

lemma upt8: "[0..<8] = [0, 1, 2, 3, 4, 5, 6, 7::nat]"
  by (simp add: upt_rec)

lemma hash_wire_roundtrip:
  assumes "length h = 32"
  shows "hash_from_wire_bytes (hash_to_wire_bytes h) = h"
    and "length (hash_to_wire_bytes h) = 32"
proof -
  show "length (hash_to_wire_bytes h) = 32"
    using assms by (simp add: hash_to_wire_bytes_def upt8)
  have "hash_from_wire_bytes (hash_to_wire_bytes h)
      = concat (map (\<lambda>j. take 4 (drop (j * 4) h)) [0..<8])"
    using assms by (simp add: hash_from_wire_bytes_def hash_to_wire_bytes_def upt8)
  then show "hash_from_wire_bytes (hash_to_wire_bytes h) = h"
    using list32_words [OF assms] by simp
qed

interpretation hash_wire: wire_codec "\<lambda>h. Some (hash_to_wire_bytes h)"
  "\<lambda>bs. Some (hash_from_wire_bytes bs)" "\<lambda>h. length h = 32" 32
  by unfold_locales (auto simp: hash_wire_roundtrip)

section \<open>The response decoder as a stream decoder\<close>

text \<open>Every call on eleven bytes or more consumes some of them and looks at no others.\<close>

interpretation chip_stream: frame_stream "frame_decode crc5" 11 for crc5
proof unfold_locales
  show "(0 :: nat) < 11" by simp
next
  fix buf :: "u8 list"
  show "length buf < 11 \<Longrightarrow> frame_decode crc5 buf = (None, buf)" by (simp add: frame_decode_def)
next
  fix buf r rest assume "11 \<le> length buf" "frame_decode crc5 buf = (r, rest)"
  then show "length rest < length buf"
    by (auto simp: frame_decode_def split: if_splits sum.splits)
next
  fix buf r rest more assume "11 \<le> length (buf :: u8 list)" "frame_decode crc5 buf = (r, rest)"
  then show "frame_decode crc5 (buf @ more) = (r, rest @ more)"
    by (auto simp: frame_decode_def nth_append split: if_splits sum.splits)
qed

lemma frame_decode_sound:
  "frame_decode crc5 src = (Some r, rest) \<longleftrightarrow>
    (\<exists>dat. length dat = 9 \<and> src = [0xaa, 0x55] @ dat @ rest \<and> crc5 dat = 0 \<and> response_decode dat = Inr r)"
proof
  assume "frame_decode crc5 src = (Some r, rest)"
  then have l: "11 \<le> length src" and p: "src ! 0 = 0xaa" "src ! 1 = 0x55"
    and c: "crc5 (take 9 (drop 2 src)) = 0" "response_decode (take 9 (drop 2 src)) = Inr r"
    and rest: "rest = drop 11 src"
    by (auto simp: frame_decode_def crc5_is_valid_def split: if_splits sum.splits)
  have "src = take 2 src @ take 9 (drop 2 src) @ drop 11 src"
    using append_take_drop_id [of 9 "drop 2 src"] by simp
  moreover have "take 2 src = [0xaa, 0x55]" using l p
    by (cases src; cases "tl src") (auto simp: numeral_2_eq_2)
  ultimately show "\<exists>dat. length dat = 9 \<and> src = [0xaa, 0x55] @ dat @ rest \<and> crc5 dat = 0 \<and> response_decode dat = Inr r"
    using c rest l by (intro exI [of _ "take 9 (drop 2 src)"]) simp
next
  assume "\<exists>dat. length dat = 9 \<and> src = [0xaa, 0x55] @ dat @ rest \<and> crc5 dat = 0 \<and> response_decode dat = Inr r"
  then show "frame_decode crc5 src = (Some r, rest)"
    by (auto simp: frame_decode_def crc5_is_valid_def)
qed

text \<open>
  \<open>feed\<close> is a reader that appends every chunk it receives to what is left of its buffer and
  calls the decoder until fewer than eleven bytes remain.
\<close>

fun feed :: "(u8 list \<Rightarrow> u8) \<Rightarrow> u8 list \<Rightarrow> u8 list list \<Rightarrow> response list \<times> u8 list" where
  "feed crc5 buf [] = ([], buf)"
| "feed crc5 buf (chunk # chunks) =
     (let (rs, out) = drain (frame_decode crc5) 11 (length (buf @ chunk)) (buf @ chunk);
          (rs', out') = feed crc5 out chunks
      in (rs @ rs', out'))"

lemma feed_drain:
  "length buf < 11 \<Longrightarrow>
    feed crc5 buf chunks = drain (frame_decode crc5) 11 (length (buf @ concat chunks)) (buf @ concat chunks)"
proof (induction chunks arbitrary: buf)
  case Nil
  then show ?case by (cases "length buf") auto
next
  case (Cons chunk chunks)
  let ?d = "drain (frame_decode crc5) 11" and ?n = "length (buf @ chunk @ concat chunks)"
  obtain rs out where o: "?d (length (buf @ chunk)) (buf @ chunk) = (rs, out)" by fastforce
  then have short: "length out < 11"
    using chip_stream.drain_rest_short [of "buf @ chunk" "length (buf @ chunk)" crc5] by simp
  have lo: "length out \<le> length (buf @ chunk)"
  proof -
    have "length (snd (?d m b)) \<le> length b" for m b
    proof (induction m arbitrary: b)
      case (Suc m)
      obtain r rest where d: "frame_decode crc5 b = (r, rest)" by fastforce
      show ?case
      proof (cases "length b < 11")
        case False
        then have "length rest < length b" using chip_stream.progress d by simp
        with Suc [of rest] False d show ?thesis by (cases "?d m rest") simp
      qed simp
    qed simp
    from this [of "length (buf @ chunk)" "buf @ chunk"] o show ?thesis by simp
  qed
  have "?d ?n (buf @ chunk) = (rs, out)"
    using o chip_stream.drain_fuel [of "buf @ chunk" ?n "length (buf @ chunk)" crc5] by simp
  moreover have "?d ?n (out @ concat chunks) = ?d (length (out @ concat chunks)) (out @ concat chunks)"
    using lo by (intro chip_stream.drain_fuel) simp_all
  ultimately have "?d ?n ((buf @ chunk) @ concat chunks) = (case ?d (length (out @ concat chunks)) (out @ concat chunks) of (rs', out') \<Rightarrow> (rs @ rs', out'))"
    using chip_stream.drain_append [of "buf @ chunk" "concat chunks" ?n crc5] by simp
  with Cons.IH [OF short] o show ?case by simp
qed

section \<open>Reference checksums\<close>

text \<open>
  Bitwise checksums with the parameters \<open>crc.rs\<close> documents (CRC-5-USB and
  CRC-16-CCITT-FALSE). They serve as concrete arguments in the witnesses; no property
  depends on them. They agree with the frames recorded in the repository's tests.
\<close>

fun crc_bits :: "'a::len word \<Rightarrow> 'a word \<Rightarrow> nat \<Rightarrow> u8 \<Rightarrow> 'a word" where
  "crc_bits poly crc 0 b = crc"
| "crc_bits poly crc (Suc n) b =
     (let top = (bit crc (LENGTH('a) - 1) \<noteq> bit b n) in
      crc_bits poly (if top then push_bit 1 crc XOR poly else push_bit 1 crc) n b)"

definition crc_usb5 :: "u8 list \<Rightarrow> u8" where
  "crc_usb5 bs = ucast (foldl (\<lambda>crc b. crc_bits 0x05 crc 8 b) (0x1f :: 5 word) bs)"

definition crc_ccitt16 :: "u8 list \<Rightarrow> u16" where
  "crc_ccitt16 bs = foldl (\<lambda>crc b. crc_bits 0x1021 crc 8 b) 0xFFFF bs"

lemma crc5_read_register: "crc_usb5 [0x52, 0x05, 0x00, 0x00] = 0x0a" by code_simp
lemma crc5_version_mask: "crc_usb5 [0x51, 0x09, 0x00, 0xa4, 0x90, 0x00, 0xff, 0xff] = 0x1c" by code_simp
lemma crc5_chip_id_response: "crc_usb5 [0x13, 0x70, 0x00, 0x00, 0x00, 0x00, 0x06] = 0" by code_simp
lemma crc5_nonce_response: "crc_usb5 [0x18, 0x00, 0xa6, 0x40, 0x02, 0x99, 0x22, 0xf9, 0x91] = 0" by code_simp

section \<open>Encoded frames\<close>

lemma frame_encode_empty:
  "frame_encode crc5 crc16 cmd [] = map_option
     (\<lambda>body. [0x55, 0xaa] @ body @ (if is_job cmd then to_be 2 (crc16 body) else [crc5 body]))
     (command_encode cmd)"
  by (cases "command_encode cmd") (auto simp: frame_encode_def Let_def)

fun wf_command :: "command \<Rightarrow> bool" where
  "wf_command (WriteRegister _ _ r) = wf_register r"
| "wf_command (JobFull j) = (length (jf_merkle_root j) = 32 \<and> length (jf_prev_block_hash j) = 32)"
| "wf_command (JobMidstate j) =
    (length (jm_starting_nonce j) = 4 \<and> length (jm_nbits j) = 4 \<and> length (jm_ntime j) = 4 \<and>
     length (jm_merkle4 j) = 4 \<and> length (jm_midstate0 j) = 32 \<and>
     (\<forall>m \<in> set [jm_midstate1 j, jm_midstate2 j, jm_midstate3 j]. pred_option (\<lambda>b. length b = 32) m))"
| "wf_command _ = True"

definition midstates_present :: "job_midstate_format \<Rightarrow> nat" where
  "midstates_present j = Suc (length (filter (\<lambda>m. m \<noteq> None) [jm_midstate1 j, jm_midstate2 j, jm_midstate3 j]))"

fun declared_midstates_ok :: "command \<Rightarrow> bool" where
  "declared_midstates_ok (JobMidstate j) = (unat (jm_num_midstates j) = midstates_present j)"
| "declared_midstates_ok _ = True"

lemma encode_data_length: "wf_register r \<Longrightarrow> encode_data r = Some bs \<Longrightarrow> length bs = 4"
proof (cases r)
  case (ChipId t n a) assume "encode_data r = Some bs" with ChipId show ?thesis by (cases t) auto
next
  case (TicketMask z) assume "encode_data r = Some bs" with TicketMask show ?thesis
    by (auto simp: ticket_mask_bytes_def Let_def split: if_splits)
qed (auto simp: pll_bytes_def baud_bytes_def io_driver_bytes_def version_mask_bytes_def)


lemma job_midstate_total_len_eq:
  "job_midstate_total_len n = (if unat n \<le> 7 then Some (22 + 32 * n) else None)"
proof (cases "unat n \<le> 7")
  case True
  moreover define k where "k = unat n"
  ultimately have n: "n = word_of_nat k" and "k \<le> 7" by simp_all
  then have "k = 0 \<or> k = 1 \<or> k = 2 \<or> k = 3 \<or> k = 4 \<or> k = 5 \<or> k = 6 \<or> k = 7" by auto
  then show ?thesis unfolding n
    by (elim disjE) (simp_all add: job_midstate_total_len_def mul_chk_def add_chk_def)
next
  case False
  then show ?thesis by (simp add: job_midstate_total_len_def mul_chk_def)
qed

lemma opt_bytes_length:
  "pred_option (\<lambda>b. length b = 32) m \<Longrightarrow> length (opt_bytes m) = (if m = None then 0 else 32)"
  by (cases m) (auto simp: opt_bytes_def)

lemma unat_midstate_len: "unat n \<le> 7 \<Longrightarrow> unat (22 + 32 * n :: u8) = 22 + 32 * unat n"
  by (simp add: unat_word_ariths)

lemma job_midstate_payload_length:
  assumes "wf_command (JobMidstate j)" "job_midstate_payload j = Some dat"
  shows "length dat = 18 + 32 * midstates_present j"
proof -
  have "length (opt_bytes m) = (if m = None then 0 else 32)"
    if "m \<in> {jm_midstate1 j, jm_midstate2 j, jm_midstate3 j}" for m
    using assms(1) that by (intro opt_bytes_length) auto
  then have o: "length (opt_bytes (jm_midstate1 j)) = (if jm_midstate1 j = None then 0 else 32)"
    "length (opt_bytes (jm_midstate2 j)) = (if jm_midstate2 j = None then 0 else 32)"
    "length (opt_bytes (jm_midstate3 j)) = (if jm_midstate3 j = None then 0 else 32)" by blast+
  have "dat = [push_bit 3 (jm_job_id j), jm_num_midstates j]
         @ jm_starting_nonce j @ jm_nbits j @ jm_ntime j @ jm_merkle4 j
         @ jm_midstate0 j @ opt_bytes (jm_midstate1 j) @ opt_bytes (jm_midstate2 j)
         @ opt_bytes (jm_midstate3 j)"
    using assms(2) by (simp add: job_midstate_payload_def split: if_splits)
  then show ?thesis using assms(1) by (simp add: o midstates_present_def)
qed

lemma chip_address_of_eq: "i < 256 \<Longrightarrow> chip_address_of i = (if i < 128 then Some (word_of_nat (2 * i)) else None)"
  by (auto simp: chip_address_of_def mul_chk_def unat_of_nat)

definition chip_addresses :: "command list \<Rightarrow> u8 list" where
  "chip_addresses cs = concat (map (\<lambda>c. case c of SetChipAddress a \<Rightarrow> [a] | _ \<Rightarrow> []) cs)"

lemma word_bytes_rejoin:
  "pll_bytes (pll_from_u32 v) = to_le 4 v"
  "version_mask_bytes (decode_version_mask v) = to_le 4 v"
proof -
  have u: "ucast (x AND 0xff) = (ucast x :: u8)" for x :: u32
    unfolding mask_consts by (rule ucast_and_mask) simp
  show "pll_bytes (pll_from_u32 v) = to_le 4 v"
    unfolding to_le_4 pll_bytes_def pll_from_u32_def by (simp add: u)
  have two: "to_le 2 w = [ucast w, ucast (drop_bit 8 w)]" for w :: u16
    by (simp add: to_le_def upt_rec)
  have "ucast (ucast (v AND 0xffff) :: u16) = (ucast v :: u8)"
    "ucast (drop_bit 8 (ucast (v AND 0xffff) :: u16)) = (ucast (drop_bit 8 v) :: u8)"
    "ucast (ucast (drop_bit 16 v) :: u16) = (ucast (drop_bit 16 v) :: u8)"
    "ucast (drop_bit 8 (ucast (drop_bit 16 v) :: u16)) = (ucast (drop_bit 24 v) :: u8)"
    unfolding mask_consts by (intro bit_word_eqI; auto simp: bit_simps)+
  then show "version_mask_bytes (decode_version_mask v) = to_le 4 v"
    unfolding version_mask_bytes_def decode_version_mask_def by (simp add: two to_le_4)
qed

lemma io_driver_rejoin: "io_driver_bytes (decode_io_driver v) = to_le 4 v"
proof -
  have n: "ucast (drop_bit a v AND 0xf) OR push_bit 4 (ucast (drop_bit (a + 4) v AND 0xf)) = (ucast (drop_bit a v) :: u8)" for a
  proof (rule bit_word_eqI)
    fix k assume "k < LENGTH(8)"
    then have k: "k < 8" by simp
    have k4: "k - 4 < 8" using k by simp
    have r: "bit (ucast (drop_bit a v) :: u8) k = bit v (a + k)" using k by (simp add: bit_simps)
    show "bit (ucast (drop_bit a v AND 0xf) OR push_bit 4 (ucast (drop_bit (a + 4) v AND 0xf)) :: u8) k
      = bit (ucast (drop_bit a v) :: u8) k"
      unfolding r bit_or_iff bit_push_bit_iff bit_nibble [OF k] bit_nibble [OF k4]
      using k by (cases "k < 4") auto
  qed
  show ?thesis
    using n [of 0] n [of 8] n [of 16] n [of 24]
    unfolding io_driver_bytes_def decode_io_driver_def upt8 to_le_4 by simp
qed

section \<open>Properties\<close>

text \<open>
  Responses do not depend on how the serial bytes are cut into reads: feeding the chunks
  one by one gives the responses, and leaves the bytes, that draining the whole input gives,
  and fewer than eleven bytes always remain.
\<close>

theorem serial_chunking:
  "feed crc5 [] chunks = drain (frame_decode crc5) 11 (length (concat chunks)) (concat chunks) \<and>
   length (snd (feed crc5 [] chunks)) < 11"
  using feed_drain [of "[]" crc5 chunks] chip_stream.drain_rest_short [of "concat chunks" _ crc5] by simp

text \<open>
  A nonce response is decoded field by field. Any eleven bytes laid out as the chip sends
  a nonce (little-endian nonce, midstate number, job id and subcore in one byte, two version
  bytes, type 4 in the top bits of the checksum byte) whose checksum is zero decode to exactly
  those fields, consuming the frame and nothing else.
\<close>

theorem nonce_response_layout:
  assumes "job < 16" "sub < 16" "c < 32"
    and crc: "crc5 (to_le 4 nonce @ [mid, push_bit 4 job OR sub, fst v, snd v, 0x80 OR c]) = 0"
  shows "frame_decode crc5 ([0xaa, 0x55] @ to_le 4 nonce @ [mid, push_bit 4 job OR sub, fst v, snd v, 0x80 OR c] @ rest)
    = (Some (NonceResponse nonce job mid v sub), rest)"
proof -
  let ?dat = "to_le 4 nonce @ [mid, push_bit 4 job OR sub, fst v, snd v, 0x80 OR c]"
  have low: "take_bit 4 job = job" "take_bit 4 sub = sub" "take_bit 5 c = c"
    using assms(1-3) take_bit_less [of job 4] take_bit_less [of sub 4] take_bit_less [of c 5] by simp_all
  have k: "bit job k \<Longrightarrow> k < 4" "bit sub k \<Longrightarrow> k < 4" "bit c k \<Longrightarrow> k < 5" for k
    using low by (metis bit_take_bit_iff)+
  have j: "drop_bit 4 (push_bit 4 job OR sub) AND 0x0f = job"
    by (intro bit_word_eqI) (auto simp: mask_consts bit_simps dest: k)
  have s: "(push_bit 4 job OR sub) AND 0x0f = sub"
    by (intro bit_word_eqI) (auto simp: mask_consts bit_simps dest: k)
  have c0: "drop_bit 5 c = 0" by (intro bit_word_eqI) (auto simp: bit_simps dest: k)
  have t: "drop_bit 5 (0x80 OR c) = 4" using c0 by simp
  have "response_decode ?dat = Inr (NonceResponse nonce job mid v sub)"
    by (simp add: response_decode_def nth_append t response_type_from_repr_def from_le_to_le j s Let_def del: drop_bit_or)
  moreover have "length ?dat = 9" by simp
  ultimately show ?thesis using crc unfolding frame_decode_sound
    by (intro exI [of _ ?dat]) simp
qed

theorem nonce_response_layout_witness:
  "crc_usb5 (to_le 4 (0x40a60018 :: u32) @ [2, push_bit 4 9 OR 9, 0x22, 0xf9, 0x80 OR 0x11]) = 0 \<and>
   frame_decode crc_usb5
     ([0xaa, 0x55] @ to_le 4 (0x40a60018 :: u32) @ [2, push_bit 4 9 OR 9, 0x22, 0xf9, 0x80 OR 0x11] @ [0xaa])
     = (Some (NonceResponse 0x40a60018 9 2 (0x22, 0xf9) 9), [0xaa])"
proof -
  have c: "crc_usb5 (to_le 4 (0x40a60018 :: u32) @ [2, push_bit 4 9 OR 9, fst (0x22, 0xf9), snd (0x22, 0xf9), 0x80 OR 0x11]) = 0"
    by code_simp
  show ?thesis
    using nonce_response_layout [of 9 9 "0x11" crc_usb5 "0x40a60018" 2 "(0x22, 0xf9)" "[0xaa]"] c
    by (simp only: fst_conv snd_conv) simp
qed

text \<open>
  Resynchronisation. Bytes that contain no preamble byte in front of a valid frame are
  skipped one by one and the frame behind them is decoded; nothing is left over.
\<close>

theorem resync_after_garbage:
  assumes "0xaa \<notin> set g" "frame_decode crc5 f = (Some r, [])"
  shows "drain (frame_decode crc5) 11 (length (g @ f)) (g @ f) = ([r], [])"
  using assms(1)
proof (induction g)
  case Nil
  have "length f = 11" using assms(2) unfolding frame_decode_sound by auto
  then show ?case using assms(2) by (simp add: numeral_eq_Suc)
next
  case (Cons b g)
  have "length f = 11" using assms(2) unfolding frame_decode_sound by auto
  then have "frame_decode crc5 ((b # g) @ f) = (None, g @ f)" using Cons.prems by (auto simp: frame_decode_def)
  moreover have "length ((b # g) @ f) = Suc (length (g @ f))" by simp
  ultimately show ?case using Cons \<open>length f = 11\<close> by (simp only: drain.simps) simp
qed

theorem resync_after_garbage_witness:
  "let g = [0xFF, 0xEE, 0xDD];
       f = [0xaa, 0x55, 0x18, 0x00, 0xa6, 0x40, 0x02, 0x99, 0x22, 0xf9, 0x91]
   in drain (frame_decode crc_usb5) 11 (length (g @ f)) (g @ f)
      = ([NonceResponse 0x40a60018 9 2 (0x22, 0xf9) 9], [])"
proof -
  have "frame_decode crc_usb5 [0xaa, 0x55, 0x18, 0x00, 0xa6, 0x40, 0x02, 0x99, 0x22, 0xf9, 0x91]
      = (Some (NonceResponse 0x40a60018 9 2 (0x22, 0xf9) 9), [])" by code_simp
  moreover have "0xaa \<notin> set [0xFF, 0xEE, 0xDD :: u8]" by simp
  ultimately show ?thesis unfolding Let_def by (intro resync_after_garbage)
qed

text \<open>
  The length byte. For a well-formed command, the third byte after the preamble's first
  two counts every byte after the preamble, checksum included, for every command except a
  midstate job whose declared number of midstates differs from the number it carries.
\<close>

theorem frame_length_byte:
  assumes "wf_command cmd" "frame_encode crc5 crc16 cmd [] = Some f"
  shows "unat (f ! 3) = length f - 2 \<longleftrightarrow> declared_midstates_ok cmd"
proof -
  from assms(2) obtain body where b: "command_encode cmd = Some body"
    and f: "f = [0x55, 0xaa] @ body @ (if is_job cmd then to_be 2 (crc16 body) else [crc5 body])"
    by (auto simp: frame_encode_empty)
  show ?thesis
  proof (cases cmd)
    case (JobFull j)
    then show ?thesis using assms(1) b f
      by (auto simp: job_full_payload_def hash_wire_roundtrip split: if_splits)
  next
    case (JobMidstate j)
    obtain t dat where t: "job_midstate_total_len (jm_num_midstates j) = Some t"
      and d: "job_midstate_payload j = Some dat" and body: "body = [build_flags FlagJob False CmdWriteRegisterOrJob, t] @ dat"
      using b JobMidstate by (auto simp: bind_eq_Some_conv)
    have "length dat = 18 + 32 * midstates_present j"
      using job_midstate_payload_length [OF _ d] assms(1) JobMidstate by simp
    moreover have "unat t = 22 + 32 * unat (jm_num_midstates j)"
      using t by (auto simp: job_midstate_total_len_eq unat_midstate_len split: if_splits)
    ultimately have "length body = 20 + 32 * midstates_present j \<and> unat (body ! 1) = 22 + 32 * unat (jm_num_midstates j)"
      by (simp add: body)
    then show ?thesis using f JobMidstate by (auto simp: nth_append)
  next
    case (WriteRegister br a r)
    then show ?thesis using assms(1) b f encode_data_length [of r] by auto
  qed (use b f in auto)
qed

theorem frame_length_byte_witness:
  "wf_command (WriteRegister True 0 (VersionMask version_mask_full_rolling)) \<and>
   frame_encode crc_usb5 crc_ccitt16 (WriteRegister True 0 (VersionMask version_mask_full_rolling)) []
     = Some [0x55, 0xaa, 0x51, 0x09, 0x00, 0xa4, 0x90, 0x00, 0xff, 0xff, 0x1c] \<and>
   unat ([0x55, 0xaa, 0x51, 0x09, 0x00, 0xa4, 0x90, 0x00, 0xff, 0xff, 0x1c :: u8] ! 3) = 11 - 2"
proof -
  let ?c = "WriteRegister True 0 (VersionMask version_mask_full_rolling)"
  let ?f = "[0x55, 0xaa, 0x51, 0x09, 0x00, 0xa4, 0x90, 0x00, 0xff, 0xff, 0x1c] :: u8 list"
  have w: "wf_command ?c" by simp
  have f: "frame_encode crc_usb5 crc_ccitt16 ?c [] = Some ?f" by code_simp
  from frame_length_byte [OF w f] show ?thesis using w f by simp
qed

text \<open>
  Encoding into a buffer that is not empty. The frame appended is the frame of the empty
  buffer for jobs; for any other command only if the checksum of everything from the third
  byte of the whole buffer happens to equal the checksum of the command, because the code
  slices \<open>dst[2..]\<close> and not the start of the frame.
\<close>

theorem frame_encode_appends:
  "case command_encode cmd of
     None \<Rightarrow> frame_encode crc5 crc16 cmd dst = None
   | Some body \<Rightarrow>
       (frame_encode crc5 crc16 cmd dst = map_option (\<lambda>f. dst @ f) (frame_encode crc5 crc16 cmd [])
        \<longleftrightarrow> is_job cmd \<or> crc5 (drop 2 (dst @ [0x55, 0xaa] @ body)) = crc5 body)"
  by (auto simp: frame_encode_def Let_def split: option.split)

theorem frame_encode_appends_witness:
  "frame_encode crc_usb5 crc_ccitt16 (ReadRegister True 0 AddrChipId) [] = Some [0x55, 0xaa, 0x52, 0x05, 0x00, 0x00, 0x0a]
   \<and> frame_encode crc_usb5 crc_ccitt16 ChainInactive [0x55, 0xaa, 0x52, 0x05, 0x00, 0x00, 0x0a]
     \<noteq> map_option (\<lambda>f. [0x55, 0xaa, 0x52, 0x05, 0x00, 0x00, 0x0a] @ f) (frame_encode crc_usb5 crc_ccitt16 ChainInactive [])"
  by (intro conjI) code_simp+

text \<open>
  Chain addressing. The multi-chip sequence assigns the addresses 0, 2, 4, ... in order,
  all different, for chains of up to 128 chips; beyond that the address computation overflows
  and the function panics, although nonce ranges are configured for longer chains.
\<close>

theorem chain_addressing:
  "case multi_chip_init z n of
     Some cs \<Rightarrow> n \<le> 128 \<and> chip_addresses cs = map (\<lambda>i. word_of_nat (2 * i)) [0..<n] \<and> distinct (chip_addresses cs)
   | None \<Rightarrow> 128 < n"
proof (cases "n \<le> 128")
  case True
  have "traverse (\<lambda>i. map_option SetChipAddress (chip_address_of i)) [0..<n]
      = Some (map (\<lambda>i. SetChipAddress (word_of_nat (2 * i))) [0..<n])"
    unfolding traverse_Some_iff map_map by (rule map_cong) (use True in \<open>auto simp: chip_address_of_eq\<close>)
  moreover have "distinct (map (\<lambda>i. word_of_nat (2 * i) :: u8) [0..<n])"
  proof -
    have "inj_on (\<lambda>i. word_of_nat (2 * i) :: u8) {0..<n}"
      by (rule inj_on_inverseI [where g = "\<lambda>w. unat w div 2"]) (use True in \<open>auto simp: unat_of_nat simp del: of_nat_mult\<close>)
    then show ?thesis by (simp add: distinct_map)
  qed
  moreover have "concat (map (\<lambda>c. case c of SetChipAddress a \<Rightarrow> [a] | _ \<Rightarrow> []) (map (\<lambda>i. SetChipAddress (f i)) xs)) = map f xs" for f and xs :: "nat list"
    by (induction xs) auto
  ultimately show ?thesis using True
    by (simp add: multi_chip_init_def chip_addresses_def broadcast_write_def configure_nonce_ranges_def)
next
  case False
  then have "128 \<in> set [0..<n]" "chip_address_of 128 = None" by (auto simp: chip_address_of_eq)
  then have "traverse (\<lambda>i. map_option SetChipAddress (chip_address_of i)) [0..<n] = None"
    unfolding traverse_None_iff by force
  then show ?thesis using False by (simp add: multi_chip_init_def)
qed

text \<open>
  A generic register write puts the value on the wire little-endian, unchanged, whatever
  structured form it passes through, for every register but the core register (big-endian)
  and the ticket mask (reduced to its number of bits); the chip id is refused.
\<close>

theorem write_register_wire:
  assumes "reg \<notin> {AddrCore, AddrTicketMask}"
  shows "case write_register a reg v of
      Inl e \<Rightarrow> reg = AddrChipId \<and> e = ReadOnlyRegister reg
    | Inr cmd \<Rightarrow> reg \<noteq> AddrChipId \<and> command_encode cmd =
        Some ([0x41, 9, a, register_address_repr reg] @ to_le 4 v)"
proof -
  have fl: "build_flags FlagCommand False CmdWriteRegisterOrJob = 0x41"
    by (simp add: build_flags_def mask_eq_exp_minus_1)
  show ?thesis using assms
    by (cases reg) (simp_all add: write_register_def Let_def fl word_bytes_rejoin io_driver_rejoin baud_bytes_def)
qed

theorem write_register_wire_witness:
  "write_register 4 AddrVersionMask 0xffff0090 = Inr (WriteRegister False 4 (VersionMask version_mask_full_rolling)) \<and>
   command_encode (WriteRegister False 4 (VersionMask version_mask_full_rolling))
     = Some ([0x41, 9, 4, 0xA4] @ to_le 4 (0xffff0090 :: u32))"
proof -
  have w: "write_register 4 AddrVersionMask 0xffff0090 = Inr (WriteRegister False 4 (VersionMask version_mask_full_rolling))"
    by code_simp
  from write_register_wire [of AddrVersionMask 4 "0xffff0090"] w show ?thesis by simp
qed

end
