(* ===== verification/Extranonce2.thy ===== *)
theory Extranonce2
  imports Prelude
begin

text \<open>
  The extranonce2 dimension of the search space, from
  \<open>mujina-miner/src/job_source/extranonce2.rs\<close>: sized values, ranges, the splitting of a range
  between hash threads and the iterator over it. \<open>usize\<close> is read as a natural number
  (64-bit targets, so \<open>as usize\<close> of a \<open>u64\<close> loses nothing); \<open>None\<close> is a panic.
\<close>

section \<open>Values\<close>

datatype extranonce2_error =
  InvalidSize u8
  | ValueTooLarge u64 u8
  | InvalidRange u64 u64

record extranonce2 =
  en2_value :: u64
  en2_size :: u8

definition max_for_size :: "u8 \<Rightarrow> u64" where
  "max_for_size sz = (if 8 \<le> sz then - 1 else push_bit (unat sz * 8) 1 - 1)"

definition en2_new :: "u64 \<Rightarrow> u8 \<Rightarrow> extranonce2_error + extranonce2" where
  "en2_new value sz =
    (if sz = 0 \<or> 8 < sz then Inl (InvalidSize sz)
     else if max_for_size sz < value then Inl (ValueTooLarge value sz)
     else Inr \<lparr>en2_value = value, en2_size = sz\<rparr>)"

definition en2_bytes :: "extranonce2 \<Rightarrow> u8 list" where
  "en2_bytes e = take (unat (en2_size e)) (to_le 8 (en2_value e))"

definition extend_vec :: "extranonce2 \<Rightarrow> u8 list \<Rightarrow> u8 list" where
  "extend_vec e vec = vec @ take (unat (en2_size e)) (to_le 8 (en2_value e))"

section \<open>Ranges\<close>

record extranonce2_range =
  rng_min :: u64
  rng_max :: u64
  rng_size :: u8

definition range_new :: "u8 \<Rightarrow> extranonce2_error + extranonce2_range" where
  "range_new sz =
    (if sz = 0 \<or> 8 < sz then Inl (InvalidSize sz)
     else Inr \<lparr>rng_min = 0, rng_max = max_for_size sz, rng_size = sz\<rparr>)"

definition new_range :: "u64 \<Rightarrow> u64 \<Rightarrow> u8 \<Rightarrow> extranonce2_error + extranonce2_range" where
  "new_range mn mx sz =
    (if sz = 0 \<or> 8 < sz then Inl (InvalidSize sz)
     else if mx < mn then Inl (InvalidRange mn mx)
     else if max_for_size sz < mx then Inl (ValueTooLarge mx sz)
     else Inr \<lparr>rng_min = mn, rng_max = mx, rng_size = sz\<rparr>)"

definition range_len :: "extranonce2_range \<Rightarrow> u64 option" where
  "range_len r = map_option (\<lambda>d. add_sat d 1) (sub_chk (rng_max r) (rng_min r))"

definition range_is_empty :: "extranonce2_range \<Rightarrow> bool" where
  "range_is_empty r \<longleftrightarrow> rng_max r < rng_min r"

fun split_loop :: "u64 \<Rightarrow> u64 \<Rightarrow> u8 \<Rightarrow> nat list \<Rightarrow> u64 \<Rightarrow> extranonce2_range list option" where
  "split_loop chunk_size remainder sz [] start = Some []"
| "split_loop chunk_size remainder sz (i # is) start =
     Option.bind (add_chk chunk_size (if word_of_nat i < remainder then 1 else 0)) (\<lambda>len.
     Option.bind (add_chk start len) (\<lambda>past.
     Option.bind (sub_chk past 1) (\<lambda>end'.
     Option.bind (case new_range start end' sz of Inl _ \<Rightarrow> None | Inr r \<Rightarrow> Some r) (\<lambda>r.
     Option.bind (add_chk end' 1) (\<lambda>start'.
       map_option ((#) r) (split_loop chunk_size remainder sz is start'))))))"

text \<open>The outer option is the panic, the inner one the \<open>Option\<close> the code returns.\<close>

definition split_range :: "extranonce2_range \<Rightarrow> nat \<Rightarrow> extranonce2_range list option option" where
  "split_range r n =
    (if n = 0 then Some None
     else if n = 1 then Some (Some [r])
     else Option.bind (range_len r) (\<lambda>total.
       if unat total < n then Some None
       else map_option Some
         (split_loop (total div word_of_nat n) (total mod word_of_nat n) (rng_size r)
           [0..<n] (rng_min r))))"

section \<open>The iterator\<close>

record extranonce2_iter =
  it_range :: extranonce2_range
  it_current :: u64

definition range_iter :: "extranonce2_range \<Rightarrow> extranonce2_iter" where
  "range_iter r = \<lparr>it_range = r, it_current = rng_min r\<rparr>"

definition iter_current :: "extranonce2_iter \<Rightarrow> extranonce2 option" where
  "iter_current it =
    (case en2_new (it_current it) (rng_size (it_range it)) of Inl _ \<Rightarrow> None | Inr e \<Rightarrow> Some e)"

definition iter_reset :: "extranonce2_iter \<Rightarrow> extranonce2_iter" where
  "iter_reset it = it\<lparr>it_current := rng_min (it_range it)\<rparr>"

definition iter_next :: "extranonce2_iter \<Rightarrow> (extranonce2 option \<times> extranonce2_iter) option" where
  "iter_next it =
    (if rng_max (it_range it) < it_current it then Some (None, it)
     else case en2_new (it_current it) (rng_size (it_range it)) of
         Inl _ \<Rightarrow> Some (None, it)
       | Inr val \<Rightarrow> map_option (\<lambda>c. (Some val, it\<lparr>it_current := c\<rparr>)) (add_chk (it_current it) 1))"

definition iter_size_hint :: "extranonce2_iter \<Rightarrow> (nat \<times> nat option) option" where
  "iter_size_hint it =
    (if rng_max (it_range it) < it_current it then Some (0, Some 0)
     else Option.bind (sub_chk (rng_max (it_range it)) (it_current it)) (\<lambda>d.
          map_option (\<lambda>r. (unat r, Some (unat r))) (add_chk d 1)))"

text \<open>
  The first \<open>n\<close> calls of \<open>next\<close>, stopping at the first \<open>None\<close> as a \<open>for\<close> loop does.
\<close>

fun iter_run :: "nat \<Rightarrow> extranonce2_iter \<Rightarrow> (extranonce2 list \<times> extranonce2_iter) option" where
  "iter_run 0 it = Some ([], it)"
| "iter_run (Suc n) it =
     Option.bind (iter_next it) (\<lambda>(r, it').
       case r of None \<Rightarrow> Some ([], it')
       | Some e \<Rightarrow> map_option (\<lambda>(es, out). (e # es, out)) (iter_run n it'))"

section \<open>Well-formed ranges\<close>

definition wf_range :: "extranonce2_range \<Rightarrow> bool" where
  "wf_range r \<longleftrightarrow> rng_size r \<noteq> 0 \<and> rng_size r \<le> 8 \<and> rng_min r \<le> rng_max r \<and>
    rng_max r \<le> max_for_size (rng_size r)"

text \<open>The values of a range, in order.\<close>

definition range_values :: "extranonce2_range \<Rightarrow> nat list" where
  "range_values r = [unat (rng_min r)..<Suc (unat (rng_max r))]"

lemma new_range_ok: "new_range mn mx sz = Inr r \<longleftrightarrow>
    r = \<lparr>rng_min = mn, rng_max = mx, rng_size = sz\<rparr> \<and> wf_range r"
  by (auto simp: new_range_def wf_range_def not_less)

lemma range_new_wf: "range_new sz = Inr r \<Longrightarrow> wf_range r"
  by (auto simp: range_new_def wf_range_def split: if_splits)

lemma unat_max_for_size: "sz \<le> 8 \<Longrightarrow> unat (max_for_size sz) = 2 ^ (8 * unat sz) - 1"
proof -
  assume "sz \<le> 8"
  then consider "sz = 8" | "sz < 8" by fastforce
  then show ?thesis
  proof cases
    case 1
    then show ?thesis by (simp add: max_for_size_def unat_max_word)
  next
    case 2
    then have u: "unat sz < 8" by (simp add: word_less_nat_alt)
    have "push_bit (unat sz * 8) (1 :: u64) - 1 = mask (unat sz * 8)"
      by (rule push_bit_1_minus_1)
    then have "unat (max_for_size sz) = unat (mask (unat sz * 8) :: u64)"
      using 2 by (simp add: max_for_size_def flip: not_less)
    also have "\<dots> = 2 ^ (8 * unat sz) - 1"
      using u by (simp add: unat_mask mult.commute)
    finally show ?thesis .
  qed
qed

lemma range_len_nat:
  "rng_min r \<le> rng_max r \<Longrightarrow>
    \<exists>t. range_len r = Some t \<and> unat t = min (length (range_values r)) (2 ^ 64 - 1)"
  by (auto simp: range_len_def sub_chk_def unat_add_sat unat_sub range_values_def word_le_nat_alt
      Suc_diff_le)

lemma length_range_values: "length (range_values r) \<le> 2 ^ 64"
  using unsigned_less [of "rng_max r", where ?'a = nat] by (simp add: range_values_def del: upt_Suc)

section \<open>Splitting\<close>

text \<open>The offset at which piece \<open>i\<close> starts, and the piece itself.\<close>

definition piece_start :: "nat \<Rightarrow> nat \<Rightarrow> nat \<Rightarrow> nat" where
  "piece_start tot n i = i * (tot div n) + min i (tot mod n)"

definition piece :: "extranonce2_range \<Rightarrow> nat \<Rightarrow> nat \<Rightarrow> nat \<Rightarrow> extranonce2_range" where
  "piece r tot n i =
    \<lparr>rng_min = word_of_nat (unat (rng_min r) + piece_start tot n i),
     rng_max = word_of_nat (unat (rng_min r) + piece_start tot n (Suc i) - 1),
     rng_size = rng_size r\<rparr>"

lemma piece_start_0 [simp]: "piece_start tot n 0 = 0"
  by (simp add: piece_start_def)

lemma piece_start_n [simp]: "0 < n \<Longrightarrow> piece_start tot n n = tot"
  by (simp add: piece_start_def min_absorb2 less_imp_le_nat)

lemma piece_start_Suc:
  "piece_start tot n (Suc i) = piece_start tot n i + (tot div n + (if i < tot mod n then 1 else 0))"
  by (auto simp: piece_start_def min_def)

lemma piece_start_mono: "i \<le> j \<Longrightarrow> piece_start tot n i \<le> piece_start tot n j"
  by (simp add: piece_start_def add_mono min.coboundedI1 mult_le_mono1 min_def)

lemma piece_start_less: "n \<le> tot \<Longrightarrow> 0 < n \<Longrightarrow> piece_start tot n i < piece_start tot n (Suc i)"
  using div_greater_zero_iff [of tot n] by (simp add: piece_start_Suc)

lemma split_loop_pieces:
  assumes "0 < n" "n \<le> tot" "tot < 2 ^ 64" "unat (rng_min r) + tot < 2 ^ 64"
    and "rng_size r \<noteq> 0" "rng_size r \<le> 8"
    and "unat (rng_min r) + tot \<le> Suc (unat (max_for_size (rng_size r)))"
    and "i \<le> n"
  shows "split_loop (word_of_nat (tot div n)) (word_of_nat (tot mod n)) (rng_size r) [i..<n]
           (word_of_nat (unat (rng_min r) + piece_start tot n i))
         = Some (map (piece r tot n) [i..<n])"
  using assms(8)
proof (induction "n - i" arbitrary: i)
  case 0
  then show ?case by simp
next
  case (Suc k)
  then have i: "i < n" by simp
  let ?f = "piece_start tot n"
  have le: "?f (Suc i) \<le> tot" using piece_start_mono [of "Suc i" n tot n] i by simp
  have lt: "?f i < ?f (Suc i)" using assms by (intro piece_start_less) simp_all
  have u: "unat (word_of_nat m :: u64) = m" if "m < 2 ^ 64" for m
    using that by (simp add: unat_word_of_nat)
  have dv: "tot div n < 2 ^ 64" "tot mod n < 2 ^ 64"
    using assms(1-3) by (auto intro: le_less_trans [OF div_le_dividend] le_less_trans [OF mod_less_eq_dividend])
  have cond: "(word_of_nat i :: u64) < word_of_nat (tot mod n) \<longleftrightarrow> i < tot mod n"
    using i assms(2,3) dv by (simp add: word_less_nat_alt u)
  have sum: "?f (Suc i) = ?f i + (tot div n + (if i < tot mod n then 1 else 0))"
    by (rule piece_start_Suc)
  have s1: "add_chk (word_of_nat (tot div n) :: u64) (if (word_of_nat i :: u64) < word_of_nat (tot mod n) then 1 else 0)
      = Some (word_of_nat (?f (Suc i) - ?f i))"
    using add_chk_nat [of "tot div n" "if i < tot mod n then 1 else 0", where ?'a = 64] sum le assms(3)
    by (simp add: cond del: of_nat_add split: if_splits)
  have s2: "add_chk (word_of_nat (unat (rng_min r) + ?f i) :: u64) (word_of_nat (?f (Suc i) - ?f i))
      = Some (word_of_nat (unat (rng_min r) + ?f (Suc i)))"
    using add_chk_nat [of "unat (rng_min r) + ?f i" "?f (Suc i) - ?f i", where ?'a = 64] lt le assms(4)
    by (simp del: of_nat_add)
  have s3: "sub_chk (word_of_nat (unat (rng_min r) + ?f (Suc i)) :: u64) 1
      = Some (word_of_nat (unat (rng_min r) + ?f (Suc i) - 1))"
    using sub_chk_nat [of 1 "unat (rng_min r) + ?f (Suc i)", where ?'a = 64] lt le assms(4)
    by (simp del: of_nat_add)
  have s4: "new_range (word_of_nat (unat (rng_min r) + ?f i)) (word_of_nat (unat (rng_min r) + ?f (Suc i) - 1)) (rng_size r)
      = Inr (piece r tot n i)"
    using lt le assms(4-7) unfolding new_range_ok
    by (simp add: piece_def wf_range_def u word_le_nat_alt del: of_nat_add of_nat_diff)
       linarith
  have s5: "add_chk (word_of_nat (unat (rng_min r) + ?f (Suc i) - 1) :: u64) 1
      = Some (word_of_nat (unat (rng_min r) + ?f (Suc i)))"
    using add_chk_nat [of "unat (rng_min r) + ?f (Suc i) - 1" 1, where ?'a = 64] lt le assms(4)
    by (simp del: of_nat_add)
  have IH: "split_loop (word_of_nat (tot div n)) (word_of_nat (tot mod n)) (rng_size r) [Suc i..<n]
           (word_of_nat (unat (rng_min r) + ?f (Suc i)))
         = Some (map (piece r tot n) [Suc i..<n])"
    using Suc by simp
  show ?case
    unfolding upt_conv_Cons [OF i] split_loop.simps
    using s1 s2 s3 s4 s5 IH by (simp del: of_nat_add)
qed

lemma split_loop_bound:
  "split_loop c m sz is s = Some rs \<Longrightarrow>
    unat s + (\<Sum>i\<leftarrow>is. unat (c + (if word_of_nat i < m then 1 else 0))) < 2 ^ 64"
proof (induction "is" arbitrary: s rs)
  case Nil
  then show ?case using unsigned_less [of s, where ?'a = nat] by simp
next
  case (Cons i "is")
  then obtain len past e s' rs' where
    "add_chk c (if word_of_nat i < m then 1 else 0) = Some len" and "add_chk s len = Some past"
    and "sub_chk past 1 = Some e" and "add_chk e 1 = Some s'" and r: "split_loop c m sz is s' = Some rs'"
    by (auto simp: bind_eq_Some_conv)
  then have "unat s' = unat s + unat (c + (if word_of_nat i < m then 1 else 0))"
    using unat_add_chk [of s len past] unat_sub_chk [of past 1 e] unat_add_chk [of e 1 s']
    by (auto simp: add_chk_Some sub_chk_Some word_le_nat_alt)
  then show ?case using Cons.IH [OF r] by simp
qed

lemma sum_piece_lengths:
  assumes "1 < n" "n \<le> tot" "tot < 2 ^ 64" and k: "k \<le> n"
  shows "(\<Sum>i\<leftarrow>[0..<k]. unat ((word_of_nat (tot div n) :: u64) + (if word_of_nat i < (word_of_nat (tot mod n) :: u64) then 1 else 0)))
    = piece_start tot n k"
  using k
proof (induction k)
  case 0
  then show ?case by simp
next
  case (Suc k)
  have dv: "tot div n + 1 < 2 ^ LENGTH(64)" using div_le_mono2 [of 2 n tot] assms by simp
  have md: "tot mod n < 2 ^ 64" using assms(3) by (auto intro: le_less_trans [OF mod_less_eq_dividend])
  have cond: "(word_of_nat k :: u64) < word_of_nat (tot mod n) \<longleftrightarrow> k < tot mod n"
    using Suc assms md by (simp add: word_less_nat_alt unat_word_of_nat)
  have "unat ((word_of_nat (tot div n) :: u64) + (if word_of_nat k < (word_of_nat (tot mod n) :: u64) then 1 else 0))
    = tot div n + (if k < tot mod n then 1 else 0)"
  proof -
    have "unat (word_of_nat (tot div n) + (1 :: u64)) = tot div n + 1"
      using unat_word_of_nat [OF dv] by (simp only: of_nat_add of_nat_1)
    moreover have "unat (word_of_nat (tot div n) :: u64) = tot div n"
      using dv by (intro unat_word_of_nat) linarith
    ultimately show ?thesis by (simp only: cond if_split) simp
  qed
  then show ?case using Suc by (simp add: piece_start_Suc)
qed

definition split_total :: "extranonce2_range \<Rightarrow> nat" where
  "split_total r = min (length (range_values r)) (2 ^ 64 - 1)"

lemma split_range_cases:
  assumes "wf_range r" "1 < n"
  shows "split_range r n =
    (if split_total r < n then Some None
     else if rng_max r = - 1 \<and> rng_min r \<noteq> 0 then None
     else Some (Some (map (piece r (split_total r) n) [0..<n])))"
proof -
  from assms have le: "rng_min r \<le> rng_max r" by (simp add: wf_range_def)
  then obtain t where t: "range_len r = Some t" "unat t = split_total r"
    using range_len_nat by (auto simp: split_total_def)
  then have tw: "t = word_of_nat (split_total r)" by (simp flip: t(2))
  have lt: "split_total r < 2 ^ 64" by (simp add: split_total_def)
  have sz: "rng_size r \<noteq> 0" "rng_size r \<le> 8" "rng_max r \<le> max_for_size (rng_size r)"
    using assms by (simp_all add: wf_range_def)
  show ?thesis
  proof (cases "split_total r < n")
    case True
    then show ?thesis using assms t by (simp add: split_range_def)
  next
    case False
    then have n: "n \<le> split_total r" "n < 2 ^ 64" using lt by simp_all
    have "word_of_nat (unat t div unat (word_of_nat n :: u64)) = t div (word_of_nat n :: u64)"
      "word_of_nat (unat t mod unat (word_of_nat n :: u64)) = t mod (word_of_nat n :: u64)"
      by (simp_all flip: unat_div unat_mod)
    then have dm: "t div word_of_nat n = word_of_nat (split_total r div n)"
      "t mod word_of_nat n = word_of_nat (split_total r mod n)"
      using n by (simp_all add: t unat_word_of_nat)
    have len: "length (range_values r) = Suc (unat (rng_max r)) - unat (rng_min r)"
      by (simp add: range_values_def del: upt_Suc)
    have mx: "rng_max r = - 1 \<longleftrightarrow> unat (rng_max r) = 2 ^ 64 - 1"
      using unat_max_word [where ?'a = 64] by (simp add: word_eq_iff_unsigned [where ?'a = nat])
    have le': "unat (rng_min r) \<le> unat (rng_max r)" using le by (simp add: word_le_nat_alt)
    have fit: "unat (rng_min r) + split_total r \<le> Suc (unat (rng_max r))"
      using le' by (auto simp: split_total_def len)
    have over: "unat (rng_min r) + split_total r < 2 ^ 64 \<longleftrightarrow> \<not> (rng_max r = - 1 \<and> rng_min r \<noteq> 0)"
      using le' unsigned_less [of "rng_max r", where ?'a = nat]
      by (auto simp: split_total_def len mx unat_eq_zero min_def)
    have start: "rng_min r = word_of_nat (unat (rng_min r) + piece_start (split_total r) n 0)" by simp
    show ?thesis
    proof (cases "unat (rng_min r) + split_total r < 2 ^ 64")
      case True
      have "split_loop (word_of_nat (split_total r div n)) (word_of_nat (split_total r mod n)) (rng_size r) [0..<n] (rng_min r)
          = Some (map (piece r (split_total r) n) [0..<n])"
        using split_loop_pieces [of n "split_total r" r 0] n True lt fit sz assms(2)
        by (simp add: word_le_nat_alt del: upt_Suc)
      then show ?thesis using assms True over False by (simp add: split_range_def t dm del: upt_Suc)
    next
      case False
      have "split_loop (word_of_nat (split_total r div n)) (word_of_nat (split_total r mod n)) (rng_size r) [0..<n] (rng_min r) = None"
      proof (rule ccontr)
        assume "split_loop (word_of_nat (split_total r div n)) (word_of_nat (split_total r mod n)) (rng_size r) [0..<n] (rng_min r) \<noteq> None"
        then obtain rs where "split_loop (word_of_nat (split_total r div n)) (word_of_nat (split_total r mod n)) (rng_size r) [0..<n] (rng_min r) = Some rs"
          by auto
        from split_loop_bound [OF this] sum_piece_lengths [of n "split_total r" n] n lt assms(2) False
        show False by (simp del: upt_Suc)
      qed
      then show ?thesis using assms False over n by (simp add: split_range_def t dm not_less del: upt_Suc)
    qed
  qed
qed


section \<open>What a splitter of search space promises\<close>

text \<open>
  The interface the scheduler uses to hand disjoint work to threads: a split yields the number
  of pieces asked for, all well formed, and the pieces are disjoint parts of the whole.
\<close>

locale range_splitter =
  fixes split :: "'r \<Rightarrow> nat \<Rightarrow> 'r list option"
    and vals :: "'r \<Rightarrow> 'v list"
    and ok :: "'r \<Rightarrow> bool"
  assumes count: "ok r \<Longrightarrow> split r n = Some rs \<Longrightarrow> length rs = n"
    and piece_ok: "ok r \<Longrightarrow> split r n = Some rs \<Longrightarrow> p \<in> set rs \<Longrightarrow> ok p"
    and no_overlap: "ok r \<Longrightarrow> split r n = Some rs \<Longrightarrow> distinct (concat (map vals rs))"
    and inside: "ok r \<Longrightarrow> split r n = Some rs \<Longrightarrow> p \<in> set rs \<Longrightarrow> set (vals p) \<subseteq> set (vals r)"
begin

lemma pieces_disjoint:
  assumes "ok r" "split r n = Some rs" "i < j" "j < n"
  shows "set (vals (rs ! i)) \<inter> set (vals (rs ! j)) = {}"
proof -
  have d: "distinct (concat (map vals rs))" and len: "length rs = n"
    using assms no_overlap count by blast+
  have "concat (map vals rs) = concat (map vals (take j rs)) @ concat (map vals (drop j rs))"
    by (metis append_take_drop_id concat_append map_append)
  with d have "set (concat (map vals (take j rs))) \<inter> set (concat (map vals (drop j rs))) = {}" by simp
  moreover have "rs ! i \<in> set (take j rs)" using assms(3,4) len by (auto simp: in_set_conv_nth intro!: exI [of _ i])
  moreover have "rs ! j \<in> set (drop j rs)" using assms(3,4) len by (auto simp: in_set_conv_nth intro!: exI [of _ 0])
  ultimately show ?thesis by auto
qed

text \<open>Splitting two different pieces again still yields disjoint parts.\<close>

lemma resplit_disjoint:
  assumes "ok r" "split r n = Some rs" "i < j" "j < n"
    and "split (rs ! i) m = Some ps" "split (rs ! j) k = Some qs" "p \<in> set ps" "q \<in> set qs"
  shows "set (vals p) \<inter> set (vals q) = {}"
proof -
  have "rs ! i \<in> set rs" "rs ! j \<in> set rs" using assms count by (auto intro!: nth_mem)
  then have "ok (rs ! i)" "ok (rs ! j)" using assms piece_ok by blast+
  then have "set (vals p) \<subseteq> set (vals (rs ! i))" "set (vals q) \<subseteq> set (vals (rs ! j))"
    using assms inside by blast+
  with pieces_disjoint [OF assms(1-4)] show ?thesis by blast
qed

end

lemma piece_values:
  assumes "wf_range r" "0 < n" "n \<le> tot" "tot < 2 ^ 64" "unat (rng_min r) + tot < 2 ^ 64" "i < n"
  shows "range_values (piece r tot n i) =
    [unat (rng_min r) + piece_start tot n i..<unat (rng_min r) + piece_start tot n (Suc i)]"
proof -
  have "piece_start tot n i < piece_start tot n (Suc i)" using assms by (intro piece_start_less)
  moreover have "piece_start tot n (Suc i) \<le> tot"
    using piece_start_mono [of "Suc i" n n tot] piece_start_mono [of "Suc i" n tot n] assms by simp
  ultimately have "unat (rng_min r) + piece_start tot n (Suc i) - 1 < 2 ^ LENGTH(64)"
    "unat (rng_min r) + piece_start tot n i < 2 ^ LENGTH(64)"
    "Suc (unat (rng_min r) + piece_start tot n (Suc i) - 1) = unat (rng_min r) + piece_start tot n (Suc i)"
    using assms(5) by simp_all
  then show ?thesis by (simp only: range_values_def piece_def extranonce2_range.simps unat_word_of_nat)
qed

lemma piece_wf:
  assumes "wf_range r" "0 < n" "n \<le> tot" "tot < 2 ^ 64" "unat (rng_min r) + tot < 2 ^ 64" "i < n"
    and "unat (rng_min r) + tot \<le> Suc (unat (rng_max r))"
  shows "wf_range (piece r tot n i)"
proof -
  have lt: "piece_start tot n i < piece_start tot n (Suc i)" using assms by (intro piece_start_less)
  have le: "piece_start tot n (Suc i) \<le> tot"
    using piece_start_mono [of "Suc i" n tot n] assms by simp
  have "unat (rng_min r) + piece_start tot n (Suc i) - 1 < 2 ^ LENGTH(64)"
    "unat (rng_min r) + piece_start tot n i < 2 ^ LENGTH(64)"
    using lt le assms(5) by simp_all
  with lt le assms show ?thesis
    by (simp add: wf_range_def piece_def word_le_nat_alt unat_word_of_nat del: of_nat_add of_nat_diff) linarith
qed

lemma concat_upt_pieces:
  assumes mono: "\<And>i j. i \<le> j \<Longrightarrow> f i \<le> (f j :: nat)"
  shows "concat (map (\<lambda>i. [a + f i..<a + f (Suc i)]) [0..<n]) = [a + f 0..<a + f n]"
proof (induction n)
  case 0
  then show ?case by simp
next
  case (Suc n)
  have "[a + f 0..<a + f n] @ [a + f n..<a + f (Suc n)] = [a + f 0..<a + f (Suc n)]"
    using mono [of 0 n] mono [of n "Suc n"] upt_add_eq_append [of "a + f 0" "a + f n" "f (Suc n) - f n"]
    by simp
  then show ?case using Suc by simp
qed

lemma split_range_pieces:
  assumes "wf_range r" "split_range r n = Some (Some rs)" "1 < n"
  defines "tot \<equiv> split_total r"
  shows "rs = map (piece r tot n) [0..<n]" "n \<le> tot" "tot < 2 ^ 64" "unat (rng_min r) + tot < 2 ^ 64"
    "unat (rng_min r) + tot \<le> Suc (unat (rng_max r))"
proof -
  have c: "\<not> split_total r < n" "\<not> (rng_max r = - 1 \<and> rng_min r \<noteq> 0)"
    and rs: "rs = map (piece r (split_total r) n) [0..<n]"
    using split_range_cases [OF assms(1,3)] assms(2) by (auto split: if_splits simp del: upt_Suc)
  then show "rs = map (piece r tot n) [0..<n]" "n \<le> tot" "tot < 2 ^ 64"
    by (auto simp: tot_def split_total_def)
  have mx: "rng_max r = - 1 \<longleftrightarrow> unat (rng_max r) = 2 ^ 64 - 1"
    using unat_max_word [where ?'a = 64] by (simp add: word_eq_iff_unsigned [where ?'a = nat])
  have le: "unat (rng_min r) \<le> unat (rng_max r)" using assms(1) by (simp add: wf_range_def word_le_nat_alt)
  have len: "length (range_values r) = Suc (unat (rng_max r)) - unat (rng_min r)"
    by (simp add: range_values_def del: upt_Suc)
  show "unat (rng_min r) + tot < 2 ^ 64"
    using c(2) le unsigned_less [of "rng_max r", where ?'a = nat]
    by (auto simp: tot_def split_total_def len mx unat_eq_zero min_def)
  show "unat (rng_min r) + tot \<le> Suc (unat (rng_max r))"
    using le by (auto simp: tot_def split_total_def len)
qed

lemma split_range_values:
  assumes "wf_range r" "split_range r n = Some (Some rs)" "1 < n"
  shows "concat (map range_values rs) = [unat (rng_min r)..<unat (rng_min r) + split_total r]"
proof -
  note p = split_range_pieces [OF assms]
  have "map range_values rs =
    map (\<lambda>i. [unat (rng_min r) + piece_start (split_total r) n i..<unat (rng_min r) + piece_start (split_total r) n (Suc i)]) [0..<n]"
    unfolding p(1) map_map comp_def using assms(1,3) p by (intro map_cong refl piece_values) auto
  then show ?thesis
    using concat_upt_pieces [of "piece_start (split_total r) n" "unat (rng_min r)" n] piece_start_mono assms(3) by simp
qed

lemma split_range_1: "split_range r n = Some (Some rs) \<Longrightarrow> n \<le> 1 \<Longrightarrow> n = 1 \<and> rs = [r]"
  by (auto simp: split_range_def split: if_splits)

lemma split_total_le: "split_total r \<le> length (range_values r)"
  by (simp add: split_total_def)

lemma range_values_prefix:
  "wf_range r \<Longrightarrow> [unat (rng_min r)..<unat (rng_min r) + split_total r] = take (split_total r) (range_values r)"
  by (simp add: range_values_def split_total_def take_upt wf_range_def word_le_nat_alt min_def del: upt_Suc)

lemma split_facts:
  assumes "wf_range r" "split_range r n = Some (Some rs)"
  shows "length rs = n" "\<And>p. p \<in> set rs \<Longrightarrow> wf_range p"
    "concat (map range_values rs) = (if n = 1 then range_values r else take (split_total r) (range_values r))"
proof -
  consider (one) "n = 1" "rs = [r]" | (many) "1 < n" using split_range_1 [OF assms(2)] by fastforce
  then have "length rs = n \<and> (\<forall>p \<in> set rs. wf_range p) \<and>
    concat (map range_values rs) = (if n = 1 then range_values r else take (split_total r) (range_values r))"
  proof cases
    case one
    then show ?thesis using assms by simp
  next
    case many
    note p = split_range_pieces [OF assms many]
    from many have "wf_range (piece r (split_total r) n i)" if "i < n" for i
      using that assms p by (intro piece_wf) auto
    then show ?thesis
      using many split_range_values [OF assms many] range_values_prefix [OF assms(1)]
      by (simp add: p(1) del: upt_Suc)
  qed
  then show "length rs = n" "\<And>p. p \<in> set rs \<Longrightarrow> wf_range p"
    "concat (map range_values rs) = (if n = 1 then range_values r else take (split_total r) (range_values r))"
    by blast+
qed

interpretation en2: range_splitter "\<lambda>r n. Option.bind (split_range r n) id" range_values wf_range
proof
  fix r n rs p
  assume wf: "wf_range r" and "Option.bind (split_range r n) id = Some rs"
  then have s: "split_range r n = Some (Some rs)" by (auto simp: bind_eq_Some_conv)
  note f = split_facts [OF wf s]
  show "length rs = n" by (rule f)
  show "distinct (concat (map range_values rs))"
    by (simp add: f(3) range_values_def del: upt_Suc)
  assume p: "p \<in> set rs"
  then show "wf_range p" by (rule f)
  have "set (concat (map range_values rs)) \<subseteq> set (range_values r)"
    by (simp add: f(3) set_take_subset)
  with p show "set (range_values p) \<subseteq> set (range_values r)" by auto
qed

lemma en2_bytes_value:
  assumes "en2_new v w = Inr e"
  shows "from_le (en2_bytes e) = v"
proof -
  have read_back: "from_le (en2_bytes e) = en2_value e"
    if n: "en2_new (en2_value e) (en2_size e) = Inr e" for e
  proof -
    have sz: "en2_size e \<le> 8" and le: "en2_value e \<le> max_for_size (en2_size e)"
      using n by (auto simp: en2_new_def split: if_splits)
    have "unat (max_for_size (en2_size e)) < 2 ^ (8 * unat (en2_size e))"
      unfolding unat_max_for_size [OF sz] by simp
    moreover have "unat (en2_value e) \<le> unat (max_for_size (en2_size e))"
      using le by (simp only: word_le_nat_alt)
    ultimately have lt: "unat (en2_value e) < 2 ^ (8 * unat (en2_size e))" by (rule le_less_trans [rotated])
    have z: "\<not> bit (en2_value e) k" if "8 * unat (en2_size e) \<le> k" for k
    proof -
      have "bit (unat (en2_value e)) k \<longleftrightarrow> bit (take_bit (8 * unat (en2_size e)) (unat (en2_value e))) k"
        using lt by (simp add: take_bit_nat_eq_self)
      then have "\<not> bit (unat (en2_value e)) k" using that by (simp add: bit_take_bit_iff)
      then show ?thesis by (simp add: bit_unsigned_iff)
    qed
    have sz': "unat (en2_size e) \<le> 8" using sz by (simp add: word_le_nat_alt)
    show ?thesis
    proof (rule bit_word_eqI)
      fix k assume "k < LENGTH(64)"
      moreover have "8 * (k div 8) + k mod 8 = k" by simp
      moreover have "k div 8 < unat (en2_size e) \<longleftrightarrow> \<not> 8 * unat (en2_size e) \<le> k" by auto
      ultimately show "bit (from_le (en2_bytes e) :: u64) k = bit (en2_value e) k"
        using z [of k] sz'
        by (cases "k div 8 < unat (en2_size e)") (simp_all add: bit_from_le en2_bytes_def bit_simps)
    qed
  qed
  have "e = \<lparr>en2_value = v, en2_size = w\<rparr>" using assms by (auto simp: en2_new_def split: if_splits)
  then show ?thesis using read_back [of e] assms by simp
qed

lemma extend_vec_en2_bytes: "extend_vec e pre = pre @ en2_bytes e"
  by (simp add: extend_vec_def en2_bytes_def)

section \<open>Properties\<close>

text \<open>
  C2: Splitting a range hands out all of it, once. If \<open>split\<close> returns pieces, there are as many as
  asked for, each is a valid range of the same width, their sizes differ by at most one, and
  in order they list the values of the range; only splitting the whole of an eight-byte
  range loses its last value, because \<open>len\<close> saturates.
\<close>

theorem split_partition:
  assumes "wf_range r" "split_range r n = Some (Some rs)"
  shows "length rs = n \<and> list_all (\<lambda>p. wf_range p \<and> rng_size p = rng_size r) rs \<and>
    (\<forall>p \<in> set rs. \<forall>q \<in> set rs. length (range_values p) \<le> Suc (length (range_values q))) \<and>
    concat (map range_values rs) =
      (if 1 < n \<and> rng_min r = 0 \<and> rng_max r = - 1 then butlast (range_values r) else range_values r)"
proof -
  note f = split_facts [OF assms]
  have mx: "rng_max r = - 1 \<longleftrightarrow> unat (rng_max r) = 2 ^ 64 - 1"
    using unat_max_word [where ?'a = 64] by (simp add: word_eq_iff_unsigned [where ?'a = nat])
  have le: "unat (rng_min r) \<le> unat (rng_max r)" using assms(1) by (simp add: wf_range_def word_le_nat_alt)
  have len: "length (range_values r) = Suc (unat (rng_max r)) - unat (rng_min r)"
    by (simp add: range_values_def del: upt_Suc)
  have full: "length (range_values r) = 2 ^ 64 \<longleftrightarrow> rng_min r = 0 \<and> rng_max r = - 1"
  proof -
    have "rng_min r = 0 \<longleftrightarrow> unat (rng_min r) = 0" by (simp add: unat_eq_zero)
    then show ?thesis
      unfolding len mx using le unsigned_less [of "rng_max r", where ?'a = nat] by auto
  qed
  have cover: "take (split_total r) (range_values r) =
      (if rng_min r = 0 \<and> rng_max r = - 1 then butlast (range_values r) else range_values r)"
    using full length_range_values [of r] by (auto simp: split_total_def butlast_conv_take min_def)
  have n: "n \<noteq> 0" by (rule notI) (use assms(2) in \<open>simp add: split_range_def\<close>)
  have pieces: "rng_size p = rng_size r \<and> length (range_values p) \<in> {split_total r div n, Suc (split_total r div n)}"
    if "p \<in> set rs" "1 < n" for p
  proof -
    note q = split_range_pieces [OF assms that(2)]
    from that obtain i where i: "i < n" "p = piece r (split_total r) n i" unfolding q(1) by auto
    have "range_values p = [unat (rng_min r) + piece_start (split_total r) n i..<
        unat (rng_min r) + piece_start (split_total r) n (Suc i)]"
      unfolding i(2) using assms(1) that(2) q i(1) by (intro piece_values) auto
    then show ?thesis by (simp add: i(2) piece_def piece_start_Suc)
  qed
  have "list_all (\<lambda>p. rng_size p = rng_size r) rs \<and>
      (\<forall>p \<in> set rs. \<forall>q \<in> set rs. length (range_values p) \<le> Suc (length (range_values q)))"
  proof (cases "1 < n")
    case True
    have "length (range_values p) \<le> Suc (length (range_values q))" if "p \<in> set rs" "q \<in> set rs" for p q
      using pieces [OF that(1) True] pieces [OF that(2) True] by auto
    then show ?thesis using pieces [OF _ True] by (simp add: list_all_iff)
  next
    case False
    then show ?thesis using split_range_1 [OF assms(2)] by simp
  qed
  moreover have "(if n = 1 then range_values r else take (split_total r) (range_values r)) =
      (if 1 < n \<and> rng_min r = 0 \<and> rng_max r = - 1 then butlast (range_values r) else range_values r)"
    using n cover by auto
  ultimately show ?thesis using f by (simp add: list_all_iff)
qed

theorem split_partition_witness:
  "let r = \<lparr>rng_min = 10, rng_max = 20, rng_size = 1\<rparr> in
   split_range r 3 = Some (Some
     [\<lparr>rng_min = 10, rng_max = 13, rng_size = 1\<rparr>, \<lparr>rng_min = 14, rng_max = 17, rng_size = 1\<rparr>,
      \<lparr>rng_min = 18, rng_max = 20, rng_size = 1\<rparr>]) \<and>
   [10..<14] @ [14..<18] @ [18..<21] = range_values r"
proof -
  let ?r = "\<lparr>rng_min = 10, rng_max = 20, rng_size = 1\<rparr>"
  let ?ps = "[\<lparr>rng_min = 10, rng_max = 13, rng_size = 1\<rparr>, \<lparr>rng_min = 14, rng_max = 17, rng_size = 1\<rparr>,
      \<lparr>rng_min = 18, rng_max = 20, rng_size = 1\<rparr>]"
  have wf: "wf_range ?r" by code_simp
  have s: "split_range ?r 3 = Some (Some ?ps)" by code_simp
  have "concat (map range_values ?ps) = range_values ?r"
    using split_partition [OF wf s] by (simp del: upt_Suc)
  with s show ?thesis by (simp add: Let_def range_values_def del: upt_Suc upt_rec_numeral)
qed


text \<open>
  When \<open>split\<close> gives up and when it panics. On a valid range it declines (\<open>None\<close>) exactly when
  no piece or more pieces than the (saturated) length are asked for, and it overflows and
  panics exactly when a range that ends at \<open>u64::MAX\<close> but does not start at zero is split in two or more.
\<close>

theorem split_declines_or_panics:
  assumes "wf_range r"
  shows "(split_range r n = Some None \<longleftrightarrow> n = 0 \<or> 1 < n \<and> split_total r < n) \<and>
    (split_range r n = None \<longleftrightarrow> 1 < n \<and> n \<le> split_total r \<and> rng_max r = - 1 \<and> rng_min r \<noteq> 0)"
proof (cases "1 < n")
  case True
  then show ?thesis using split_range_cases [OF assms True] by auto
next
  case False
  then show ?thesis by (auto simp: split_range_def)
qed

theorem split_declines_or_panics_witness:
  "wf_range \<lparr>rng_min = 1, rng_max = - 1, rng_size = 8\<rparr> \<and>
   split_range \<lparr>rng_min = 1, rng_max = - 1, rng_size = 8\<rparr> 2 = None \<and>
   split_range \<lparr>rng_min = 1, rng_max = - 1, rng_size = 8\<rparr> 0 = Some None"
proof -
  have wf: "wf_range \<lparr>rng_min = 1, rng_max = - 1, rng_size = 8\<rparr>" by code_simp
  have "2 \<le> split_total \<lparr>rng_min = 1, rng_max = - 1, rng_size = 8\<rparr>"
    by (simp add: split_total_def range_values_def unat_max_word del: upt_Suc)
  with wf show ?thesis using split_declines_or_panics [OF wf, of 2] split_declines_or_panics [OF wf, of 0] by simp
qed

lemma iter_next_step:
  assumes "wf_range r" "c \<le> rng_max r"
  shows "iter_next \<lparr>it_range = r, it_current = c\<rparr> =
    (if c = - 1 then None
     else Some (Some \<lparr>en2_value = c, en2_size = rng_size r\<rparr>, \<lparr>it_range = r, it_current = c + 1\<rparr>))"
proof -
  have "en2_new c (rng_size r) = Inr \<lparr>en2_value = c, en2_size = rng_size r\<rparr>"
    using assms by (auto simp: en2_new_def wf_range_def)
  moreover have "add_chk c 1 = (if c = - 1 then None else Some (c + 1))"
  proof (cases "c = - 1")
    case True
    then show ?thesis by (simp add: add_chk_def unat_max_word)
  next
    case False
    then have "unat c \<noteq> 2 ^ 64 - 1" using unat_max_word [where ?'a = 64] by (auto simp: word_eq_iff_unsigned [where ?'a = nat])
    then have "Suc (unat c) < 2 ^ 64" using unsigned_less [of c, where ?'a = nat] by simp
    then show ?thesis using False by (simp add: add_chk_def)
  qed
  moreover have "\<not> rng_max r < c" using assms by (simp add: not_less)
  ultimately show ?thesis by (cases "c = - 1") (simp_all add: iter_next_def)
qed

lemma iter_run_from:
  assumes "wf_range r" "rng_max r \<noteq> - 1" "unat (rng_min r) \<le> k" "k \<le> Suc (unat (rng_max r))"
  shows "iter_run (Suc (Suc (unat (rng_max r)) - k)) \<lparr>it_range = r, it_current = word_of_nat k\<rparr> =
    Some (map (\<lambda>v. \<lparr>en2_value = word_of_nat v, en2_size = rng_size r\<rparr>) [k..<Suc (unat (rng_max r))],
          \<lparr>it_range = r, it_current = rng_max r + 1\<rparr>)"
  using assms(3,4)
proof (induction "Suc (unat (rng_max r)) - k" arbitrary: k)
  case 0
  then have k: "k = Suc (unat (rng_max r))" by simp
  have "Suc (unat (rng_max r)) < 2 ^ LENGTH(64)"
    using assms(2) unat_max_word [where ?'a = 64] unsigned_less [of "rng_max r", where ?'a = nat]
    by (auto simp: word_eq_iff_unsigned [where ?'a = nat])
  then have "unat (word_of_nat k :: u64) = Suc (unat (rng_max r))" using k by (simp only: unat_word_of_nat)
  then have "rng_max r < word_of_nat k" by (simp add: word_less_nat_alt)
  then show ?case using k by (simp add: iter_next_def add.commute)
next
  case (Suc m)
  then have k: "k \<le> unat (rng_max r)" by simp
  then have "k < 2 ^ LENGTH(64)" using unsigned_less [of "rng_max r", where ?'a = nat] by (metis le_less_trans)
  then have u: "unat (word_of_nat k :: u64) = k" by (rule unat_word_of_nat)
  then have le: "(word_of_nat k :: u64) \<le> rng_max r" using k by (simp add: word_le_nat_alt)
  then have ne: "(word_of_nat k :: u64) \<noteq> - 1" using assms(2) by (auto simp: word_order.extremum_unique)
  have IH: "iter_run (Suc (Suc (unat (rng_max r)) - Suc k)) \<lparr>it_range = r, it_current = word_of_nat (Suc k)\<rparr> =
    Some (map (\<lambda>v. \<lparr>en2_value = word_of_nat v, en2_size = rng_size r\<rparr>) [Suc k..<Suc (unat (rng_max r))],
          \<lparr>it_range = r, it_current = rng_max r + 1\<rparr>)"
    using Suc by (intro Suc.hyps) simp_all
  have "Suc (unat (rng_max r)) - k = Suc (Suc (unat (rng_max r)) - Suc k)" using k by simp
  moreover have "[k..<Suc (unat (rng_max r))] = k # [Suc k..<Suc (unat (rng_max r))]"
    using k by (intro upt_conv_Cons) simp
  ultimately show ?case
    using IH iter_next_step [OF assms(1) le] ne by (simp add: add.commute del: upt_Suc)
qed

text \<open>
  Iterating over a valid range that ends below \<open>u64::MAX\<close> yields every value of the range
  exactly once, in increasing order, each with the width of the range, and then stops.
\<close>

theorem iteration_complete:
  assumes "wf_range r" "rng_max r \<noteq> - 1"
  shows "iter_run (Suc (length (range_values r))) (range_iter r) =
    Some (map (\<lambda>v. \<lparr>en2_value = word_of_nat v, en2_size = rng_size r\<rparr>) (range_values r),
          \<lparr>it_range = r, it_current = rng_max r + 1\<rparr>)"
proof -
  have "unat (rng_min r) \<le> unat (rng_max r)" using assms(1) by (simp add: wf_range_def word_le_nat_alt)
  then show ?thesis using iter_run_from [OF assms, of "unat (rng_min r)"]
    by (simp add: range_values_def range_iter_def del: upt_Suc iter_run.simps)
qed

theorem iteration_complete_witness:
  "wf_range \<lparr>rng_min = 254, rng_max = 255, rng_size = 1\<rparr> \<and>
   iter_run 3 (range_iter \<lparr>rng_min = 254, rng_max = 255, rng_size = 1\<rparr>) =
     Some ([\<lparr>en2_value = 254, en2_size = 1\<rparr>, \<lparr>en2_value = 255, en2_size = 1\<rparr>],
       \<lparr>it_range = \<lparr>rng_min = 254, rng_max = 255, rng_size = 1\<rparr>, it_current = 256\<rparr>)"
proof -
  have wf: "wf_range \<lparr>rng_min = 254, rng_max = 255, rng_size = 1\<rparr>" by code_simp
  have v: "range_values \<lparr>rng_min = 254, rng_max = 255, rng_size = 1\<rparr> = [254, 255]"
    by (simp add: range_values_def upt_rec)
  have ne: "(255 :: u64) \<noteq> - 1" by simp
  have "length [254, 255 :: nat] = 2" "Suc 2 = 3" by simp_all
  with wf iteration_complete [OF wf] ne show ?thesis
    by (simp only: v extranonce2_range.simps list.map) simp
qed

text \<open>
  An extranonce2 on the wire: a value that \<open>new\<close> accepts takes exactly as many bytes in the
  coinbase as its width says, appended after what is there, and reads read_back from them.
\<close>

theorem extranonce2_wire:
  assumes "en2_new v w = Inr e"
  shows "extend_vec e pre = pre @ en2_bytes e \<and> length (en2_bytes e) = unat w \<and>
    from_le (en2_bytes e) = v"
proof -
  have e: "e = \<lparr>en2_value = v, en2_size = w\<rparr>" "w \<le> 8" using assms by (auto simp: en2_new_def split: if_splits)
  then have "unat w \<le> 8" by (simp add: word_le_nat_alt)
  then show ?thesis using en2_bytes_value [OF assms] e
    by (simp add: extend_vec_en2_bytes) (simp add: en2_bytes_def)
qed

theorem extranonce2_wire_witness:
  "en2_new 0x01020304 4 = Inr \<lparr>en2_value = 0x01020304, en2_size = 4\<rparr> \<and>
   en2_bytes \<lparr>en2_value = 0x01020304, en2_size = 4\<rparr> = [4, 3, 2, 1] \<and>
   (from_le [4, 3, 2, 1] :: u64) = 0x01020304"
proof -
  have n: "en2_new 0x01020304 4 = Inr \<lparr>en2_value = 0x01020304, en2_size = 4\<rparr>" by code_simp
  have b: "en2_bytes \<lparr>en2_value = 0x01020304, en2_size = 4\<rparr> = [4, 3, 2, 1]" by code_simp
  from extranonce2_wire [OF n] n b show ?thesis by simp
qed

end
