(* ===== verification/Merkle_Job.thy ===== *)
theory Merkle_Job
  imports Extranonce2 Version_Template
begin

text \<open>
  Jobs as a source hands them to the scheduler, from \<open>mujina-miner/src/job_source/merkle.rs\<close> and
  \<open>job.rs\<close>: the two kinds of merkle root, the template a root is computed from for every
  extranonce2, job templates and shares. The \<open>bitcoin\<close> crate's coinbase parsing with its
  transaction id, and its double SHA-256, are parameters: \<open>txid\<close> maps the coinbase bytes to an
  error or 32 bytes, \<open>sha256d\<close> maps bytes to 32 bytes.
\<close>

type_synonym hash256 = "u8 list"

record merkle_root_template =
  mt_coinbase1 :: "u8 list"
  mt_extranonce1 :: "u8 list"
  mt_extranonce2_range :: extranonce2_range
  mt_coinbase2 :: "u8 list"
  mt_merkle_branches :: "hash256 list"

datatype merkle_root_kind = FixedRoot hash256 | ComputedRoot merkle_root_template

definition coinbase_bytes :: "merkle_root_template \<Rightarrow> extranonce2 \<Rightarrow> u8 list" where
  "coinbase_bytes t en2 = extend_vec en2 (mt_coinbase1 t @ mt_extranonce1 t) @ mt_coinbase2 t"

definition climb :: "(u8 list \<Rightarrow> hash256) \<Rightarrow> hash256 \<Rightarrow> hash256 list \<Rightarrow> hash256" where
  "climb sha256d leaf branches =
    foldl (\<lambda>current_hash branch. sha256d (current_hash @ branch)) leaf branches"

definition compute_merkle_root ::
  "(u8 list \<Rightarrow> 'e + hash256) \<Rightarrow> (u8 list \<Rightarrow> hash256) \<Rightarrow> merkle_root_template \<Rightarrow> extranonce2 \<Rightarrow> 'e + hash256" where
  "compute_merkle_root txid sha256d t en2 =
    (case txid (coinbase_bytes t en2) of
       Inl e \<Rightarrow> Inl e
     | Inr leaf \<Rightarrow> Inr (climb sha256d leaf (mt_merkle_branches t)))"

section \<open>Job templates and shares\<close>

record job_template =
  job_id :: string
  job_prev_blockhash :: hash256
  job_version :: version_template
  job_bits :: u32
  job_share_target :: u256
  job_time :: u32
  job_merkle_root :: merkle_root_kind

record share =
  share_job_id :: string
  share_nonce :: u32
  share_time :: u32
  share_version :: u32
  share_extranonce2 :: "extranonce2 option"

datatype 'e job_error = HeaderOnlyJob | CoinbaseError 'e

definition job_merkle_root_for ::
  "(u8 list \<Rightarrow> 'e + hash256) \<Rightarrow> (u8 list \<Rightarrow> hash256) \<Rightarrow> job_template \<Rightarrow> extranonce2 \<Rightarrow> 'e job_error + hash256" where
  "job_merkle_root_for txid sha256d job en2 =
    (case job_merkle_root job of
       ComputedRoot t \<Rightarrow>
         (case compute_merkle_root txid sha256d t en2 of Inl e \<Rightarrow> Inl (CoinbaseError e) | Inr h \<Rightarrow> Inr h)
     | FixedRoot _ \<Rightarrow> Inl HeaderOnlyJob)"

section \<open>Lemmas\<close>

lemma en2_bytes_inj:
  assumes "en2_new v w = Inr e" "en2_new v' w = Inr e'" "en2_bytes e = en2_bytes e'"
  shows "e = e'"
proof -
  have "v = v'" using en2_bytes_value [OF assms(1)] en2_bytes_value [OF assms(2)] assms(3) by simp
  with assms show ?thesis by simp
qed

lemma coinbase_bytes_inj:
  assumes "en2_new v w = Inr e" "en2_new v' w = Inr e'" "coinbase_bytes t e = coinbase_bytes t e'"
  shows "e = e'"
  using assms by (intro en2_bytes_inj [OF assms(1,2)]) (simp add: coinbase_bytes_def extend_vec_en2_bytes)

lemma climb_append: "climb h leaf (xs @ ys) = climb h (climb h leaf xs) ys"
  by (simp add: climb_def)

lemma climb_collision:
  "climb h a bs = climb h b bs \<Longrightarrow> a \<noteq> b \<Longrightarrow> \<exists>x y. x \<noteq> y \<and> h x = h y"
proof (induction bs arbitrary: a b)
  case Nil
  then show ?case by (simp add: climb_def)
next
  case (Cons c bs)
  show ?case
  proof (cases "h (a @ c) = h (b @ c)")
    case True
    then show ?thesis using Cons.prems(2) by (metis append_same_eq)
  next
    case False
    then show ?thesis using Cons.prems(1) by (intro Cons.IH) (simp_all add: climb_def)
  qed
qed

section \<open>Properties\<close>

text \<open>
  Every extranonce2 gives different work. Two different extranonce2 values of one job's width
  never share a merkle root unless the transaction id or the double hash has a
  collision, so a range of extranonce2 values is as many separate search spaces.
\<close>

theorem distinct_extranonce2_distinct_roots:
  assumes "job_merkle_root job = ComputedRoot t"
    and "en2_new v w = Inr e" "en2_new v' w = Inr e'" "v \<noteq> v'"
    and "job_merkle_root_for txid sha256d job e = Inr h" "job_merkle_root_for txid sha256d job e' = Inr h"
  shows "(\<exists>x y r. x \<noteq> y \<and> txid x = Inr r \<and> txid y = Inr r) \<or> (\<exists>x y. x \<noteq> y \<and> sha256d x = sha256d y)"
proof -
  have "e \<noteq> e'" using assms(2-4) by (auto simp: en2_new_def split: if_splits)
  then have ne: "coinbase_bytes t e \<noteq> coinbase_bytes t e'" using coinbase_bytes_inj [OF assms(2,3)] by blast
  from assms(1,5,6) obtain a b where ab: "txid (coinbase_bytes t e) = Inr a" "txid (coinbase_bytes t e') = Inr b"
    and c: "climb sha256d a (mt_merkle_branches t) = climb sha256d b (mt_merkle_branches t)"
    by (auto simp: job_merkle_root_for_def compute_merkle_root_def split: sum.splits)
  show ?thesis
  proof (cases "a = b")
    case True
    with ab ne show ?thesis by blast
  next
    case False
    with climb_collision [OF c] show ?thesis by blast
  qed
qed

theorem distinct_extranonce2_distinct_roots_witness:
  "let t = \<lparr>mt_coinbase1 = [1], mt_extranonce1 = [2], mt_extranonce2_range = \<lparr>rng_min = 0, rng_max = 1, rng_size = 1\<rparr>,
            mt_coinbase2 = [3], mt_merkle_branches = [[7]]\<rparr>;
       job = \<lparr>job_id = ''a'', job_prev_blockhash = [], job_version = \<lparr>vt_base = 0, vt_gp_bits_mask = (0, 0)\<rparr>,
              job_bits = 0, job_share_target = 0, job_time = 0, job_merkle_root = ComputedRoot t\<rparr>;
       short = (\<lambda>bs :: u8 list. take 1 bs)
   in job_merkle_root_for (Inr :: u8 list \<Rightarrow> unit + u8 list) short job \<lparr>en2_value = 0, en2_size = 1\<rparr> = Inr [1] \<and>
      job_merkle_root_for (Inr :: u8 list \<Rightarrow> unit + u8 list) short job \<lparr>en2_value = 1, en2_size = 1\<rparr> = Inr [1] \<and>
      (\<exists>x y. x \<noteq> y \<and> short x = short y)"
proof -
  let ?t = "\<lparr>mt_coinbase1 = [1], mt_extranonce1 = [2], mt_extranonce2_range = \<lparr>rng_min = 0, rng_max = 1, rng_size = 1\<rparr>,
            mt_coinbase2 = [3], mt_merkle_branches = [[7]]\<rparr>"
  let ?job = "\<lparr>job_id = ''a'', job_prev_blockhash = [], job_version = \<lparr>vt_base = 0, vt_gp_bits_mask = (0, 0)\<rparr>,
              job_bits = 0, job_share_target = 0, job_time = 0, job_merkle_root = ComputedRoot ?t\<rparr>"
  let ?short = "\<lambda>bs :: u8 list. take 1 bs"
  have j: "job_merkle_root ?job = ComputedRoot ?t" by simp
  have n0: "en2_new 0 1 = Inr \<lparr>en2_value = 0, en2_size = 1\<rparr>" and n1: "en2_new 1 1 = Inr \<lparr>en2_value = 1, en2_size = 1\<rparr>"
    by code_simp+
  have r0: "job_merkle_root_for (Inr :: u8 list \<Rightarrow> unit + u8 list) ?short ?job \<lparr>en2_value = 0, en2_size = 1\<rparr> = Inr [1]"
    and r1: "job_merkle_root_for (Inr :: u8 list \<Rightarrow> unit + u8 list) ?short ?job \<lparr>en2_value = 1, en2_size = 1\<rparr> = Inr [1]"
    by (simp_all add: job_merkle_root_for_def compute_merkle_root_def coinbase_bytes_def extend_vec_def climb_def)
  from distinct_extranonce2_distinct_roots [OF j n0 n1 zero_neq_one r0 r1]
  have "\<exists>x y. x \<noteq> y \<and> ?short x = ?short y" by auto
  with r0 r1 show ?thesis by (simp add: Let_def)
qed

end
