(* ===== verification/Target_Difficulty.thy ===== *)
theory Target_Difficulty
  imports Prelude
begin

text \<open>
  Targets and difficulties, from \<open>mujina-miner/src/u256.rs\<close>, \<open>types/difficulty.rs\<close>,
  \<open>types/bitcoin_impls.rs\<close>, \<open>types/share_rate.rs\<close> and \<open>types/hash_rate.rs\<close>. A \<open>U256\<close> (a wrapped
  \<open>ruint\<close> integer) and a \<open>Target\<close> are the 256-bit word they hold; \<open>Target::MAX\<close>, a constant of the
  \<open>bitcoin\<close> crate, is the parameter \<open>tmax\<close>. Floating point values are a type parameter with
  the operations the code applies to them.
\<close>

section \<open>256-bit arithmetic\<close>

definition u256_from_le_bytes :: "u8 list \<Rightarrow> u256" where
  "u256_from_le_bytes bytes = from_le bytes"

definition u256_to_le_bytes :: "u256 \<Rightarrow> u8 list" where
  "u256_to_le_bytes w = to_le 32 w"

definition saturating_to_u64 :: "u256 \<Rightarrow> u64" where
  "saturating_to_u64 w = (if drop_bit 64 w = 0 then ucast w else - 1)"

definition leading_zeros :: "u256 \<Rightarrow> nat" where
  "leading_zeros w = length (takeWhile (\<lambda>i. \<not> bit w i) (rev [0..<256]))"

text \<open>\<open>None\<close> is the panic of a division by zero.\<close>

definition shifted_div :: "u256 \<Rightarrow> nat \<Rightarrow> u64 \<Rightarrow> u256 option" where
  "shifted_div self shift divisor =
    (if self \<noteq> 0 \<and> 512 < (256 - leading_zeros self) + shift then Some (- 1)
     else if divisor = 0 then None
     else let wide = ucast self :: 512 word;
              result = push_bit shift wide div ucast divisor
          in if drop_bit 256 result \<noteq> 0 then Some (- 1) else Some (ucast result))"

definition u256_div_u64 :: "u256 \<Rightarrow> u64 \<Rightarrow> u256 option" where
  "u256_div_u64 self rhs = (if rhs = 0 then None else Some (self div ucast rhs))"

record 'f f64_ops =
  f64_pos_finite :: "'f \<Rightarrow> bool"
  f64_integer_decode :: "'f \<Rightarrow> u64 \<times> int"

definition u256_div_f64 :: "('f, 'm) f64_ops_scheme \<Rightarrow> u256 \<Rightarrow> 'f \<Rightarrow> u256 option" where
  "u256_div_f64 F self rhs =
    (if \<not> f64_pos_finite F rhs then None
     else let (mantissa, exponent) = f64_integer_decode F rhs in
       if 0 \<le> exponent
       then let shift = nat exponent in
         if 256 < shift + 53 then Some 0
         else let divisor = push_bit shift (ucast mantissa) :: u256
              in if divisor = 0 then None else Some (self div divisor)
       else shifted_div self (nat (- exponent)) mantissa)"

section \<open>Difficulty\<close>

datatype difficulty = Difficulty (to_target: u256)

definition difficulty_max :: difficulty where
  "difficulty_max = Difficulty 0"

definition from_target :: "u256 \<Rightarrow> difficulty" where
  "from_target target = Difficulty target"

definition difficulty_from_f64 :: "('f, 'm) f64_ops_scheme \<Rightarrow> u256 \<Rightarrow> 'f \<Rightarrow> difficulty option" where
  "difficulty_from_f64 F tmax value =
    (if \<not> f64_pos_finite F value then Some (Difficulty tmax)
     else map_option Difficulty (u256_div_f64 F tmax value))"

definition difficulty_from_u64 :: "u256 \<Rightarrow> u64 \<Rightarrow> difficulty option" where
  "difficulty_from_u64 tmax diff =
    (if diff = 0 then Some (Difficulty tmax) else map_option Difficulty (u256_div_u64 tmax diff))"

definition difficulty_from_hash :: "u8 list \<Rightarrow> difficulty" where
  "difficulty_from_hash h =
    (let hash_u256 = u256_from_le_bytes h
     in if hash_u256 = 0 then difficulty_max else Difficulty hash_u256)"

text \<open>\<open>Ord\<close>: a smaller target is a higher difficulty.\<close>

definition difficulty_le :: "difficulty \<Rightarrow> difficulty \<Rightarrow> bool" where
  "difficulty_le a b \<longleftrightarrow> to_target b \<le> to_target a"

definition difficulty_lt :: "difficulty \<Rightarrow> difficulty \<Rightarrow> bool" where
  "difficulty_lt a b \<longleftrightarrow> to_target b < to_target a"

instantiation difficulty :: linorder
begin

definition less_eq_difficulty :: "difficulty \<Rightarrow> difficulty \<Rightarrow> bool" where
  "less_eq_difficulty = difficulty_le"

definition less_difficulty :: "difficulty \<Rightarrow> difficulty \<Rightarrow> bool" where
  "less_difficulty = difficulty_lt"

instance
  by standard
    (auto simp: less_eq_difficulty_def less_difficulty_def difficulty_le_def difficulty_lt_def difficulty.expand)

end

section \<open>Hash rates\<close>

text \<open>\<open>HashRate\<close>: the checked sum is the one of a debug build.\<close>

type_synonym hash_rate = u64

definition hash_rate_add :: "hash_rate \<Rightarrow> hash_rate \<Rightarrow> hash_rate option" where
  "hash_rate_add a b = add_chk a b"

definition hash_rate_sum :: "hash_rate list \<Rightarrow> hash_rate option" where
  "hash_rate_sum rs = foldl (\<lambda>acc x. Option.bind acc (\<lambda>a. hash_rate_add a x)) (Some 0) rs"

text \<open>\<open>ShareRate::to_target\<close>, on the number of hashes expected per share interval.\<close>

definition share_rate_target ::
  "('f, 'm) f64_ops_scheme \<Rightarrow> ('d \<Rightarrow> hash_rate \<Rightarrow> 'f) \<Rightarrow> ('f \<Rightarrow> bool) \<Rightarrow> 'd \<Rightarrow> hash_rate \<Rightarrow> u256 option" where
  "share_rate_target F hashes_in le_one interval hashrate =
    (let hashes_per_share = hashes_in interval hashrate
     in if le_one hashes_per_share then Some (- 1) else u256_div_f64 F (- 1) hashes_per_share)"

section \<open>Lemmas\<close>

lemma unat_ucast_up:
  "LENGTH('a) \<le> LENGTH('b) \<Longrightarrow> unat (ucast (w :: 'a::len word) :: 'b::len word) = unat w"
  by (rule bit_eqI) (auto simp: bit_unsigned_iff bit_ucast_iff dest: bit_imp_le_length)

lemma unat_push_bit:
  "unat w * 2 ^ n < 2 ^ LENGTH('a) \<Longrightarrow> unat (push_bit n w :: 'a::len word) = unat w * 2 ^ n"
proof -
  assume "unat w * 2 ^ n < 2 ^ LENGTH('a)"
  moreover have "unat (push_bit n w) = take_bit LENGTH('a) (push_bit n (unat w))"
    by (rule bit_eqI) (auto simp: bit_unsigned_iff bit_push_bit_iff bit_take_bit_iff dest: bit_imp_le_length)
  ultimately show ?thesis by (simp only: push_bit_eq_mult take_bit_nat_eq_self)
qed

lemma hash_rate_sum_from:
  "foldl (\<lambda>acc x. Option.bind acc (\<lambda>a. hash_rate_add a x)) None rs = None"
  by (induction rs) simp_all

lemma hash_rate_fold:
  "foldl (\<lambda>acc x. Option.bind acc (\<lambda>a. hash_rate_add a x)) (Some s) rs =
    (if unat s + (\<Sum>r\<leftarrow>rs. unat r) < 2 ^ 64 then Some (s + sum_list rs) else None)"
proof (induction rs arbitrary: s)
  case Nil
  then show ?case using unsigned_less [of s, where ?'a = nat] by simp
next
  case (Cons r rs)
  show ?case
  proof (cases "unat s + unat r < 2 ^ 64")
    case True
    then have "hash_rate_add s r = Some (s + r)" by (simp add: hash_rate_add_def add_chk_def)
    moreover from this have "unat (s + r) = unat s + unat r"
      unfolding hash_rate_add_def by (rule unat_add_chk)
    ultimately show ?thesis using Cons.IH [of "s + r"] by (simp add: add.assoc)
  next
    case False
    then have "hash_rate_add s r = None" by (simp add: hash_rate_add_def add_chk_def)
    then show ?thesis using False by (simp add: hash_rate_sum_from)
  qed
qed

lemma leading_zeros_bound:
  assumes "w \<noteq> 0"
  shows "2 ^ (255 - leading_zeros w) \<le> unat w" "leading_zeros w < 256"
proof -
  let ?P = "\<lambda>i. \<not> bit w i"
  from assms obtain k where k: "bit w k" by (metis bit_eqI bit_0_eq bot_apply bot_bool_def)
  then have k256: "k < 256" using bit_imp_le_length [OF k] by simp
  have "\<exists>x \<in> set (rev [0..<256]). \<not> ?P x" using k k256 by (intro bexI [of _ k]) auto
  then have lt: "leading_zeros w < length (rev [0..<256])"
    unfolding leading_zeros_def by (metis takeWhile_eq_all_conv length_takeWhile_le nat_less_le takeWhile_eq_take take_all_iff linorder_le_less_linear)
  then show lz: "leading_zeros w < 256" by simp
  have "\<not> ?P (rev [0..<256] ! leading_zeros w)"
    using lt unfolding leading_zeros_def by (intro nth_length_takeWhile) simp
  then have "bit w (255 - leading_zeros w)" using lz by (simp add: rev_nth)
  then have "bit (unat w) (255 - leading_zeros w)" by (simp add: bit_unsigned_iff bit_imp_le_length)
  then show "2 ^ (255 - leading_zeros w) \<le> unat w"
    by (metis bit_iff_odd div_less dvd_0_right linorder_not_le)
qed


lemma drop_bit_0_iff_less: "n \<le> LENGTH('a) \<Longrightarrow> drop_bit n (w :: 'a::len word) = 0 \<longleftrightarrow> unat w < 2 ^ n"
proof -
  have "drop_bit n w = 0 \<longleftrightarrow> unat (drop_bit n w) = 0" by (simp add: unat_eq_zero)
  also have "unat (drop_bit n w) = drop_bit n (unat w)"
    by (rule bit_eqI) (auto simp: bit_unsigned_iff bit_drop_bit_eq dest: bit_imp_le_length)
  also have "drop_bit n (unat w) = 0 \<longleftrightarrow> unat w < 2 ^ n" by (simp add: drop_bit_eq_div div_eq_0_iff)
  finally show ?thesis .
qed

lemma leading_zeros_upper: "unat w < 2 ^ (256 - leading_zeros w)"
proof -
  have "\<not> bit w (256 - leading_zeros w + k)" for k
  proof (cases "256 - leading_zeros w + k < 256")
    case True
    let ?i = "256 - leading_zeros w + k" and ?xs = "takeWhile (\<lambda>i. \<not> bit w i) (rev [0..<256])"
    have i: "255 - ?i < length ?xs" using True unfolding leading_zeros_def by linarith
    then have "?xs ! (255 - ?i) = rev [0..<256] ! (255 - ?i)" by (rule takeWhile_nth)
    also have "\<dots> = ?i" using True by (simp add: rev_nth)
    finally have "?i \<in> set ?xs" using i by (metis nth_mem)
    then show ?thesis by (auto dest: set_takeWhileD)
  next
    case False
    then show ?thesis by (auto dest: bit_imp_le_length)
  qed
  then have "drop_bit (256 - leading_zeros w) w = 0" by (intro bit_word_eqI) (simp add: bit_simps)
  then show ?thesis by (subst (asm) drop_bit_0_iff_less) auto
qed

lemma shifted_div_value:
  assumes "d \<noteq> 0"
  shows "\<exists>r. shifted_div a s d = Some r \<and> unat r = min (unat a * 2 ^ s div unat d) (2 ^ 256 - 1)"
proof -
  have dpos: "0 < unat d" using assms by (simp add: unat_gt_0)
  have d64: "unat d < 2 ^ 64" using unsigned_less [of d, where ?'a = nat] by simp
  have m1: "unat (- 1 :: u256) = 2 ^ 256 - 1" using unat_max_word [where ?'a = 256] by simp
  consider (sat) "a \<noteq> 0" "512 < (256 - leading_zeros a) + s" | (zero) "a = 0"
    | (fit) "a \<noteq> 0" "(256 - leading_zeros a) + s \<le> 512" by linarith
  then show ?thesis
  proof cases
    case sat
    have "(2 :: nat) ^ (448 + 64) \<le> 2 ^ (255 - leading_zeros a + s)"
      using sat leading_zeros_bound(2) [OF sat(1)] by (intro power_increasing) auto
    also have "\<dots> \<le> unat a * 2 ^ s" using leading_zeros_bound(1) [OF sat(1)] by (simp add: power_add)
    finally have "2 ^ 448 * unat d \<le> unat a * 2 ^ s"
      using d64 mult_le_mono2 [of "unat d" "2 ^ 64" "2 ^ 448"] by (simp add: power_add)
    then have "2 ^ 448 \<le> unat a * 2 ^ s div unat d" using dpos by (simp add: less_eq_div_iff_mult_less_eq)
    moreover have "(2 :: nat) ^ 256 - 1 \<le> 2 ^ 448" by simp
    ultimately have "min (unat a * 2 ^ s div unat d) (2 ^ 256 - 1) = 2 ^ 256 - 1" by linarith
    then show ?thesis using sat by (simp add: shifted_div_def m1)
  next
    case zero
    then show ?thesis using assms by (simp add: shifted_div_def)
  next
    case fit
    have lz: "unat a < 2 ^ (256 - leading_zeros a)" by (rule leading_zeros_upper)
    have "unat a * 2 ^ s < 2 ^ (256 - leading_zeros a) * 2 ^ s" using lz by simp
    also have "\<dots> = 2 ^ (256 - leading_zeros a + s)" by (simp only: power_add)
    also have "\<dots> \<le> 2 ^ 512" using fit(2) by (intro power_increasing) simp_all
    finally have b: "unat a * 2 ^ s < 2 ^ 512" .
    let ?w = "push_bit s (ucast a) :: 512 word"
    have ua: "unat (ucast a :: 512 word) = unat a" by (rule unat_ucast_up) simp
    have w: "unat ?w = unat a * 2 ^ s"
      using b unat_push_bit [of "ucast a :: 512 word" s] by (simp only: ua) simp
    have ud: "unat (ucast d :: 512 word) = unat d" by (rule unat_ucast_up) simp
    let ?q = "?w div ucast d"
    have q: "unat ?q = unat a * 2 ^ s div unat d" by (simp only: unat_div w ud)
    have "drop_bit 256 ?q = 0 \<longleftrightarrow> unat ?q < 2 ^ 256" by (rule drop_bit_0_iff_less) simp
    moreover have "unat (ucast ?q :: u256) = unat ?q" if "unat ?q < 2 ^ 256"
      using that by (simp add: unsigned_ucast_eq take_bit_nat_eq_self)
    ultimately show ?thesis using fit assms by (auto simp: shifted_div_def Let_def m1 q min_def)
  qed
qed


text \<open>
  What \<open>integer_decode\<close> promises of a positive finite double of value \<open>val x\<close>: a mantissa below
  \<open>2^53\<close>, of full precision unless the exponent is negative, and the value is mantissa times
  two to the exponent.
\<close>

definition f64_law :: "('f, 'm) f64_ops_scheme \<Rightarrow> ('f \<Rightarrow> rat) \<Rightarrow> bool" where
  "f64_law F val \<longleftrightarrow> (\<forall>x m e. f64_pos_finite F x \<longrightarrow> f64_integer_decode F x = (m, e) \<longrightarrow>
     0 < m \<and> unat m < 2 ^ 53 \<and> (0 \<le> e \<longrightarrow> 2 ^ 52 \<le> unat m) \<and> val x = of_nat (unat m) * 2 powi e)"

lemma u256_div_f64_value:
  assumes "f64_law F val" "f64_pos_finite F x"
  shows "\<exists>r. u256_div_f64 F a x = Some r \<and>
    int (unat r) = min \<lfloor>of_nat (unat a) / val x\<rfloor> (2 ^ 256 - 1)"
proof -
  obtain m e where d: "f64_integer_decode F x = (m, e)" by fastforce
  with assms have m: "0 < m" "unat m < 2 ^ 53" and norm: "0 \<le> e \<Longrightarrow> 2 ^ 52 \<le> unat m"
    and v: "val x = of_nat (unat m) * 2 powi e" by (auto simp: f64_law_def)
  have mpos: "0 < unat m" using m(1) by (simp add: unat_gt_0)
  have a256: "unat a < 2 ^ 256" using unsigned_less [of a, where ?'a = nat] by simp
  show ?thesis
  proof (cases "0 \<le> e")
    case True
    then obtain n where n: "e = int n" using nonneg_int_cases by blast
    have "of_nat (unat a) / val x = (of_nat (unat a) / of_nat (unat m * 2 ^ n) :: rat)" by (simp add: v n)
    then have fl: "\<lfloor>of_nat (unat a) / val x\<rfloor> = int (unat a div (unat m * 2 ^ n))"
      by (simp only: floor_divide_of_nat_eq)
    have "unat a div (unat m * 2 ^ n) < 2 ^ 256" using a256 by (meson div_le_dividend le_less_trans)
    then have "int (unat a div (unat m * 2 ^ n)) < 2 ^ 256"
      by (metis of_nat_less_iff of_nat_numeral of_nat_power)
    then have mn: "min \<lfloor>of_nat (unat a) / val x\<rfloor> (2 ^ 256 - 1) = int (unat a div (unat m * 2 ^ n))"
      unfolding fl by (intro min_absorb1) simp
    show ?thesis
    proof (cases "256 < n + 53")
      case big: True
      have "(2 :: nat) ^ 256 = 2 ^ 52 * 2 ^ 204" by (simp flip: power_add)
      also have "\<dots> \<le> unat m * 2 ^ n"
        using norm [OF True] big by (intro mult_le_mono power_increasing) auto
      finally have "unat a div (unat m * 2 ^ n) = 0" using a256 by simp
      then show ?thesis using mn n big assms(2) d by (simp add: u256_div_f64_def)
    next
      case small: False
      have "unat m * 2 ^ n < 2 ^ 53 * 2 ^ 203"
        using m(2) small by (intro mult_less_le_imp_less power_increasing) auto
      also have "(2 :: nat) ^ 53 * 2 ^ 203 = 2 ^ 256" by (simp flip: power_add)
      finally have lt: "unat m * 2 ^ n < 2 ^ 256" .
      let ?d = "push_bit n (ucast m) :: u256"
      have um: "unat (ucast m :: u256) = unat m" by (rule unat_ucast_up) simp
      have ud: "unat ?d = unat m * 2 ^ n"
        using lt unat_push_bit [of "ucast m :: u256" n] by (simp only: um) simp
      then have nz: "?d \<noteq> 0" using mpos by (metis mult_eq_0_iff not_gr0 power_not_zero unsigned_0 zero_neq_numeral)
      have "u256_div_f64 F a x = Some (a div ?d)" using n small assms(2) d nz by (simp add: u256_div_f64_def Let_def)
      moreover have "unat (a div ?d) = unat a div (unat m * 2 ^ n)" by (simp only: unat_div ud)
      ultimately have "u256_div_f64 F a x = Some (a div ?d)" "int (unat (a div ?d)) = min \<lfloor>of_nat (unat a) / val x\<rfloor> (2 ^ 256 - 1)"
        unfolding mn by (simp_all only:)
      then show ?thesis by blast
    qed
  next
    case False
    define n where "n = nat (- e)"
    with False have n: "e = - int n" by simp
    have "of_nat (unat a) / val x = (of_nat (unat a * 2 ^ n) / of_nat (unat m) :: rat)"
      by (simp add: v n power_int_minus divide_inverse ac_simps)
    then have fl: "\<lfloor>of_nat (unat a) / val x\<rfloor> = int (unat a * 2 ^ n div unat m)"
      by (simp only: floor_divide_of_nat_eq)
    have "m \<noteq> 0" using m(1) by simp
    from shifted_div_value [OF this, of a n] obtain r
      where r: "shifted_div a n m = Some r" "unat r = min (unat a * 2 ^ n div unat m) (2 ^ 256 - 1)" by blast
    have "int (unat r) = min \<lfloor>of_nat (unat a) / val x\<rfloor> (2 ^ 256 - 1)"
      unfolding fl r(2) by (simp add: min_def)
    moreover have "u256_div_f64 F a x = Some r"
      using r(1) False n d assms(2) by (simp add: u256_div_f64_def)
    ultimately show ?thesis by blast
  qed
qed

section \<open>Properties\<close>

text \<open>
  Dividing a 256-bit target by a double loses nothing: whatever the magnitude of a positive
  finite divisor, the quotient is the floor of the exact rational quotient, capped at the
  largest 256-bit value, and the division never panics.
\<close>

theorem f64_division_exact:
  assumes "f64_law F val"
  shows "case u256_div_f64 F a x of
      Some r \<Rightarrow> f64_pos_finite F x \<and> int (unat r) = min \<lfloor>of_nat (unat a) / val x\<rfloor> (2 ^ 256 - 1)
    | None \<Rightarrow> \<not> f64_pos_finite F x"
proof (cases "f64_pos_finite F x")
  case True
  then show ?thesis using u256_div_f64_value [OF assms True, of a] by auto
next
  case False
  then show ?thesis by (simp add: u256_div_f64_def)
qed

text \<open>Doubles as mantissa and exponent, an instance of the interface that computes.\<close>

definition dyadic_ops :: "(u64 \<times> int) f64_ops" where
  "dyadic_ops = \<lparr>f64_pos_finite = (\<lambda>(m, e). 2 ^ 52 \<le> unat m \<and> unat m < 2 ^ 53), f64_integer_decode = id\<rparr>"

definition dyadic_val :: "u64 \<times> int \<Rightarrow> rat" where
  "dyadic_val x = of_nat (unat (fst x)) * 2 powi snd x"

lemma dyadic_law: "f64_law dyadic_ops dyadic_val"
proof -
  have "0 < m" if "2 ^ 52 \<le> unat m" for m :: u64
    using that by (metis le_zero_eq power_not_zero unsigned_0 word_gt_0 zero_neq_numeral)
  then show ?thesis by (auto simp: f64_law_def dyadic_ops_def dyadic_val_def)
qed

theorem f64_division_exact_witness:
  "f64_law dyadic_ops dyadic_val \<and>
   (case u256_div_f64 dyadic_ops 1000 (0x18000000000000, -51) of
      Some r \<Rightarrow> int (unat r) = min \<lfloor>1000 / dyadic_val (0x18000000000000, -51)\<rfloor> (2 ^ 256 - 1)
    | None \<Rightarrow> False)"
proof -
  have "f64_pos_finite dyadic_ops (0x18000000000000, -51)" by (simp add: dyadic_ops_def)
  then show ?thesis
    using f64_division_exact [OF dyadic_law, where a = 1000 and x = "(0x18000000000000, -51)"] dyadic_law
    by (auto split: option.splits)
qed

text \<open>
  The integer difficulties a pool sends give the exact reciprocal target: the target times
  the difficulty does not exceed the maximum target and one more would, zero means the
  easiest target, and a larger difficulty never gives an easier one.
\<close>

theorem integer_difficulty:
  "\<exists>t. difficulty_from_u64 tmax d = Some (Difficulty t) \<and>
    (if d = 0 then t = tmax
     else unat t * unat d \<le> unat tmax \<and> unat tmax < Suc (unat t) * unat d) \<and>
    (\<forall>d' t'. d' \<noteq> 0 \<and> d' \<le> d \<and> difficulty_from_u64 tmax d' = Some t' \<longrightarrow> t' \<le> Difficulty t)"
proof -
  have ud: "unat (ucast k :: u256) = unat k" for k :: u64
    by (rule unat_ucast_up) simp
  have q: "unat (tmax div ucast k) = unat tmax div unat k" for k :: u64
    by (simp only: unat_div ud)
  have mono: "tmax div ucast d \<le> tmax div ucast d'" if "d' \<noteq> 0" "d' \<le> d" for d' :: u64
    using that by (simp add: word_le_nat_alt q div_le_mono2 unat_gt_0)
  have pos: "0 < unat d" if "d \<noteq> 0" using that by (simp add: unat_gt_0)
  show ?thesis
  proof (cases "d = 0")
    case True
    then show ?thesis by (auto simp: difficulty_from_u64_def)
  next
    case False
    have "unat tmax < Suc (unat tmax div unat d) * unat d"
      using dividend_less_div_times [OF pos [OF False], of "unat tmax"] by (simp add: algebra_simps)
    then show ?thesis
      using False mono by (auto simp: difficulty_from_u64_def u256_div_u64_def q less_eq_difficulty_def difficulty_le_def)
  qed
qed

theorem integer_difficulty_witness:
  "\<exists>t. difficulty_from_u64 (2 ^ 224) 3 = Some (Difficulty t) \<and> unat t * 3 \<le> 2 ^ 224 \<and> Difficulty (2 ^ 224) \<le> Difficulty t"
proof -
  obtain t where t: "difficulty_from_u64 (2 ^ 224) 3 = Some (Difficulty t)" "unat t * unat (3 :: u64) \<le> unat (2 ^ 224 :: u256)"
    and m: "\<And>d' t'. d' \<noteq> 0 \<Longrightarrow> d' \<le> (3 :: u64) \<Longrightarrow> difficulty_from_u64 (2 ^ 224) d' = Some t' \<Longrightarrow> t' \<le> Difficulty t"
    using integer_difficulty [of "2 ^ 224" 3] by auto
  have "difficulty_from_u64 (2 ^ 224) 1 = Some (Difficulty (2 ^ 224))"
    by (simp add: difficulty_from_u64_def u256_div_u64_def)
  then have "Difficulty (2 ^ 224) \<le> Difficulty t" by (intro m [of 1]) simp_all
  with t show ?thesis by auto
qed

text \<open>
  The order on difficulties is the order of work: a hash reaches a difficulty in that order
  exactly when, read as a little-endian number, it does not exceed the target, and turning a
  hash into a difficulty loses nothing.
\<close>

theorem hash_meets_difficulty:
  assumes "length h = 32"
  shows "(d \<le> difficulty_from_hash h \<longleftrightarrow> from_le h \<le> to_target d) \<and>
    u256_to_le_bytes (to_target (difficulty_from_hash h)) = h \<and> difficulty_from_hash h \<le> difficulty_max"
proof -
  have t: "to_target (difficulty_from_hash h) = from_le h"
    by (simp add: difficulty_from_hash_def Let_def u256_from_le_bytes_def difficulty_max_def)
  have "to_le 32 (from_le h :: u256) = h" using assms by (intro to_le_from_le) simp_all
  then show ?thesis by (simp add: less_eq_difficulty_def difficulty_le_def t u256_to_le_bytes_def difficulty_max_def)
qed

theorem hash_meets_difficulty_witness:
  "(Difficulty (2 ^ 224) \<le> difficulty_from_hash (replicate 27 0 @ [0xff, 0, 0, 0, 0])) \<longleftrightarrow>
   (from_le (replicate 27 0 @ [0xff, 0, 0, 0, 0]) \<le> (2 ^ 224 :: u256))"
  using hash_meets_difficulty [of "replicate 27 0 @ [0xff, 0, 0, 0, 0]" "Difficulty (2 ^ 224)"] by simp

end
