(* ===== verification/Estimator.thy ===== *)
theory Estimator
  imports Target_Difficulty
begin

text \<open>
  The windowed hash rate estimator (\<open>mujina-miner/src/types/hashrate_estimator.rs\<close>) and the
  debounced alarm (\<open>types/debounced_alarm.rs\<close>). An \<open>Instant\<close> and a \<open>Duration\<close> are natural
  numbers of nanoseconds, an \<open>Instant\<close> counted from the earliest one the platform can
  represent, so that \<open>checked_sub\<close> fails below it.
\<close>

section \<open>The hash rate estimator\<close>

record estimator =
  est_window :: nat
  est_min_samples :: nat
  est_max_samples :: nat
  est_samples :: "(nat \<times> u256) list"
  est_total_work :: u256

definition with_limits :: "nat \<Rightarrow> nat \<Rightarrow> nat \<Rightarrow> estimator" where
  "with_limits window min_samples max_samples =
    \<lparr>est_window = window, est_min_samples = min_samples, est_max_samples = max_samples,
     est_samples = [], est_total_work = 0\<rparr>"

definition estimator_new :: "nat \<Rightarrow> estimator" where
  "estimator_new window = with_limits window 5 (window div 10 ^ 9 * 10)"

fun prune :: "nat \<Rightarrow> (nat \<times> u256) list \<Rightarrow> u256 \<Rightarrow> (nat \<times> u256) list \<times> u256" where
  "prune cutoff [] tot = ([], tot)"
| "prune cutoff ((t, w) # rest) tot =
     (if cutoff \<le> t then ((t, w) # rest, tot) else prune cutoff rest (tot - w))"

definition prune_before :: "estimator \<Rightarrow> nat \<Rightarrow> estimator" where
  "prune_before s cutoff =
    (let (samples, tot) = prune cutoff (est_samples s) (est_total_work s)
     in s\<lparr>est_samples := samples, est_total_work := tot\<rparr>)"

definition checked_cutoff :: "nat \<Rightarrow> nat \<Rightarrow> nat" where
  "checked_cutoff ts window = (if window \<le> ts then ts - window else ts)"

fun cap_samples :: "nat \<Rightarrow> (nat \<times> u256) list \<Rightarrow> u256 \<Rightarrow> (nat \<times> u256) list \<times> u256" where
  "cap_samples mx [] tot = ([], tot)"
| "cap_samples mx ((t, w) # rest) tot =
     (if mx < Suc (length rest) then cap_samples mx rest (tot - w) else ((t, w) # rest, tot))"

definition record_at :: "estimator \<Rightarrow> nat \<Rightarrow> u256 \<Rightarrow> estimator" where
  "record_at s ts work =
    (let s = prune_before s (checked_cutoff ts (est_window s));
         (samples, tot) = cap_samples (est_max_samples s) (est_samples s @ [(ts, work)]) (est_total_work s + work)
     in s\<lparr>est_samples := samples, est_total_work := tot\<rparr>)"

definition hashrate_at :: "estimator \<Rightarrow> nat \<Rightarrow> hash_rate option \<times> estimator" where
  "hashrate_at s now =
    (let s = prune_before s (checked_cutoff now (est_window s)) in
     case est_samples s of
       [] \<Rightarrow> (Some 0, s)
     | (oldest, _) # _ \<Rightarrow>
         let secs = (now - oldest) div 10 ^ 9 in
         if secs = 0 then (Some 0, s)
         else (map_option saturating_to_u64 (u256_div_u64 (est_total_work s) (word_of_nat secs)), s))"

definition has_samples :: "estimator \<Rightarrow> bool" where
  "has_samples s \<longleftrightarrow> est_samples s \<noteq> []"

definition is_settled :: "estimator \<Rightarrow> bool" where
  "is_settled s \<longleftrightarrow> est_min_samples s \<le> length (est_samples s)"

definition settled_hashrate_at :: "estimator \<Rightarrow> nat \<Rightarrow> hash_rate option option \<times> estimator" where
  "settled_hashrate_at s now =
    (if is_settled s then (let (r, s') = hashrate_at s now in (map_option Some r, s')) else (Some None, s))"

section \<open>The debounced alarm\<close>

datatype alarm_status = Idle | Pending | Triggered | Active | Resolved

datatype alarm_state = StIdle | StTiming nat | StFired

record debounced_alarm =
  al_debounce :: nat
  al_state :: alarm_state

definition alarm_new :: "nat \<Rightarrow> debounced_alarm" where
  "alarm_new debounce = \<lparr>al_debounce = debounce, al_state = StIdle\<rparr>"

definition alarm_check :: "debounced_alarm \<Rightarrow> nat \<Rightarrow> bool \<Rightarrow> alarm_status \<times> debounced_alarm" where
  "alarm_check a now condition =
    (case (al_state a, condition) of
       (StIdle, False) \<Rightarrow> (Idle, a)
     | (StIdle, True) \<Rightarrow> (Pending, a\<lparr>al_state := StTiming now\<rparr>)
     | (StTiming _, False) \<Rightarrow> (Idle, a\<lparr>al_state := StIdle\<rparr>)
     | (StTiming since, True) \<Rightarrow>
         if al_debounce a \<le> now - since then (Triggered, a\<lparr>al_state := StFired\<rparr>) else (Pending, a)
     | (StFired, False) \<Rightarrow> (Resolved, a\<lparr>al_state := StIdle\<rparr>)
     | (StFired, True) \<Rightarrow> (Active, a))"

definition alarm_reset :: "debounced_alarm \<Rightarrow> debounced_alarm" where
  "alarm_reset a = a\<lparr>al_state := StIdle\<rparr>"

section \<open>The estimator keeps its total\<close>

definition est_inv :: "estimator \<Rightarrow> bool" where
  "est_inv s \<longleftrightarrow> est_total_work s = (\<Sum>(t, w)\<leftarrow>est_samples s. w)"

lemma prune_samples: "fst (prune c xs tot) = dropWhile (\<lambda>(t, w). t < c) xs"
  by (induction xs arbitrary: tot) auto

lemma prune_total:
  "snd (prune c xs ((\<Sum>(t, w)\<leftarrow>xs. w) + k)) = (\<Sum>(t, w)\<leftarrow>fst (prune c xs ((\<Sum>(t, w)\<leftarrow>xs. w) + k)). w) + k"
proof (induction xs)
  case (Cons x xs)
  have "w + s + k - w = s + k" for w s :: u256 by simp
  with Cons show ?case by (cases x) (auto simp: add.assoc)
qed simp

lemma cap_samples_samples: "fst (cap_samples mx xs tot) = drop (length xs - mx) xs"
proof (induction xs arbitrary: tot)
  case (Cons x xs)
  then show ?case by (cases x) (auto simp: Suc_diff_le)
qed simp

lemma cap_samples_total: "tot = (\<Sum>(t, w)\<leftarrow>xs. w) \<Longrightarrow> snd (cap_samples mx xs tot) = (\<Sum>(t, w)\<leftarrow>fst (cap_samples mx xs tot). w)"
  by (induction xs arbitrary: tot) auto

lemma prune_before_inv: "est_inv s \<Longrightarrow> est_inv (prune_before s c)"
  using prune_total [of c "est_samples s" 0] by (simp add: est_inv_def prune_before_def split_beta)

lemma prune_before_samples [simp]:
  "est_samples (prune_before s c) = dropWhile (\<lambda>(t, w). t < c) (est_samples s)"
  using prune_samples [of c "est_samples s" "est_total_work s"]
  by (simp add: prune_before_def split_beta)

lemma prune_before_params [simp]:
  "est_window (prune_before s c) = est_window s" "est_max_samples (prune_before s c) = est_max_samples s"
  "est_min_samples (prune_before s c) = est_min_samples s"
  by (simp_all add: prune_before_def split_beta)

lemma record_at_inv: "est_inv s \<Longrightarrow> est_inv (record_at s ts w)"
proof -
  assume "est_inv s"
  then have "est_inv (prune_before s (checked_cutoff ts (est_window s)))" by (rule prune_before_inv)
  then show ?thesis
    using cap_samples_total [OF refl, of "est_max_samples s" "est_samples (prune_before s (checked_cutoff ts (est_window s))) @ [(ts, w)]"]
    by (simp add: record_at_def Let_def est_inv_def split_beta)
qed

lemma record_at_params [simp]:
  "est_window (record_at s ts w) = est_window s" "est_max_samples (record_at s ts w) = est_max_samples s"
  "est_min_samples (record_at s ts w) = est_min_samples s"
  by (simp_all add: record_at_def Let_def split_beta)

lemma record_at_samples:
  "est_samples (record_at s ts w) =
    (let xs = dropWhile (\<lambda>(t, w). t < checked_cutoff ts (est_window s)) (est_samples s) @ [(ts, w)]
     in drop (length xs - est_max_samples s) xs)"
  using cap_samples_samples [of "est_max_samples s" "dropWhile (\<lambda>(t, w). t < checked_cutoff ts (est_window s)) (est_samples s) @ [(ts, w)]"]
  by (auto simp: record_at_def Let_def split_beta)


subsection \<open>What the samples are\<close>

definition last_n :: "nat \<Rightarrow> 'a list \<Rightarrow> 'a list" where
  "last_n m xs = drop (length xs - m) xs"

lemma last_n_all: "length xs \<le> m \<Longrightarrow> last_n m xs = xs"
  by (simp add: last_n_def)

lemma last_n_Cons: "last_n m (x # xs) = (if length xs < m then x # xs else last_n m xs)"
  by (auto simp: last_n_def Suc_diff_le)

lemma last_n_snoc: "last_n m (last_n m xs @ [x]) = last_n m (xs @ [x])"
  by (cases "m = 0"; cases "length xs \<le> m") (auto simp: last_n_def Suc_diff_le)

lemma filter_last_n:
  assumes "sorted (map fst L)" "\<And>x y. fst x \<le> fst y \<Longrightarrow> P x \<Longrightarrow> P y"
  shows "filter P (last_n m L) = last_n m (filter P L)"
  using assms(1)
proof (induction L)
  case Nil
  then show ?case by (simp add: last_n_def)
next
  case (Cons x L)
  show ?case
  proof (cases "P x")
    case True
    then have "P y" if "y \<in> set L" for y using Cons.prems that by (intro assms(2) [of x y]) auto
    with True have "\<forall>y \<in> set (x # L). P y" by simp
    then show ?thesis by (auto simp: filter_id_conv last_n_def dest!: in_set_dropD)
  next
    case False
    then show ?thesis
      using Cons length_filter_le [of P L] by (auto simp: last_n_Cons last_n_all)
  qed
qed

lemma dropWhile_sorted:
  "sorted (map fst L) \<Longrightarrow> dropWhile (\<lambda>(t, w). t < c) L = filter (\<lambda>(t, w). (c :: nat) \<le> t) L"
proof (induction L)
  case (Cons x L)
  show ?case
  proof (cases "fst x < c")
    case False
    then have "\<forall>y \<in> set L. c \<le> fst y" using Cons.prems by fastforce
    then show ?thesis using False by (auto simp: split_beta filter_id_conv)
  qed (use Cons in \<open>auto simp: split_beta\<close>)
qed simp

lemma sorted_last_n: "sorted (map fst L) \<Longrightarrow> sorted (map fst (last_n m L))"
  by (simp add: last_n_def sorted_wrt_drop drop_map [symmetric])

text \<open>The records an estimator with this window and capacity counts at time \<open>now\<close>.\<close>

definition live :: "nat \<Rightarrow> nat \<Rightarrow> nat \<Rightarrow> (nat \<times> u256) list \<Rightarrow> (nat \<times> u256) list" where
  "live window mx now h = last_n mx (filter (\<lambda>(t, w). now - window \<le> t) h)"

abbreviation record_all :: "estimator \<Rightarrow> (nat \<times> u256) list \<Rightarrow> estimator" where
  "record_all \<equiv> foldl (\<lambda>s (t, w). record_at s t w)"

lemma record_all_params [simp]:
  "est_window (record_all s h) = est_window s" "est_max_samples (record_all s h) = est_max_samples s"
  "est_min_samples (record_all s h) = est_min_samples s"
  by (induction h arbitrary: s) (simp_all add: split_beta)

lemma live_prune:
  assumes "sorted (map fst h)" "c \<le> (c' :: nat)"
  shows "dropWhile (\<lambda>(t, w). t < c') (last_n mx (filter (\<lambda>(t, w). c \<le> t) h)) = last_n mx (filter (\<lambda>(t, w). c' \<le> t) h)"
proof -
  let ?f = "filter (\<lambda>(t, w). c \<le> t) h"
  have s: "sorted (map fst ?f)" using assms(1) by (simp add: sorted_filter)
  then have "dropWhile (\<lambda>(t, w). t < c') (last_n mx ?f) = filter (\<lambda>(t, w). c' \<le> t) (last_n mx ?f)"
    by (rule dropWhile_sorted [OF sorted_last_n])
  also have "\<dots> = last_n mx (filter (\<lambda>(t, w). c' \<le> t) ?f)" by (rule filter_last_n [OF s]) auto
  also have "filter (\<lambda>(t, w). c' \<le> t) ?f = filter (\<lambda>(t, w). c' \<le> t) h"
    using assms(2) by (auto simp: split_beta intro!: filter_cong)
  finally show ?thesis .
qed

lemma record_all_samples:
  assumes "sorted (map fst h)" "h \<noteq> []" "\<forall>(t, w) \<in> set h. window \<le> t"
  shows "est_samples (record_all (with_limits window mn mx) h) = live window mx (fst (last h)) h"
  using assms
proof (induction h rule: rev_induct)
  case Nil
  then show ?case by simp
next
  case (snoc x h)
  obtain t w where x: "x = (t, w)" by fastforce
  let ?s = "record_all (with_limits window mn mx) h"
  have par: "est_window ?s = window" "est_max_samples ?s = mx" by (simp_all add: with_limits_def)
  have cut: "checked_cutoff t window = t - window" using snoc.prems x by (simp add: checked_cutoff_def)
  have prev: "dropWhile (\<lambda>(t', w). t' < t - window) (est_samples ?s) = last_n mx (filter (\<lambda>(t', w). t - window \<le> t') h)"
  proof (cases "h = []")
    case True
    then show ?thesis by (simp add: with_limits_def last_n_def)
  next
    case False
    then have "fst (last h) \<le> t" using snoc.prems x by (auto simp: sorted_append)
    then show ?thesis using snoc False
      by (auto simp: live_def sorted_append intro!: live_prune)
  qed
  have "est_samples (record_at ?s t w) = last_n mx (last_n mx (filter (\<lambda>(t', w). t - window \<le> t') h) @ [(t, w)])"
    by (simp only: record_at_samples par cut prev Let_def flip: last_n_def)
  then show ?case by (simp add: x last_n_snoc live_def)
qed


section \<open>Estimator runs\<close>

datatype est_event = Record nat u256 | Query nat

fun est_step :: "estimator \<Rightarrow> est_event \<Rightarrow> estimator" where
  "est_step s (Record t w) = record_at s t w"
| "est_step s (Query t) = snd (hashrate_at s t)"

definition est_ok :: "estimator \<Rightarrow> bool" where
  "est_ok s \<longleftrightarrow> est_inv s \<and> length (est_samples s) \<le> est_max_samples s"

lemma hashrate_at_state: "snd (hashrate_at s t) = prune_before s (checked_cutoff t (est_window s))"
  by (auto simp: hashrate_at_def Let_def split: list.split)

interpretation est: total_step_system "with_limits window mn mx" est_step est_ok
  for window mn mx
proof
  show "est_ok (with_limits window mn mx)"
    by (simp add: est_ok_def est_inv_def with_limits_def)
  fix s e assume s: "est_ok s"
  show "est_ok (est_step s e)"
  proof (cases e)
    case (Record t w)
    then show ?thesis using s by (simp add: est_ok_def record_at_inv record_at_samples Let_def)
  next
    case (Query t)
    then show ?thesis
      using s length_dropWhile_le [of _ "est_samples s"]
      by (auto simp: est_ok_def prune_before_inv hashrate_at_state intro: le_trans)
  qed
qed

lemma hashrate_at_value:
  assumes "est_inv s" "sorted (map fst (est_samples s))"
  shows "fst (hashrate_at s now) =
    (case filter (\<lambda>(t, w). checked_cutoff now (est_window s) \<le> t) (est_samples s) of
       [] \<Rightarrow> Some 0
     | (t0, w0) # rest \<Rightarrow>
         if (now - t0) div 10 ^ 9 = 0 then Some 0
         else map_option saturating_to_u64
           (u256_div_u64 (\<Sum>(t, w)\<leftarrow>(t0, w0) # rest. w) (word_of_nat ((now - t0) div 10 ^ 9))))"
proof -
  let ?s = "prune_before s (checked_cutoff now (est_window s))"
  have x: "est_samples ?s = filter (\<lambda>(t, w). checked_cutoff now (est_window s) \<le> t) (est_samples s)"
    using dropWhile_sorted [OF assms(2)] by simp
  have "est_total_work ?s = (\<Sum>(t, w)\<leftarrow>est_samples ?s. w)"
    using prune_before_inv [OF assms(1)] by (simp only: est_inv_def)
  then show ?thesis
    unfolding x [symmetric]
    by (cases "est_samples ?s") (auto simp: hashrate_at_def Let_def simp del: prune_before_samples)
qed

lemma record_all_inv: "est_inv s \<Longrightarrow> est_inv (record_all s h)"
  by (induction h arbitrary: s) (auto simp: record_at_inv)

section \<open>Properties of the estimator\<close>

text \<open>
  However recordings and queries interleave, and in whatever order their time stamps come, the
  running total of the estimator is exactly the work of the samples it still holds (modulo
  \<open>2^256\<close>), and it never holds more than its capacity.
\<close>

theorem estimator_total_consistent:
  "let s = foldl est_step (with_limits window mn mx) es in
   est_total_work s = (\<Sum>(t, w)\<leftarrow>est_samples s. w) \<and> length (est_samples s) \<le> mx"
proof -
  have "est_max_samples (est_step s e) = est_max_samples s" for s e
    by (cases e) (simp_all add: hashrate_at_state)
  then have "est_max_samples (foldl est_step s es) = est_max_samples s" for s
    by (induction es arbitrary: s) simp_all
  then show ?thesis
    using est.inv_always [of window mn mx es] by (simp add: est_ok_def est_inv_def Let_def with_limits_def)
qed

text \<open>
  C3: The estimate is the one of the specification: with records in time order and a clock older
  than the window, the rate is the work of the last \<open>mx\<close> records not older than the window,
  divided by the whole seconds since the oldest of them (saturating at 64 bits), and zero
  while there is none or less than a second has passed.
\<close>

theorem estimator_reference:
  assumes "sorted (map fst h)" "\<forall>(t, w) \<in> set h. window \<le> t \<and> t \<le> now" "window \<le> now"
  shows "fst (hashrate_at (record_all (with_limits window mn mx) h) now) =
    (case live window mx now h of
       [] \<Rightarrow> Some 0
     | (t0, w0) # rest \<Rightarrow>
         if (now - t0) div 10 ^ 9 = 0 then Some 0
         else map_option saturating_to_u64
           (u256_div_u64 (\<Sum>(t, w)\<leftarrow>(t0, w0) # rest. w) (word_of_nat ((now - t0) div 10 ^ 9))))"
proof -
  let ?s = "record_all (with_limits window mn mx) h"
  have inv: "est_inv ?s" by (intro record_all_inv) (simp add: est_inv_def with_limits_def)
  have w: "est_window ?s = window" "checked_cutoff now window = now - window"
    using assms(3) by (simp_all add: with_limits_def checked_cutoff_def)
  have "sorted (map fst (est_samples ?s)) \<and>
      filter (\<lambda>(t, w). now - window \<le> t) (est_samples ?s) = live window mx now h"
  proof (cases "h = []")
    case True
    then show ?thesis by (simp add: with_limits_def live_def last_n_def)
  next
    case False
    then have x: "est_samples ?s = live window mx (fst (last h)) h"
      using assms by (intro record_all_samples) auto
    have "fst (last h) \<le> now" using False assms(2) last_in_set by fastforce
    then have "fst (last h) - window \<le> now - window" by simp
    moreover have s: "sorted (map fst (live window mx (fst (last h)) h))"
      unfolding live_def using assms(1) by (intro sorted_last_n) (simp add: sorted_filter)
    ultimately show ?thesis
      using live_prune [OF assms(1), of "fst (last h) - window" "now - window" mx] dropWhile_sorted [OF s]
      by (simp add: x live_def)
  qed
  then show ?thesis using hashrate_at_value [OF inv, of now] by (simp only: w)
qed

theorem estimator_reference_witness:
  "fst (hashrate_at (record_all (with_limits (2 * 10 ^ 9) 1 2)
     [(2 * 10 ^ 9, 7), (3 * 10 ^ 9, 40), (4 * 10 ^ 9, 60)]) (5 * 10 ^ 9)) = Some 50"
proof -
  let ?h = "[(2 * 10 ^ 9, 7), (3 * 10 ^ 9, 40), (4 * 10 ^ 9, 60)] :: (nat \<times> u256) list"
  have s: "sorted (map fst ?h)" and b: "\<forall>(t, w) \<in> set ?h. 2 * 10 ^ 9 \<le> t \<and> t \<le> 5 * 10 ^ 9"
    and w: "(2 * 10 ^ 9 :: nat) \<le> 5 * 10 ^ 9" by simp_all
  have l: "live (2 * 10 ^ 9) 2 (5 * 10 ^ 9) ?h = [(3 * 10 ^ 9, 40), (4 * 10 ^ 9, 60)]"
    by (simp add: live_def last_n_def)
  have "saturating_to_u64 50 = 50" by (simp add: saturating_to_u64_def drop_bit_eq_div)
  then show ?thesis unfolding estimator_reference [OF s b w] l by (simp add: u256_div_u64_def)
qed


section \<open>The alarm\<close>

text \<open>A history of checks, oldest first, and the alarm after it.\<close>

abbreviation checks :: "nat \<Rightarrow> (nat \<times> bool) list \<Rightarrow> debounced_alarm" where
  "checks d h \<equiv> foldl (\<lambda>a (t, c). snd (alarm_check a t c)) (alarm_new d) h"

text \<open>\<open>j\<close> is where the unbroken run of true conditions at the end of the history begins.\<close>

definition run_start :: "(nat \<times> bool) list \<Rightarrow> nat \<Rightarrow> bool" where
  "run_start h j \<longleftrightarrow> j < length h \<and> (\<forall>k. j \<le> k \<and> k < length h \<longrightarrow> snd (h ! k)) \<and>
    (0 < j \<longrightarrow> \<not> snd (h ! (j - 1)))"

text \<open>A check after the first of that run already saw the condition last for \<open>d\<close>.\<close>

definition reached :: "nat \<Rightarrow> (nat \<times> bool) list \<Rightarrow> nat \<Rightarrow> bool" where
  "reached d h j \<longleftrightarrow> (\<exists>k. j < k \<and> k < length h \<and> d \<le> fst (h ! k) - fst (h ! j))"

lemma run_start_unique: "run_start h i \<Longrightarrow> run_start h j \<Longrightarrow> i = j"
proof (induction i j rule: linorder_wlog)
  case (le i j)
  show ?case
  proof (rule ccontr)
    assume "i \<noteq> j"
    with le have "i \<le> j - 1" "j - 1 < length h" "0 < j" by (auto simp: run_start_def)
    with le show False by (auto simp: run_start_def)
  qed
qed auto

lemma run_start_last: "run_start h j \<Longrightarrow> h \<noteq> [] \<and> snd (last h)"
proof -
  assume "run_start h j"
  then have j: "j < length h" and a: "\<And>k. j \<le> k \<Longrightarrow> k < length h \<Longrightarrow> snd (h ! k)"
    by (simp_all add: run_start_def)
  from j have "h \<noteq> []" by auto
  with j a [of "length h - 1"] show ?thesis by (simp add: last_conv_nth)
qed

lemma all_less_Suc_split: "(\<forall>k. j \<le> k \<and> k < Suc n \<longrightarrow> P k) \<longleftrightarrow> (\<forall>k. j \<le> k \<and> k < n \<longrightarrow> P k) \<and> (j \<le> n \<longrightarrow> P n)"
  by (auto simp: less_Suc_eq)

lemma run_start_snoc:
  "run_start (h @ [x]) j \<longleftrightarrow> j \<le> length h \<and> (\<forall>k. j \<le> k \<and> k < length h \<longrightarrow> snd (h ! k)) \<and> snd x \<and>
    (0 < j \<longrightarrow> \<not> snd (h ! (j - 1)))"
proof -
  have "(h @ [x]) ! (j - 1) = h ! (j - 1)" if "j \<le> length h" "0 < j"
  proof -
    from that have "j - 1 < length h" by linarith
    then show ?thesis by (simp add: nth_append)
  qed
  then show ?thesis
    unfolding run_start_def length_append_singleton all_less_Suc_split
    by (auto simp: less_Suc_eq_le nth_append)
qed

lemma run_start_snoc_True:
  "run_start (h @ [(t, True)]) j \<longleftrightarrow>
    (if h = [] \<or> \<not> snd (last h) then j = length h else run_start h j)"
proof (cases "h = []")
  case True
  then show ?thesis by (auto simp: run_start_def)
next
  case False
  then have l: "last h = h ! (length h - 1)" "length h - 1 < length h" by (simp_all add: last_conv_nth)
  show ?thesis
  proof (cases "snd (last h)")
    case True
    then have "j \<noteq> length h" if "0 < j \<longrightarrow> \<not> snd (h ! (j - 1))" using that l by auto
    with False True show ?thesis
      unfolding run_start_snoc run_start_def [of h] by (simp only: if_False simp_thms snd_conv) (metis le_neq_implies_less less_imp_le)
  next
    case no: False
    then have "\<not> j \<le> length h - 1" if "\<forall>k. j \<le> k \<and> k < length h \<longrightarrow> snd (h ! k)"
      using that l by metis
    moreover have "\<not> snd (h ! (length h - 1))" using no l by simp
    ultimately show ?thesis using False no unfolding run_start_snoc
      by (simp only: if_True simp_thms snd_conv) (metis One_nat_def Suc_leI Suc_pred diff_less_Suc le_neq_implies_less length_greater_0_conv less_Suc_eq_le not_le)
  qed
qed

lemma reached_snoc:
  assumes "j < length h"
  shows "reached d (h @ [(t, c)]) j \<longleftrightarrow> reached d h j \<or> d \<le> t - fst (h ! j)"
proof
  assume "reached d (h @ [(t, c)]) j"
  then obtain k where "j < k" "k < Suc (length h)" "d \<le> fst ((h @ [(t, c)]) ! k) - fst (h ! j)"
    using assms by (auto simp: reached_def nth_append)
  then show "reached d h j \<or> d \<le> t - fst (h ! j)"
    by (cases "k = length h") (auto simp: reached_def nth_append)
next
  assume "reached d h j \<or> d \<le> t - fst (h ! j)"
  then show "reached d (h @ [(t, c)]) j"
  proof
    assume "reached d h j"
    then obtain k where "j < k" "k < length h" "d \<le> fst (h ! k) - fst (h ! j)" by (auto simp: reached_def)
    then show ?thesis unfolding reached_def by (intro exI [of _ k]) (simp add: nth_append)
  next
    assume "d \<le> t - fst (h ! j)"
    then show ?thesis unfolding reached_def using assms by (intro exI [of _ "length h"]) (simp add: nth_append)
  qed
qed

lemma no_run_snoc_False: "\<not> run_start (h @ [(t, False)]) j"
  by (auto simp: run_start_def nth_append intro!: exI [of _ "length h"])

lemma alarm_check_debounce [simp]: "al_debounce (snd (alarm_check a t c)) = al_debounce a"
  by (simp add: alarm_check_def split: alarm_state.split bool.split)

lemma checks_debounce [simp]: "al_debounce (checks d h) = d"
  by (induction h rule: rev_induct) (auto simp: alarm_new_def split_beta)

lemma checks_state:
  "case al_state (checks d h) of
     StIdle \<Rightarrow> h = [] \<or> \<not> snd (last h)
   | StTiming s \<Rightarrow> \<exists>j. run_start h j \<and> s = fst (h ! j) \<and> \<not> reached d h j
   | StFired \<Rightarrow> \<exists>j. run_start h j \<and> reached d h j"
proof (induction h rule: rev_induct)
  case Nil
  then show ?case by (simp add: alarm_new_def)
next
  case (snoc x h)
  obtain t c where x: "x = (t, c)" by fastforce
  have st: "al_state (checks d (h @ [x])) = al_state (snd (alarm_check (checks d h) t c))" by (simp add: x)
  show ?case
  proof (cases c)
    case False
    then have "al_state (snd (alarm_check (checks d h) t c)) = StIdle"
      by (simp add: alarm_check_def split: alarm_state.split)
    then show ?thesis unfolding st using x False by simp
  next
    case True
    note last = run_start_last [of h]
    show ?thesis
    proof (cases "al_state (checks d h)")
      case StIdle
      have "\<not> reached d (h @ [(t, True)]) (length h)" by (simp add: reached_def)
      then show ?thesis unfolding st using snoc StIdle True x
        by (simp add: alarm_check_def [of "checks d h"] run_start_snoc_True nth_append)
    next
      case (StTiming s)
      then obtain j where j: "run_start h j" "s = fst (h ! j)" "\<not> reached d h j" using snoc by auto
      then have "j < length h" "run_start (h @ [(t, True)]) j"
        using last [OF j(1)] by (simp_all add: run_start_def [of h] run_start_snoc_True)
      moreover have "al_state (snd (alarm_check (checks d h) t c)) = (if d \<le> t - s then StFired else StTiming s)"
        using True by (simp add: alarm_check_def [of "checks d h"] StTiming)
      ultimately show ?thesis unfolding st using True x j
        by (auto simp: reached_snoc nth_append)
    next
      case StFired
      then obtain j where j: "run_start h j" "reached d h j" using snoc by auto
      then have "j < length h" "run_start (h @ [(t, True)]) j"
        using last [OF j(1)] by (simp_all add: run_start_def [of h] run_start_snoc_True)
      moreover have "al_state (snd (alarm_check (checks d h) t c)) = StFired"
        using True by (simp add: alarm_check_def [of "checks d h"] StFired)
      ultimately show ?thesis unfolding st using True x j by (auto simp: reached_snoc)
    qed
  qed
qed

text \<open>
  The alarm fires once per episode and only for a sustained condition. After any history of
  checks, a check at \<open>t\<close> reports \<open>Triggered\<close> exactly when the condition has held at every check
  since some check \<open>j\<close>, has now lasted the debounce time, and had not at any check in between;
  it reports \<open>Active\<close> when one in between had, and \<open>Resolved\<close> when the condition ends after that.
\<close>

theorem alarm_triggers_once:
  "let r = fst (alarm_check (checks d h) t c) in
   (r = Triggered \<longleftrightarrow> c \<and> (\<exists>j. run_start h j \<and> \<not> reached d h j \<and> d \<le> t - fst (h ! j))) \<and>
   (r = Active \<longleftrightarrow> c \<and> (\<exists>j. run_start h j \<and> reached d h j)) \<and>
   (r = Resolved \<longleftrightarrow> \<not> c \<and> (\<exists>j. run_start h j \<and> reached d h j)) \<and>
   al_state (alarm_reset (checks d h)) = al_state (snd (alarm_check (checks d h) t False))"
proof -
  note state = checks_state [of h d]
  show ?thesis
  proof (cases "al_state (checks d h)")
    case StIdle
    then have "\<not> run_start h j" for j using state run_start_last [of h j] by auto
    with StIdle show ?thesis by (cases c) (simp_all add: alarm_check_def [of "checks d h"] alarm_reset_def)
  next
    case (StTiming s)
    then obtain i where i: "run_start h i" "s = fst (h ! i)" "\<not> reached d h i" using state by auto
    then have "run_start h j \<longleftrightarrow> j = i" for j using run_start_unique by blast
    with StTiming i show ?thesis by (cases c) (simp_all add: alarm_check_def [of "checks d h"] alarm_reset_def)
  next
    case StFired
    then obtain i where i: "run_start h i" "reached d h i" using state by auto
    then have "run_start h j \<longleftrightarrow> j = i" for j using run_start_unique by blast
    with StFired i show ?thesis by (cases c) (simp_all add: alarm_check_def [of "checks d h"] alarm_reset_def)
  qed
qed

end
