(* ===== verification/Scheduler.thy ===== *)
theory Scheduler
  imports Merkle_Job Estimator
begin

text \<open>
  The scheduler, from \<open>mujina-miner/src/scheduler.rs\<close>, with the messages it exchanges
  (\<open>job_source/messages.rs\<close>, \<open>asic/hash_thread.rs\<close>). The state is the \<open>Scheduler\<close> struct together
  with the three stream maps that \<open>run()\<close> keeps as locals and lends to the handlers; a
  handler returns the new state and the messages it sends, or \<open>None\<close> where it panics. The clock,
  the answers of the hash threads and the ends of streams are inputs of a loop iteration.
\<close>

section \<open>Slot maps\<close>

text \<open>
  The \<open>slotmap\<close> crate hands out a key it has never issued before and iterates in the order of
  its slots, which it may reuse. Both choices are the parameter \<open>alloc\<close>: from the keys issued so
  far it gives the next key and the position in the iteration order.
\<close>

type_synonym key = nat
type_synonym alloc = "key list \<Rightarrow> key \<times> nat"

record 'v slotmap =
  sm_entries :: "(key \<times> 'v) list"
  sm_issued :: "key list"

definition sm_new :: "'v slotmap" where
  "sm_new = \<lparr>sm_entries = [], sm_issued = []\<rparr>"

definition sm_get :: "'v slotmap \<Rightarrow> key \<Rightarrow> 'v option" where
  "sm_get m k = map_of (sm_entries m) k"

definition sm_keys :: "'v slotmap \<Rightarrow> key list" where
  "sm_keys m = map fst (sm_entries m)"

definition sm_insert :: "alloc \<Rightarrow> 'v \<Rightarrow> 'v slotmap \<Rightarrow> key \<times> 'v slotmap" where
  "sm_insert alloc v m =
    (let (k, p) = alloc (sm_issued m)
     in (k, \<lparr>sm_entries = take p (sm_entries m) @ (k, v) # drop p (sm_entries m), sm_issued = k # sm_issued m\<rparr>))"

definition sm_update :: "key \<Rightarrow> ('v \<Rightarrow> 'v) \<Rightarrow> 'v slotmap \<Rightarrow> 'v slotmap" where
  "sm_update k f m = m\<lparr>sm_entries := map (\<lambda>(j, v). (j, if j = k then f v else v)) (sm_entries m)\<rparr>"

definition sm_retain :: "(key \<Rightarrow> 'v \<Rightarrow> bool) \<Rightarrow> 'v slotmap \<Rightarrow> 'v slotmap" where
  "sm_retain P m = m\<lparr>sm_entries := filter (\<lambda>(k, v). P k v) (sm_entries m)\<rparr>"

section \<open>Messages\<close>

record hash_task =
  ht_template :: job_template
  ht_en2_range :: "extranonce2_range option"
  ht_en2 :: "extranonce2 option"
  ht_share_target :: u256
  ht_ntime :: u32

record thread_share =
  sh_nonce :: u32
  sh_hash :: hash256
  sh_version :: u32
  sh_ntime :: u32
  sh_extranonce2 :: "extranonce2 option"
  sh_expected_work :: u256

definition source_share :: "thread_share \<Rightarrow> string \<Rightarrow> share" where
  "source_share sh jid =
    \<lparr>share_job_id = jid, share_nonce = sh_nonce sh, share_time = sh_ntime sh,
     share_version = sh_version sh, share_extranonce2 = sh_extranonce2 sh\<rparr>"

datatype hash_thread_event =
  WorkDepletionWarning u64
  | WorkExhausted u64
  | StatusUpdate hash_rate
  | ExpectedHashRate hash_rate

datatype source_event = UpdateJob job_template | ReplaceJob job_template | ClearJobs

datatype source_command = SubmitShare share | UpdateHashRate hash_rate

datatype assign_mode = ModeUpdate | ModeReplace

text \<open>What the scheduler sends, in order.\<close>

datatype effect =
  ToSource key source_command
  | ToThread key assign_mode hash_task
  | Configure key
  | Publish hash_rate u64 bool

section \<open>Startup gate\<close>

record startup_gate =
  sg_registered :: nat
  sg_reported :: nat
  sg_enumeration_complete :: bool
  sg_open :: bool

definition gate_new :: startup_gate where
  "gate_new = \<lparr>sg_registered = 0, sg_reported = 0, sg_enumeration_complete = False, sg_open = False\<rparr>"

definition is_holding :: "startup_gate \<Rightarrow> bool" where
  "is_holding g \<longleftrightarrow> \<not> sg_open g"

definition try_open :: "startup_gate \<Rightarrow> startup_gate" where
  "try_open g =
    (if sg_enumeration_complete g \<and> sg_registered g \<le> sg_reported g then g\<lparr>sg_open := True\<rparr> else g)"

definition record_registered :: "startup_gate \<Rightarrow> startup_gate" where
  "record_registered g = (if \<not> sg_open g then g\<lparr>sg_registered := sg_registered g + 1\<rparr> else g)"

definition record_reported :: "startup_gate \<Rightarrow> startup_gate" where
  "record_reported g = (if \<not> sg_open g then try_open (g\<lparr>sg_reported := sg_reported g + 1\<rparr>) else g)"

definition record_enumeration_complete :: "startup_gate \<Rightarrow> startup_gate" where
  "record_enumeration_complete g =
    (if \<not> sg_open g then try_open (g\<lparr>sg_enumeration_complete := True\<rparr>) else g)"

definition record_timeout :: "startup_gate \<Rightarrow> startup_gate" where
  "record_timeout g = g\<lparr>sg_open := True\<rparr>"

section \<open>State\<close>

record task_entry =
  te_source :: key
  te_template :: job_template
  te_thread :: key

record source_entry =
  src_name :: string
  src_url :: "string option"
  src_last_job :: "job_template option"
  src_alarm :: debounced_alarm

record thread_entry =
  th_name :: string
  th_hashrate :: estimator
  th_expected :: "hash_rate option"
  th_hardware :: "hash_rate option"

record scheduler =
  sources :: "source_entry slotmap"
  threads :: "thread_entry slotmap"
  tasks :: "task_entry slotmap"
  shares_submitted :: u64
  last_thread_count :: nat
  gate :: startup_gate
  paused :: bool
  source_events :: "key list"
  thread_events :: "key list"
  share_channels :: "key list"
  gate_deadline :: "nat option"

definition scheduler_new :: scheduler where
  "scheduler_new =
    \<lparr>sources = sm_new, threads = sm_new, tasks = sm_new, shares_submitted = 0, last_thread_count = 0,
     gate = gate_new, paused = False, source_events = [], thread_events = [], share_channels = [],
     gate_deadline = None\<rparr>"

definition of_secs :: "nat \<Rightarrow> nat" where
  "of_secs n = n * 10 ^ 9"

definition duration_max :: nat where
  "duration_max = (2 ^ 64 - 1) * 10 ^ 9 + 999999999"

text \<open>The floating point operations, and the key allocation, the scheduler runs on.\<close>

record 'f sched_env = "'f f64_ops" +
  env_alloc :: alloc
  f64_of_u64 :: "u64 \<Rightarrow> 'f"
  f64_as_secs :: "nat \<Rightarrow> 'f"
  f64_mul :: "'f \<Rightarrow> 'f \<Rightarrow> 'f"
  f64_div :: "'f \<Rightarrow> 'f \<Rightarrow> 'f"
  f64_le_one :: "'f \<Rightarrow> bool"
  f64_le_zero :: "'f \<Rightarrow> bool"
  f64_one :: 'f
  f64_two32 :: 'f
  f64_difficulty :: "u256 \<Rightarrow> 'f"
  f64_to_duration :: "'f \<Rightarrow> nat option"


section \<open>Rates and targets\<close>

definition hashrate_window :: nat where
  "hashrate_window = of_secs (5 * 60)"

definition startup_gate_timeout :: nat where
  "startup_gate_timeout = of_secs 10"

definition measurement_share_interval :: nat where
  "measurement_share_interval = of_secs 1"

definition flood_cap_interval :: nat where
  "flood_cap_interval = 100 * 10 ^ 6"

definition high_difficulty_threshold :: nat where
  "high_difficulty_threshold = of_secs 300"

definition high_difficulty_debounce :: nat where
  "high_difficulty_debounce = of_secs 30"

definition hashes_in :: "('f, 'm) sched_env_scheme \<Rightarrow> nat \<Rightarrow> hash_rate \<Rightarrow> 'f" where
  "hashes_in E duration rate = f64_mul E (f64_of_u64 E rate) (f64_as_secs E duration)"

definition rate_to_target :: "('f, 'm) sched_env_scheme \<Rightarrow> nat \<Rightarrow> hash_rate \<Rightarrow> u256 option" where
  "rate_to_target E interval rate =
    share_rate_target E (hashes_in E) (f64_le_one E) interval rate"

definition compute_scheduler_target :: "('f, 'm) sched_env_scheme \<Rightarrow> hash_rate \<Rightarrow> u256 \<Rightarrow> u256 option" where
  "compute_scheduler_target E rate source_target =
    (if rate = 0 then Some source_target
     else Option.bind (rate_to_target E measurement_share_interval rate) (\<lambda>measurement_target.
       Option.bind (rate_to_target E flood_cap_interval rate) (\<lambda>flood_cap_target.
         if flood_cap_target < measurement_target then None
         else Some (if source_target < measurement_target then measurement_target
                    else if flood_cap_target < source_target then flood_cap_target
                    else source_target))))"

definition expected_time_to_share_from_target ::
  "('f, 'm) sched_env_scheme \<Rightarrow> u256 \<Rightarrow> hash_rate \<Rightarrow> nat option" where
  "expected_time_to_share_from_target E target rate =
    (if rate = 0 then Some duration_max
     else let hashes_per_share = f64_mul E (f64_difficulty E target) (f64_two32 E);
              shares_per_sec = f64_div E (f64_of_u64 E rate) hashes_per_share
          in if f64_le_zero E shares_per_sec then Some duration_max
             else f64_to_duration E (f64_div E (f64_one E) shares_per_sec))"

definition is_difficulty_too_high :: "('f, 'm) sched_env_scheme \<Rightarrow> job_template \<Rightarrow> hash_rate \<Rightarrow> bool option" where
  "is_difficulty_too_high E job rate =
    (if rate = 0 then Some False
     else map_option (\<lambda>t. high_difficulty_threshold < t)
       (expected_time_to_share_from_target E (job_share_target job) rate))"

section \<open>Operations of the scheduler\<close>

definition expected_hashrate :: "scheduler \<Rightarrow> hash_rate option" where
  "expected_hashrate s =
    hash_rate_sum (List.map_filter (\<lambda>(k, e). th_expected e) (sm_entries (threads s)))"

definition allocated_hashrate :: "scheduler \<Rightarrow> key \<Rightarrow> hash_rate option" where
  "allocated_hashrate s source_id = expected_hashrate s"

definition eligible_thread_ids :: "scheduler \<Rightarrow> key list" where
  "eligible_thread_ids s =
    map fst (filter (\<lambda>(k, e). th_expected e \<noteq> None) (sm_entries (threads s)))"

definition measured_hashrate :: "nat \<Rightarrow> scheduler \<Rightarrow> (hash_rate \<times> scheduler) option" where
  "measured_hashrate now s =
    (let rs = map (\<lambda>(k, e). case th_hardware e of
           Some h \<Rightarrow> (Some h, (k, e))
         | None \<Rightarrow> let (r, est') = hashrate_at (th_hashrate e) now in (r, (k, e\<lparr>th_hashrate := est'\<rparr>)))
         (sm_entries (threads s))
     in Option.bind (traverse fst rs) (\<lambda>hs.
        map_option (\<lambda>r. (r, s\<lparr>threads := (threads s)\<lparr>sm_entries := map snd rs\<rparr>\<rparr>)) (hash_rate_sum hs)))"

definition publish_telemetry :: "nat \<Rightarrow> scheduler \<Rightarrow> (scheduler \<times> effect list) option" where
  "publish_telemetry now s =
    map_option (\<lambda>(r, s'). (s', [Publish r (shares_submitted s') (paused s')])) (measured_hashrate now s)"

definition collect_hashrate_updates :: "scheduler \<Rightarrow> (key \<times> hash_rate) list option" where
  "collect_hashrate_updates s =
    traverse (\<lambda>(k, e). map_option (Pair k) (allocated_hashrate s k)) (sm_entries (sources s))"

definition send_hashrate_updates :: "(key \<times> hash_rate) list \<Rightarrow> effect list" where
  "send_hashrate_updates updates = map (\<lambda>(k, r). ToSource k (UpdateHashRate r)) updates"

definition broadcast_hashrate_change :: "scheduler \<Rightarrow> (scheduler \<times> effect list) option" where
  "broadcast_hashrate_change s =
    (let s' = s\<lparr>sources := (sources s)\<lparr>sm_entries :=
           map (\<lambda>(k, e). (k, e\<lparr>src_alarm := alarm_reset (src_alarm e)\<rparr>)) (sm_entries (sources s))\<rparr>\<rparr>
     in map_option (\<lambda>updates. (s', send_hashrate_updates updates)) (collect_hashrate_updates s'))"

definition remove_tasks_where :: "(task_entry \<Rightarrow> bool) \<Rightarrow> scheduler \<Rightarrow> scheduler" where
  "remove_tasks_where P s =
    (let task_ids = map fst (filter (\<lambda>(k, e). P e) (sm_entries (tasks s)))
     in s\<lparr>tasks := sm_retain (\<lambda>k _. k \<notin> set task_ids) (tasks s),
          share_channels := filter (\<lambda>k. k \<notin> set task_ids) (share_channels s)\<rparr>)"

definition handle_source_registration ::
  "('f, 'm) sched_env_scheme \<Rightarrow> string \<Rightarrow> string option \<Rightarrow> scheduler \<Rightarrow> (scheduler \<times> effect list) option" where
  "handle_source_registration E name url s =
    (let (source_id, srcs) = sm_insert (env_alloc E)
           \<lparr>src_name = name, src_url = url, src_last_job = None, src_alarm = alarm_new high_difficulty_debounce\<rparr>
           (sources s);
         s' = s\<lparr>sources := srcs, source_events := source_id # source_events s\<rparr>
     in if \<not> is_holding (gate s') then broadcast_hashrate_change s' else Some (s', []))"

text \<open>Hand a task to one thread: what both assignment loops do for a thread and a range.\<close>

definition assign_task ::
  "('f, 'm) sched_env_scheme \<Rightarrow> (key \<Rightarrow> hash_task \<Rightarrow> bool) \<Rightarrow> assign_mode \<Rightarrow> key \<Rightarrow> job_template \<Rightarrow>
   key \<Rightarrow> hash_rate \<Rightarrow> extranonce2_range \<Rightarrow> scheduler \<Rightarrow> (scheduler \<times> effect list) option" where
  "assign_task E accepts mode source_id template thread_id rate en2_range s =
    Option.bind (iter_next (range_iter en2_range)) (\<lambda>(starting_en2, _).
    Option.bind (compute_scheduler_target E rate (job_share_target template)) (\<lambda>target.
      let hash_task = \<lparr>ht_template = template, ht_en2_range = Some en2_range, ht_en2 = starting_en2,
            ht_share_target = target, ht_ntime = job_time template\<rparr>;
          out = [ToThread thread_id mode hash_task]
      in if \<not> accepts thread_id hash_task then Some (s, out)
         else let (task_id, ts) = sm_insert (env_alloc E)
                    \<lparr>te_source = source_id, te_template = template, te_thread = thread_id\<rparr> (tasks s)
              in Some (s\<lparr>tasks := ts, share_channels := task_id # share_channels s\<rparr>, out)))"

text \<open>\<open>settled_hashrate().or(expected).unwrap_or_default()\<close>, which prunes the estimator.\<close>

definition thread_rate :: "nat \<Rightarrow> key \<Rightarrow> scheduler \<Rightarrow> (hash_rate \<times> scheduler) option" where
  "thread_rate now thread_id s =
    (case sm_get (threads s) thread_id of
       None \<Rightarrow> None
     | Some e \<Rightarrow>
         let (settled, est') = settled_hashrate_at (th_hashrate e) now
         in map_option (\<lambda>r. (case r of Some h \<Rightarrow> h | None \<Rightarrow> (case th_expected e of Some h \<Rightarrow> h | None \<Rightarrow> 0),
              s\<lparr>threads := sm_update thread_id (\<lambda>e. e\<lparr>th_hashrate := est'\<rparr>) (threads s)\<rparr>)) settled)"

fun assign_slices ::
  "('f, 'm) sched_env_scheme \<Rightarrow> (key \<Rightarrow> hash_task \<Rightarrow> bool) \<Rightarrow> nat \<Rightarrow> assign_mode \<Rightarrow> key \<Rightarrow> job_template \<Rightarrow>
   (key \<times> extranonce2_range) list \<Rightarrow> scheduler \<Rightarrow> (scheduler \<times> effect list) option" where
  "assign_slices E accepts now mode source_id template [] s = Some (s, [])"
| "assign_slices E accepts now mode source_id template ((thread_id, en2_range) # rest) s =
     Option.bind (thread_rate now thread_id s) (\<lambda>(rate, s1).
     Option.bind (assign_task E accepts mode source_id template thread_id rate en2_range s1) (\<lambda>(s2, out).
       map_option (\<lambda>(s3, out'). (s3, out @ out'))
         (assign_slices E accepts now mode source_id template rest s2)))"


definition update_last_job :: "job_template \<Rightarrow> source_entry \<Rightarrow> source_entry" where
  "update_last_job job e =
    (let prev_target = map_option job_share_target (src_last_job e);
         e = (if prev_target \<noteq> Some (job_share_target job) then e\<lparr>src_alarm := alarm_reset (src_alarm e)\<rparr> else e)
     in e\<lparr>src_last_job := Some job\<rparr>)"

definition check_difficulty_alarm ::
  "('f, 'm) sched_env_scheme \<Rightarrow> nat \<Rightarrow> key \<Rightarrow> job_template \<Rightarrow> hash_rate \<Rightarrow> scheduler \<Rightarrow> scheduler option" where
  "check_difficulty_alarm E now source_id job rate s =
    (case sm_get (sources s) source_id of
       None \<Rightarrow> Some s
     | Some _ \<Rightarrow> map_option (\<lambda>too_high.
         s\<lparr>sources := sm_update source_id
             (\<lambda>e. e\<lparr>src_alarm := snd (alarm_check (src_alarm e) now too_high)\<rparr>) (sources s)\<rparr>)
         (is_difficulty_too_high E job rate))"

definition assign_job_to_threads ::
  "('f, 'm) sched_env_scheme \<Rightarrow> (key \<Rightarrow> hash_task \<Rightarrow> bool) \<Rightarrow> nat \<Rightarrow> assign_mode \<Rightarrow> key \<Rightarrow> job_template \<Rightarrow>
   scheduler \<Rightarrow> (scheduler \<times> effect list) option" where
  "assign_job_to_threads E accepts now mode source_id job s =
    (case job_merkle_root job of
       FixedRoot _ \<Rightarrow> Some (s, [])
     | ComputedRoot template \<Rightarrow>
         let s1 = s\<lparr>sources := sm_update source_id (update_last_job job) (sources s)\<rparr>
         in if sm_entries (threads s1) = [] then Some (s1, [])
         else Option.bind (expected_hashrate s1) (\<lambda>rate.
              Option.bind (check_difficulty_alarm E now source_id job rate s1) (\<lambda>s2.
                let s3 = (if mode = ModeReplace then remove_tasks_where (\<lambda>e. te_source e = source_id) s2 else s2);
                    eligible = eligible_thread_ids s3
                in if eligible = [] then Some (s3, [])
                   else case split_range (mt_extranonce2_range template) (length eligible) of
                       Some (Some slices) \<Rightarrow>
                         assign_slices E accepts now mode source_id job (zip eligible slices) s3
                     | _ \<Rightarrow> None)))"

definition handle_clear_jobs :: "key \<Rightarrow> scheduler \<Rightarrow> scheduler" where
  "handle_clear_jobs source_id s =
    remove_tasks_where (\<lambda>e. te_source e = source_id)
      (s\<lparr>sources := sm_update source_id (\<lambda>e. e\<lparr>src_last_job := None\<rparr>) (sources s)\<rparr>)"

definition handle_share :: "nat \<Rightarrow> key \<Rightarrow> thread_share \<Rightarrow> scheduler \<Rightarrow> (scheduler \<times> effect list) option" where
  "handle_share now task_id sh s =
    (case sm_get (tasks s) task_id of
       None \<Rightarrow> Some (s, [])
     | Some te \<Rightarrow>
         let s1 = s\<lparr>threads := sm_update (te_thread te)
               (\<lambda>e. e\<lparr>th_hashrate := record_at (th_hashrate e) now (sh_expected_work sh)\<rparr>) (threads s)\<rparr>
         in if u256_from_le_bytes (sh_hash sh) \<le> job_share_target (te_template te)
         then map_option (\<lambda>n.
             (s1\<lparr>shares_submitted := n\<rparr>,
              case sm_get (sources s1) (te_source te) of
                Some _ \<Rightarrow> [ToSource (te_source te) (SubmitShare (source_share sh (job_id (te_template te))))]
              | None \<Rightarrow> []))
           (add_chk (shares_submitted s1) 1)
         else Some (s1, []))"

fun assign_cached ::
  "('f, 'm) sched_env_scheme \<Rightarrow> (key \<Rightarrow> hash_task \<Rightarrow> bool) \<Rightarrow> key \<Rightarrow> hash_rate \<Rightarrow>
   (key \<times> source_entry) list \<Rightarrow> scheduler \<Rightarrow> (scheduler \<times> effect list) option" where
  "assign_cached E accepts thread_id rate [] s = Some (s, [])"
| "assign_cached E accepts thread_id rate ((source_id, source) # rest) s =
     (case src_last_job source of
        None \<Rightarrow> assign_cached E accepts thread_id rate rest s
      | Some template \<Rightarrow>
          (case job_merkle_root template of
             FixedRoot _ \<Rightarrow> assign_cached E accepts thread_id rate rest s
           | ComputedRoot t \<Rightarrow>
               Option.bind (assign_task E accepts ModeUpdate source_id template thread_id rate (mt_extranonce2_range t) s)
                 (\<lambda>(s', out). map_option (\<lambda>(s'', out'). (s'', out @ out'))
                    (assign_cached E accepts thread_id rate rest s'))))"

definition assign_cached_jobs_to_thread ::
  "('f, 'm) sched_env_scheme \<Rightarrow> (key \<Rightarrow> hash_task \<Rightarrow> bool) \<Rightarrow> nat \<Rightarrow> key \<Rightarrow> scheduler \<Rightarrow> (scheduler \<times> effect list) option" where
  "assign_cached_jobs_to_thread E accepts now thread_id s =
    Option.bind (thread_rate now thread_id s) (\<lambda>(rate, s').
      assign_cached E accepts thread_id rate (sm_entries (sources s')) s')"

definition handle_thread_event ::
  "('f, 'm) sched_env_scheme \<Rightarrow> (key \<Rightarrow> hash_task \<Rightarrow> bool) \<Rightarrow> nat \<Rightarrow> key \<Rightarrow> hash_thread_event \<Rightarrow>
   scheduler \<Rightarrow> (scheduler \<times> effect list) option" where
  "handle_thread_event E accepts now thread_id ev s =
    (case ev of
       WorkExhausted _ \<Rightarrow> Some (s, [])
     | WorkDepletionWarning _ \<Rightarrow> Some (s, [])
     | StatusUpdate rate \<Rightarrow>
         Some (if rate \<noteq> 0
               then s\<lparr>threads := sm_update thread_id (\<lambda>e. e\<lparr>th_hardware := Some rate\<rparr>) (threads s)\<rparr>
               else s, [])
     | ExpectedHashRate rate \<Rightarrow>
         (case sm_get (threads s) thread_id of
            None \<Rightarrow> Some (s, [])
          | Some entry \<Rightarrow>
              let first_report = th_expected entry = None;
                  s1 = s\<lparr>threads := sm_update thread_id (\<lambda>e. e\<lparr>th_expected := Some rate\<rparr>) (threads s)\<rparr>
              in Option.bind (if first_report then assign_cached_jobs_to_thread E accepts now thread_id s1 else Some (s1, []))
                (\<lambda>(s2, out).
                  let s3 = (if first_report \<and> is_holding (gate s2) then s2\<lparr>gate := record_reported (gate s2)\<rparr> else s2)
                  in if \<not> is_holding (gate s3)
                     then map_option (\<lambda>(s4, out'). (s4, out @ out')) (broadcast_hashrate_change s3)
                     else Some (s3, out))))"

definition handle_new_thread :: "('f, 'm) sched_env_scheme \<Rightarrow> string \<Rightarrow> scheduler \<Rightarrow> scheduler \<times> effect list" where
  "handle_new_thread E name s =
    (let (thread_id, ths) = sm_insert (env_alloc E)
           \<lparr>th_name = name, th_hashrate = estimator_new hashrate_window, th_expected = None, th_hardware = None\<rparr>
           (threads s);
         s1 = s\<lparr>threads := ths, gate := record_registered (gate s), thread_events := thread_id # thread_events s\<rparr>
     in (s1\<lparr>last_thread_count := length (thread_events s1)\<rparr>, [Configure thread_id]))"

definition handle_thread_disconnections :: "scheduler \<Rightarrow> (scheduler \<times> effect list) option" where
  "handle_thread_disconnections s =
    (let current_count = length (thread_events s) in
     if current_count = last_thread_count s then Some (s, [])
     else let active = set (thread_events s);
              s1 = s\<lparr>threads := sm_retain (\<lambda>k _. k \<in> active) (threads s)\<rparr>;
              s2 = remove_tasks_where (\<lambda>e. te_thread e \<notin> active) s1
          in broadcast_hashrate_change (s2\<lparr>last_thread_count := current_count\<rparr>))"

definition handle_api_command :: "nat \<Rightarrow> bool \<Rightarrow> scheduler \<Rightarrow> (scheduler \<times> effect list) option" where
  "handle_api_command now pause s = publish_telemetry now (s\<lparr>paused := pause\<rparr>)"

definition handle_enumeration_complete :: "nat \<Rightarrow> scheduler \<Rightarrow> (scheduler \<times> effect list) option" where
  "handle_enumeration_complete now s =
    (let s1 = s\<lparr>gate := record_enumeration_complete (gate s)\<rparr>
     in if is_holding (gate s1) then Some (s1\<lparr>gate_deadline := Some (now + startup_gate_timeout)\<rparr>, [])
        else broadcast_hashrate_change s1)"

definition handle_gate_timeout :: "scheduler \<Rightarrow> (scheduler \<times> effect list) option" where
  "handle_gate_timeout s =
    map_option (\<lambda>(s', out). (s'\<lparr>gate_deadline := None\<rparr>, out))
      (broadcast_hashrate_change (s\<lparr>gate := record_timeout (gate s)\<rparr>))"

section \<open>The main loop\<close>

text \<open>The branch of \<open>select!\<close> that fires.\<close>

datatype branch =
  SourceRegistered string "string option"
  | SourceEventReceived key source_event
  | ShareReceived key thread_share
  | ThreadEventReceived key hash_thread_event
  | ThreadRegistered string
  | EnumerationComplete
  | GateTimeout
  | StatusTick
  | ApiCommand bool
  | TelemetryTick

text \<open>
  One iteration: the streams found ended while \<open>select!\<close> polled are dropped from their maps, one
  branch runs, then disconnections are looked for. \<open>it_accepts\<close> is how the threads answer.
\<close>

record iteration =
  it_now :: nat
  it_ended :: "key set \<times> key set \<times> key set"
  it_accepts :: "key \<Rightarrow> hash_task \<Rightarrow> bool"
  it_branch :: branch

definition drop_ended :: "key set \<times> key set \<times> key set \<Rightarrow> scheduler \<Rightarrow> scheduler" where
  "drop_ended ended s =
    (case ended of (srcs, ths, tks) \<Rightarrow>
      s\<lparr>source_events := filter (\<lambda>k. k \<notin> srcs) (source_events s),
        thread_events := filter (\<lambda>k. k \<notin> ths) (thread_events s),
        share_channels := filter (\<lambda>k. k \<notin> tks) (share_channels s)\<rparr>)"

definition run_branch ::
  "('f, 'm) sched_env_scheme \<Rightarrow> (key \<Rightarrow> hash_task \<Rightarrow> bool) \<Rightarrow> nat \<Rightarrow> branch \<Rightarrow> scheduler \<Rightarrow> (scheduler \<times> effect list) option" where
  "run_branch E accepts now b s =
    (case b of
       SourceRegistered name url \<Rightarrow> handle_source_registration E name url s
     | SourceEventReceived source_id ev \<Rightarrow>
         (case ev of
            UpdateJob job \<Rightarrow> assign_job_to_threads E accepts now ModeUpdate source_id job s
          | ReplaceJob job \<Rightarrow> assign_job_to_threads E accepts now ModeReplace source_id job s
          | ClearJobs \<Rightarrow> Some (handle_clear_jobs source_id s, []))
     | ShareReceived task_id sh \<Rightarrow> handle_share now task_id sh s
     | ThreadEventReceived thread_id ev \<Rightarrow> handle_thread_event E accepts now thread_id ev s
     | ThreadRegistered name \<Rightarrow> Some (handle_new_thread E name s)
     | EnumerationComplete \<Rightarrow> handle_enumeration_complete now s
     | GateTimeout \<Rightarrow> handle_gate_timeout s
     | StatusTick \<Rightarrow> map_option (\<lambda>(r, s'). (s', [])) (measured_hashrate now s)
     | ApiCommand pause \<Rightarrow> handle_api_command now pause s
     | TelemetryTick \<Rightarrow> publish_telemetry now s)"

definition loop_iteration :: "('f, 'm) sched_env_scheme \<Rightarrow> iteration \<Rightarrow> scheduler \<Rightarrow> (scheduler \<times> effect list) option" where
  "loop_iteration E it s =
    Option.bind (run_branch E (it_accepts it) (it_now it) (it_branch it) (drop_ended (it_ended it) s)) (\<lambda>(s', out).
      map_option (\<lambda>(s'', out'). (s'', out @ out')) (handle_thread_disconnections s'))"

text \<open>A branch can fire only for a stream that is in its map, the timeout only when armed.\<close>

definition iteration_ok :: "iteration \<Rightarrow> scheduler \<Rightarrow> bool" where
  "iteration_ok it s =
    (let s' = drop_ended (it_ended it) s in
     case it_branch it of
       SourceEventReceived k _ \<Rightarrow> k \<in> set (source_events s')
     | ShareReceived k _ \<Rightarrow> k \<in> set (share_channels s')
     | ThreadEventReceived k _ \<Rightarrow> k \<in> set (thread_events s')
     | GateTimeout \<Rightarrow> is_holding (gate s') \<and>
         (case gate_deadline s' of Some d \<Rightarrow> d \<le> it_now it | None \<Rightarrow> False)
     | _ \<Rightarrow> True)"

definition format_duration :: "(nat \<Rightarrow> string) \<Rightarrow> nat \<Rightarrow> string" where
  "format_duration show_nat n =
    (if 86400 \<le> n then show_nat (n div 86400) @ ''d '' @ show_nat (n mod 86400 div 3600) @ ''h''
     else if 3600 \<le> n then show_nat (n div 3600) @ ''h '' @ show_nat (n mod 3600 div 60) @ ''m''
     else if 60 \<le> n then show_nat (n div 60) @ ''m '' @ show_nat (n mod 60) @ ''s''
     else show_nat n @ ''s'')"

end
