(* ===== verification/Scheduler_Invariants.thy ===== *)
theory Scheduler_Invariants
  imports Scheduler "HOL-Library.Multiset"
begin

text \<open>
  What the handlers of the scheduler keep: the slot map laws, the well-formedness of a scheduler
  state with one preservation lemma per handler, and the states the main loop reaches.
\<close>


section \<open>Slot maps\<close>

definition alloc_fresh :: "alloc \<Rightarrow> bool" where
  "alloc_fresh a \<longleftrightarrow> (\<forall>ks. fst (a ks) \<notin> set ks)"

definition sm_ok :: "'v slotmap \<Rightarrow> bool" where
  "sm_ok m \<longleftrightarrow> distinct (sm_keys m) \<and> set (sm_keys m) \<subseteq> set (sm_issued m)"

lemma sm_keys_update [simp]: "sm_keys (sm_update k f m) = sm_keys m"
  by (simp add: sm_keys_def sm_update_def split_beta comp_def)

lemma sm_issued_update [simp]: "sm_issued (sm_update k f m) = sm_issued m"
  by (simp add: sm_update_def)

lemma sm_issued_retain [simp]: "sm_issued (sm_retain P m) = sm_issued m"
  by (simp add: sm_retain_def)

lemma sm_get_Some_key: "sm_get m k = Some v \<Longrightarrow> k \<in> set (sm_keys m)"
  by (force simp: sm_get_def sm_keys_def dest!: map_of_SomeD)

lemma sm_get_None_iff: "sm_get m k = None \<longleftrightarrow> k \<notin> set (sm_keys m)"
  by (simp add: sm_get_def sm_keys_def map_of_eq_None_iff)

lemma sm_get_update: "sm_get (sm_update k f m) j = map_option (if j = k then f else id) (sm_get m j)"
proof -
  have "map_of (map (\<lambda>(j, v). (j, if j = k then f v else v)) xs) j = map_option (if j = k then f else id) (map_of xs j)" for xs
    by (induction xs) auto
  then show ?thesis by (simp add: sm_get_def sm_update_def)
qed

lemma sm_retain_keys: "set (sm_keys (sm_retain (\<lambda>k _. P k) m)) = {k \<in> set (sm_keys m). P k}"
  by (auto simp: sm_keys_def sm_retain_def image_iff split_beta)

lemma sm_retain_ok: "sm_ok m \<Longrightarrow> sm_ok (sm_retain P m)"
  by (auto simp: sm_ok_def sm_keys_def sm_retain_def intro: distinct_map_filter)

lemma sm_ok_update: "sm_ok (sm_update k f m) \<longleftrightarrow> sm_ok m"
  by (simp add: sm_ok_def)

lemma sm_insert_facts:
  assumes "sm_insert a v m = (k, m')" "alloc_fresh a" "sm_ok m"
  shows "k \<notin> set (sm_keys m)" "sm_ok m'" "set (sm_entries m') = insert (k, v) (set (sm_entries m))"
    "set (sm_keys m') = insert k (set (sm_keys m))" "k \<notin> set (sm_issued m)" "sm_issued m' = k # sm_issued m"
proof -
  obtain p where a: "a (sm_issued m) = (k, p)"
    and m': "m' = \<lparr>sm_entries = take p (sm_entries m) @ (k, v) # drop p (sm_entries m), sm_issued = k # sm_issued m\<rparr>"
    using assms(1) by (auto simp: sm_insert_def split: prod.splits)
  show new: "k \<notin> set (sm_issued m)" using assms(2) a by (metis alloc_fresh_def fst_conv)
  then show k: "k \<notin> set (sm_keys m)" using assms(3) by (auto simp: sm_ok_def)
  show "sm_issued m' = k # sm_issued m" by (simp add: m')
  have perm: "mset (sm_entries m') = add_mset (k, v) (mset (sm_entries m))"
  proof -
    have "mset (take p (sm_entries m)) + mset (drop p (sm_entries m)) = mset (sm_entries m)"
      by (simp only: append_take_drop_id flip: mset_append)
    then show ?thesis by (simp add: m')
  qed
  then show s: "set (sm_entries m') = insert (k, v) (set (sm_entries m))" by (metis set_mset_add_mset_insert set_mset_mset)
  then show sk: "set (sm_keys m') = insert k (set (sm_keys m))" by (simp add: sm_keys_def)
  have "mset (sm_keys m') = add_mset k (mset (sm_keys m))"
    using arg_cong [OF perm, of "image_mset fst"] by (simp add: sm_keys_def)
  then have "distinct (sm_keys m')" using k assms(3)
    by (metis distinct.simps(2) mset.simps(2) mset_eq_imp_distinct_iff sm_ok_def)
  then show "sm_ok m'" using sk assms(3) by (auto simp: sm_ok_def m')
qed

section \<open>Well-formed scheduler states\<close>

text \<open>What the invariant looks at.\<close>

definition task_links :: "scheduler \<Rightarrow> bool" where
  "task_links s \<longleftrightarrow> (\<forall>(k, e) \<in> set (sm_entries (tasks s)).
     te_source e \<in> set (sm_keys (sources s)) \<and> te_thread e \<in> set (sm_keys (threads s)))"

definition sched_wf :: "scheduler \<Rightarrow> bool" where
  "sched_wf s \<longleftrightarrow> sm_ok (sources s) \<and> sm_ok (threads s) \<and> sm_ok (tasks s) \<and> task_links s \<and>
    set (share_channels s) \<subseteq> set (sm_keys (tasks s)) \<and>
    set (thread_events s) \<subseteq> set (sm_keys (threads s)) \<and> distinct (thread_events s) \<and>
    set (source_events s) \<subseteq> set (sm_keys (sources s))"

text \<open>The rest of the state, which assigning tasks leaves alone.\<close>

definition frame :: "scheduler \<Rightarrow> _" where
  "frame s = (sources s, sm_keys (threads s), sm_issued (threads s), source_events s, thread_events s, gate s,
     gate_deadline s, last_thread_count s, paused s, shares_submitted s)"

lemma sched_wf_upd_threads:
  "sm_keys ths = sm_keys (threads s) \<Longrightarrow> sm_issued ths = sm_issued (threads s) \<Longrightarrow>
    sched_wf (s\<lparr>threads := ths\<rparr>) \<longleftrightarrow> sched_wf s"
  by (simp add: sched_wf_def sm_ok_def task_links_def)

lemma sched_wf_upd_sources:
  "sm_keys srcs = sm_keys (sources s) \<Longrightarrow> sm_issued srcs = sm_issued (sources s) \<Longrightarrow>
    sched_wf (s\<lparr>sources := srcs\<rparr>) \<longleftrightarrow> sched_wf s"
  by (simp add: sched_wf_def sm_ok_def task_links_def)

lemma sched_wf_other [simp]:
  "sched_wf (s\<lparr>gate := g\<rparr>) \<longleftrightarrow> sched_wf s" "sched_wf (s\<lparr>gate_deadline := d\<rparr>) \<longleftrightarrow> sched_wf s"
  "sched_wf (s\<lparr>last_thread_count := n\<rparr>) \<longleftrightarrow> sched_wf s" "sched_wf (s\<lparr>paused := b\<rparr>) \<longleftrightarrow> sched_wf s"
  "sched_wf (s\<lparr>shares_submitted := c\<rparr>) \<longleftrightarrow> sched_wf s"
  by (simp_all add: sched_wf_def task_links_def)

lemma thread_rate_state:
  "thread_rate now k s = Some (r, s') \<Longrightarrow>
    \<exists>est. s' = s\<lparr>threads := sm_update k (\<lambda>e. e\<lparr>th_hashrate := est\<rparr>) (threads s)\<rparr> \<and> k \<in> set (sm_keys (threads s))"
  by (auto simp: thread_rate_def split: option.splits prod.splits dest: sm_get_Some_key)

lemma thread_rate_wf:
  assumes "thread_rate now k s = Some (r, s')"
  shows "sched_wf s' \<longleftrightarrow> sched_wf s" "frame s' = frame s" "tasks s' = tasks s" "share_channels s' = share_channels s"
    "k \<in> set (sm_keys (threads s))"
  using thread_rate_state [OF assms] by (auto simp: sched_wf_upd_threads frame_def)

lemma assign_task_facts:
  assumes "assign_task E accepts mode sid template tid rate r s = Some (s', out)"
    and "alloc_fresh (env_alloc E)" "sched_wf s" "sid \<in> set (sm_keys (sources s))" "tid \<in> set (sm_keys (threads s))"
  shows "sched_wf s'" "frame s' = frame s" "threads s' = threads s"
    "set (sm_entries (tasks s)) \<subseteq> set (sm_entries (tasks s'))"
    "\<And>k e. (k, e) \<in> set (sm_entries (tasks s')) \<Longrightarrow> (k, e) \<in> set (sm_entries (tasks s)) \<or>
       k \<notin> set (sm_issued (tasks s)) \<and> e = \<lparr>te_source = sid, te_template = template, te_thread = tid\<rparr>"
    "\<exists>t. out = [ToThread tid mode t] \<and> ht_template t = template \<and> ht_en2_range t = Some r \<and> ht_ntime t = job_time template"
    "set (sm_issued (tasks s)) \<subseteq> set (sm_issued (tasks s'))"
proof -
  obtain en2 it target where "iter_next (range_iter r) = Some (en2, it)"
    "compute_scheduler_target E rate (job_share_target template) = Some target"
    using assms(1) by (auto simp: assign_task_def bind_eq_Some_conv)
  moreover define t where "t = \<lparr>ht_template = template, ht_en2_range = Some r, ht_en2 = en2,
      ht_share_target = target, ht_ntime = job_time template\<rparr>"
  ultimately have out: "out = [ToThread tid mode t]"
    and st: "s' = s \<or> (\<exists>k ts. sm_insert (env_alloc E) \<lparr>te_source = sid, te_template = template, te_thread = tid\<rparr> (tasks s) = (k, ts)
        \<and> s' = s\<lparr>tasks := ts, share_channels := k # share_channels s\<rparr>)"
    using assms(1) by (auto simp: assign_task_def Let_def split: if_splits prod.splits)
  have t: "ht_template t = template" "ht_en2_range t = Some r" "ht_ntime t = job_time template"
    by (simp_all add: t_def)
  show "\<exists>t. out = [ToThread tid mode t] \<and> ht_template t = template \<and> ht_en2_range t = Some r \<and> ht_ntime t = job_time template"
    using t out by blast
  have ok: "sm_ok (tasks s)" using assms(3) by (simp add: sched_wf_def)
  from st have "sched_wf s' \<and> frame s' = frame s \<and> threads s' = threads s \<and>
    set (sm_entries (tasks s)) \<subseteq> set (sm_entries (tasks s')) \<and> set (sm_issued (tasks s)) \<subseteq> set (sm_issued (tasks s')) \<and>
    (\<forall>k e. (k, e) \<in> set (sm_entries (tasks s')) \<longrightarrow> (k, e) \<in> set (sm_entries (tasks s)) \<or>
       k \<notin> set (sm_issued (tasks s)) \<and> e = \<lparr>te_source = sid, te_template = template, te_thread = tid\<rparr>)"
  proof
    assume "s' = s"
    then show ?thesis using assms(3) by simp
  next
    assume "\<exists>k ts. sm_insert (env_alloc E) \<lparr>te_source = sid, te_template = template, te_thread = tid\<rparr> (tasks s) = (k, ts)
        \<and> s' = s\<lparr>tasks := ts, share_channels := k # share_channels s\<rparr>"
    then obtain k ts where i: "sm_insert (env_alloc E) \<lparr>te_source = sid, te_template = template, te_thread = tid\<rparr> (tasks s) = (k, ts)"
      and s': "s' = s\<lparr>tasks := ts, share_channels := k # share_channels s\<rparr>" by blast
    note f = sm_insert_facts [OF i assms(2) ok]
    have "sched_wf s'" using assms(3-5) f by (auto simp: sched_wf_def task_links_def s')
    then show ?thesis using f by (auto simp: s' frame_def)
  qed
  then show "sched_wf s'" "frame s' = frame s" "threads s' = threads s"
    "set (sm_entries (tasks s)) \<subseteq> set (sm_entries (tasks s'))" "set (sm_issued (tasks s)) \<subseteq> set (sm_issued (tasks s'))"
    "\<And>k e. (k, e) \<in> set (sm_entries (tasks s')) \<Longrightarrow> (k, e) \<in> set (sm_entries (tasks s)) \<or>
       k \<notin> set (sm_issued (tasks s)) \<and> e = \<lparr>te_source = sid, te_template = template, te_thread = tid\<rparr>"
    by blast+
qed


text \<open>The state after the rate of a thread was read differs in that thread's estimator only.\<close>

lemma assign_slices_facts:
  assumes "assign_slices E accepts now mode sid template zs s = Some (s', out)"
    and "alloc_fresh (env_alloc E)" "sched_wf s" "sid \<in> set (sm_keys (sources s))"
  shows "sched_wf s' \<and> frame s' = frame s \<and>
    set (sm_entries (tasks s)) \<subseteq> set (sm_entries (tasks s')) \<and>
    (\<forall>k e. (k, e) \<in> set (sm_entries (tasks s')) \<longrightarrow> (k, e) \<in> set (sm_entries (tasks s)) \<or>
       k \<notin> set (sm_issued (tasks s)) \<and> te_source e = sid \<and> te_template e = template) \<and>
    set (sm_issued (tasks s)) \<subseteq> set (sm_issued (tasks s')) \<and>
    list_all2 (\<lambda>(tid, r) m. \<exists>t. m = ToThread tid mode t \<and> ht_template t = template \<and>
       ht_en2_range t = Some r \<and> ht_ntime t = job_time template) zs out"
  using assms(1,3,4)
proof (induction zs arbitrary: s s' out)
  case Nil
  then show ?case by simp
next
  case (Cons z zs)
  obtain tid r where z: "z = (tid, r)" by fastforce
  with Cons.prems(1) obtain rate s1 s2 o1 o2 where
    r: "thread_rate now tid s = Some (rate, s1)"
    and a: "assign_task E accepts mode sid template tid rate r s1 = Some (s2, o1)"
    and l: "assign_slices E accepts now mode sid template zs s2 = Some (s', o2)" and out: "out = o1 @ o2"
    by (auto simp: bind_eq_Some_conv)
  note R = thread_rate_wf [OF r]
  have fr: "frame s1 = frame s" by (rule R)
  then have k1: "sm_keys (threads s1) = sm_keys (threads s)" "sources s1 = sources s" by (simp_all add: frame_def)
  have w1: "sched_wf s1" using R Cons.prems(2) by simp
  have sid1: "sid \<in> set (sm_keys (sources s1))" "tid \<in> set (sm_keys (threads s1))" using k1 R(5) Cons.prems(3) by simp_all
  note A = assign_task_facts [OF a assms(2) w1 sid1]
  have "sid \<in> set (sm_keys (sources s2))" using A(2) sid1 by (simp add: frame_def)
  note IH = Cons.IH [OF l A(1) this]
  have t12: "set (sm_entries (tasks s)) \<subseteq> set (sm_entries (tasks s2))" "set (sm_issued (tasks s)) \<subseteq> set (sm_issued (tasks s2))"
    using A(4,7) R(3) by simp_all
  have "\<And>k e. (k, e) \<in> set (sm_entries (tasks s2)) \<Longrightarrow> (k, e) \<in> set (sm_entries (tasks s)) \<or>
       k \<notin> set (sm_issued (tasks s)) \<and> te_source e = sid \<and> te_template e = template"
    using A(5) R(3) by fastforce
  with IH t12 have "\<forall>k e. (k, e) \<in> set (sm_entries (tasks s')) \<longrightarrow> (k, e) \<in> set (sm_entries (tasks s)) \<or>
       k \<notin> set (sm_issued (tasks s)) \<and> te_source e = sid \<and> te_template e = template"
    by blast
  with IH t12 A(2,6) fr show ?case by (auto simp: z out)
qed

lemma remove_tasks_where_facts:
  assumes "sched_wf s"
  shows "sched_wf (remove_tasks_where P s)" "frame (remove_tasks_where P s) = frame s"
    "threads (remove_tasks_where P s) = threads s"
    "set (sm_entries (tasks (remove_tasks_where P s))) = {(k, e) \<in> set (sm_entries (tasks s)). \<not> P e}"
    "sm_issued (tasks (remove_tasks_where P s)) = sm_issued (tasks s)"
proof -
  let ?ids = "map fst (filter (\<lambda>(k, e). P e) (sm_entries (tasks s)))"
  have d: "distinct (map fst (sm_entries (tasks s)))" using assms by (simp add: sched_wf_def sm_ok_def sm_keys_def)
  have mem: "k \<in> set ?ids \<longleftrightarrow> P e" if "(k, e) \<in> set (sm_entries (tasks s))" for k e
    using that d by (auto simp: image_iff) (metis eq_key_imp_eq_value)
  then show ents: "set (sm_entries (tasks (remove_tasks_where P s))) = {(k, e) \<in> set (sm_entries (tasks s)). \<not> P e}"
    by (auto simp: remove_tasks_where_def Let_def sm_retain_def simp del: set_map)
  show "frame (remove_tasks_where P s) = frame s" "threads (remove_tasks_where P s) = threads s"
    "sm_issued (tasks (remove_tasks_where P s)) = sm_issued (tasks s)"
    by (simp_all add: remove_tasks_where_def Let_def frame_def)
  have keys: "set (sm_keys (sm_retain (\<lambda>k _. k \<notin> set ?ids) (tasks s))) = {k \<in> set (sm_keys (tasks s)). k \<notin> set ?ids}"
    by (rule sm_retain_keys)
  show "sched_wf (remove_tasks_where P s)"
    using assms keys ents unfolding sched_wf_def
    by (auto simp: remove_tasks_where_def Let_def sm_retain_ok task_links_def)
qed

lemma broadcast_facts:
  assumes "broadcast_hashrate_change s = Some (s', out)"
  shows "sched_wf s' \<longleftrightarrow> sched_wf s" "threads s' = threads s" "tasks s' = tasks s" "share_channels s' = share_channels s"
    "thread_events s' = thread_events s" "gate s' = gate s" "last_thread_count s' = last_thread_count s"
    "sm_keys (sources s') = sm_keys (sources s)" "source_events s' = source_events s"
    "gate_deadline s' = gate_deadline s"
proof -
  have "s' = s\<lparr>sources := (sources s)\<lparr>sm_entries :=
           map (\<lambda>(k, e). (k, e\<lparr>src_alarm := alarm_reset (src_alarm e)\<rparr>)) (sm_entries (sources s))\<rparr>\<rparr>"
    using assms by (auto simp: broadcast_hashrate_change_def Let_def)
  moreover have "map (fst \<circ> (\<lambda>(k, e). (k, e\<lparr>src_alarm := alarm_reset (src_alarm e)\<rparr>))) xs = map fst xs" for xs :: "(key \<times> source_entry) list"
    by auto
  ultimately show "sched_wf s' \<longleftrightarrow> sched_wf s" "threads s' = threads s" "tasks s' = tasks s" "share_channels s' = share_channels s"
    "thread_events s' = thread_events s" "gate s' = gate s" "last_thread_count s' = last_thread_count s"
    "sm_keys (sources s') = sm_keys (sources s)" "source_events s' = source_events s" "gate_deadline s' = gate_deadline s"
    by (simp_all add: sched_wf_upd_sources sm_keys_def)
qed


section \<open>Every handler keeps the state well formed\<close>

lemma handle_source_registration_wf:
  assumes "handle_source_registration E name url s = Some (s', out)" "alloc_fresh (env_alloc E)" "sched_wf s"
  shows "sched_wf s'" "thread_events s' = thread_events s" "last_thread_count s' = last_thread_count s"
proof -
  obtain k srcs where i: "sm_insert (env_alloc E)
      \<lparr>src_name = name, src_url = url, src_last_job = None, src_alarm = alarm_new high_difficulty_debounce\<rparr> (sources s) = (k, srcs)"
    by fastforce
  let ?s = "s\<lparr>sources := srcs, source_events := k # source_events s\<rparr>"
  have "sm_ok (sources s)" using assms(3) by (simp add: sched_wf_def)
  note f = sm_insert_facts [OF i assms(2) this]
  have "sched_wf ?s" using assms(3) f by (auto simp: sched_wf_def task_links_def)
  moreover have "broadcast_hashrate_change ?s = Some (s', out) \<or> s' = ?s"
    using assms(1) i by (auto simp: handle_source_registration_def Let_def split: if_splits)
  ultimately show "sched_wf s'" "thread_events s' = thread_events s" "last_thread_count s' = last_thread_count s"
    using broadcast_facts [of ?s s' out] by auto
qed

lemma measured_hashrate_wf:
  assumes "measured_hashrate now s = Some (r, s')"
  shows "sched_wf s' \<longleftrightarrow> sched_wf s" "thread_events s' = thread_events s" "last_thread_count s' = last_thread_count s"
proof -
  have "map fst (map snd (map (\<lambda>(k, e). case th_hardware e of
           Some h \<Rightarrow> (Some h, (k, e))
         | None \<Rightarrow> let (r, est') = hashrate_at (th_hashrate e) now in (r, (k, e\<lparr>th_hashrate := est'\<rparr>))) xs)) = map fst xs" for xs :: "(key \<times> thread_entry) list"
    by (induction xs) (auto split: option.splits prod.splits)
  then obtain ths where "s' = s\<lparr>threads := ths\<rparr>" "sm_keys ths = sm_keys (threads s)" "sm_issued ths = sm_issued (threads s)"
    using assms by (auto simp: measured_hashrate_def Let_def bind_eq_Some_conv sm_keys_def simp del: map_map)
  then show "sched_wf s' \<longleftrightarrow> sched_wf s" "thread_events s' = thread_events s" "last_thread_count s' = last_thread_count s"
    by (simp_all add: sched_wf_upd_threads)
qed

lemma check_difficulty_alarm_state:
  "check_difficulty_alarm E now sid job rate s = Some s' \<Longrightarrow>
    \<exists>srcs. s' = s\<lparr>sources := srcs\<rparr> \<and> sm_keys srcs = sm_keys (sources s) \<and> sm_issued srcs = sm_issued (sources s)"
proof (cases "sm_get (sources s) sid")
  case None
  assume "check_difficulty_alarm E now sid job rate s = Some s'"
  with None have "s' = s\<lparr>sources := sources s\<rparr>" by (simp add: check_difficulty_alarm_def)
  then show ?thesis by blast
next
  case (Some e)
  assume "check_difficulty_alarm E now sid job rate s = Some s'"
  with Some obtain f where "s' = s\<lparr>sources := sm_update sid f (sources s)\<rparr>"
    by (auto simp: check_difficulty_alarm_def)
  then show ?thesis by (metis sm_issued_update sm_keys_update)
qed

text \<open>The steps of an assignment that is not cut short, for the lemmas about it.\<close>

lemma assign_job_steps:
  assumes "assign_job_to_threads E accepts now mode sid job s = Some (s', out)" "job_merkle_root job = ComputedRoot t"
  obtains (no_threads) "sm_entries (threads s) = []" "s' = s\<lparr>sources := sm_update sid (update_last_job job) (sources s)\<rparr>" "out = []"
  | (assigned) srcs s3 where
      "sm_keys srcs = sm_keys (sources s)" "sm_issued srcs = sm_issued (sources s)"
      "s3 = (if mode = ModeReplace then remove_tasks_where (\<lambda>e. te_source e = sid) (s\<lparr>sources := srcs\<rparr>) else s\<lparr>sources := srcs\<rparr>)"
      "eligible_thread_ids s3 = [] \<and> s' = s3 \<and> out = [] \<or>
       (\<exists>slices. split_range (mt_extranonce2_range t) (length (eligible_thread_ids s3)) = Some (Some slices) \<and>
          assign_slices E accepts now mode sid job (zip (eligible_thread_ids s3) slices) s3 = Some (s', out))"
proof (cases "sm_entries (threads s) = []")
  case True
  then show ?thesis using assms no_threads by (simp add: assign_job_to_threads_def Let_def)
next
  case False
  let ?s1 = "s\<lparr>sources := sm_update sid (update_last_job job) (sources s)\<rparr>"
  from False assms obtain rate s2 where c: "check_difficulty_alarm E now sid job rate ?s1 = Some s2"
    and rest: "(let s3 = (if mode = ModeReplace then remove_tasks_where (\<lambda>e. te_source e = sid) s2 else s2);
                    eligible = eligible_thread_ids s3
                in if eligible = [] then Some (s3, [])
                   else case split_range (mt_extranonce2_range t) (length eligible) of
                       Some (Some slices) \<Rightarrow> assign_slices E accepts now mode sid job (zip eligible slices) s3
                     | _ \<Rightarrow> None) = Some (s', out)"
    by (auto simp: assign_job_to_threads_def Let_def bind_eq_Some_conv)
  from check_difficulty_alarm_state [OF c] obtain srcs where
    srcs: "s2 = s\<lparr>sources := srcs\<rparr>" "sm_keys srcs = sm_keys (sources s)" "sm_issued srcs = sm_issued (sources s)" by auto
  show ?thesis
    by (rule assigned [OF srcs(2,3) refl]) (use rest in \<open>auto simp: srcs(1) Let_def split: if_splits option.splits\<close>)
qed

lemma assign_job_wf:
  assumes "assign_job_to_threads E accepts now mode sid job s = Some (s', out)"
    and "alloc_fresh (env_alloc E)" "sched_wf s" "sid \<in> set (sm_keys (sources s))"
  shows "sched_wf s' \<and> thread_events s' = thread_events s \<and> last_thread_count s' = last_thread_count s"
proof (cases "job_merkle_root job")
  case (FixedRoot h)
  then show ?thesis using assms by (simp add: assign_job_to_threads_def)
next
  case (ComputedRoot t)
  from assms(1) this show ?thesis
  proof (cases rule: assign_job_steps)
    case no_threads
    then show ?thesis using assms(3) by (simp add: sched_wf_upd_sources)
  next
    case (assigned srcs s3)
    have w: "sched_wf (s\<lparr>sources := srcs\<rparr>)" using assms(3) assigned(1,2) by (simp add: sched_wf_upd_sources)
    have "frame s3 = frame (s\<lparr>sources := srcs\<rparr>) \<and> sched_wf s3"
      using remove_tasks_where_facts [OF w] w by (simp add: assigned(3))
    then have s3: "sched_wf s3" "sid \<in> set (sm_keys (sources s3))" "thread_events s3 = thread_events s" "last_thread_count s3 = last_thread_count s"
      using assms(4) assigned(1) by (simp_all add: frame_def)
    from assigned(4) show ?thesis
    proof
      assume "\<exists>slices. split_range (mt_extranonce2_range t) (length (eligible_thread_ids s3)) = Some (Some slices) \<and>
          assign_slices E accepts now mode sid job (zip (eligible_thread_ids s3) slices) s3 = Some (s', out)"
      then show ?thesis using assign_slices_facts [OF _ assms(2) s3(1,2)] s3(3,4) by (auto simp: frame_def)
    qed (use s3 in simp)
  qed
qed

lemma assign_cached_wf:
  "assign_cached E accepts tid rate srcs s = Some (s', out) \<Longrightarrow> alloc_fresh (env_alloc E) \<Longrightarrow> sched_wf s \<Longrightarrow>
    tid \<in> set (sm_keys (threads s)) \<Longrightarrow> set (map fst srcs) \<subseteq> set (sm_keys (sources s)) \<Longrightarrow>
    sched_wf s' \<and> frame s' = frame s"
proof (induction srcs arbitrary: s out)
  case Nil
  then show ?case by simp
next
  case (Cons x srcs)
  obtain sid src where x: "x = (sid, src)" by fastforce
  show ?case
  proof (cases "\<exists>job t. src_last_job src = Some job \<and> job_merkle_root job = ComputedRoot t")
    case False
    then have "assign_cached E accepts tid rate srcs s = Some (s', out)"
      using Cons.prems(1) by (auto simp: x split: option.splits merkle_root_kind.splits)
    then show ?thesis using Cons by simp
  next
    case True
    then obtain job t where jt: "src_last_job src = Some job" "job_merkle_root job = ComputedRoot t" by blast
    then obtain s1 o1 o2 where
      a: "assign_task E accepts ModeUpdate sid job tid rate (mt_extranonce2_range t) s = Some (s1, o1)"
      and r: "assign_cached E accepts tid rate srcs s1 = Some (s', o2)"
      using Cons.prems(1) by (auto simp: x bind_eq_Some_conv)
    have "sid \<in> set (sm_keys (sources s))" using Cons.prems(5) by (simp add: x)
    note A = assign_task_facts [OF a Cons.prems(2,3) this Cons.prems(4)]
    have "tid \<in> set (sm_keys (threads s1))" "set (map fst srcs) \<subseteq> set (sm_keys (sources s1))"
      using A(2,3) Cons.prems(4,5) by (auto simp: frame_def)
    from Cons.IH [OF r Cons.prems(2) A(1) this] A(2) show ?thesis by simp
  qed
qed


lemma handle_thread_event_wf:
  assumes "handle_thread_event E accepts now tid ev s = Some (s', out)"
    and "alloc_fresh (env_alloc E)" "sched_wf s"
  shows "sched_wf s' \<and> thread_events s' = thread_events s \<and> last_thread_count s' = last_thread_count s"
proof (cases ev)
  case (ExpectedHashRate rate)
  show ?thesis
  proof (cases "sm_get (threads s) tid")
    case None
    then show ?thesis using assms by (simp add: handle_thread_event_def ExpectedHashRate)
  next
    case (Some entry)
    let ?s1 = "s\<lparr>threads := sm_update tid (\<lambda>e. e\<lparr>th_expected := Some rate\<rparr>) (threads s)\<rparr>"
    let ?first = "th_expected entry = None"
    define cont where "cont = (\<lambda>(s2, o2).
        let s3 = (if ?first \<and> is_holding (gate s2) then s2\<lparr>gate := record_reported (gate s2)\<rparr> else s2)
        in if \<not> is_holding (gate s3)
           then map_option (\<lambda>(s4, out'). (s4, o2 @ out')) (broadcast_hashrate_change s3)
           else Some (s3, o2))"
    have "Option.bind (if ?first then assign_cached_jobs_to_thread E accepts now tid ?s1 else Some (?s1, [])) cont = Some (s', out)"
      using assms(1) Some unfolding handle_thread_event_def ExpectedHashRate cont_def
      by (simp only: hash_thread_event.case option.case Let_def)
    then obtain s2 o2 where
      a: "(if ?first then assign_cached_jobs_to_thread E accepts now tid ?s1 else Some (?s1, [])) = Some (s2, o2)"
      and c: "cont (s2, o2) = Some (s', out)"
      unfolding bind_eq_Some_conv by fast
    have w1: "sched_wf ?s1" using assms(3) by (simp add: sched_wf_upd_threads)
    have tid: "tid \<in> set (sm_keys (threads ?s1))" using sm_get_Some_key [OF Some] by simp
    have s2: "sched_wf s2 \<and> thread_events s2 = thread_events s \<and> last_thread_count s2 = last_thread_count s"
    proof (cases ?first)
      case True
      with a obtain r sr where t: "thread_rate now tid ?s1 = Some (r, sr)"
        and c: "assign_cached E accepts tid r (sm_entries (sources sr)) sr = Some (s2, o2)"
        by (auto simp: assign_cached_jobs_to_thread_def bind_eq_Some_conv)
      note T = thread_rate_wf [OF t]
      have "sched_wf sr" "tid \<in> set (sm_keys (threads sr))" "set (map fst (sm_entries (sources sr))) \<subseteq> set (sm_keys (sources sr))"
        using T w1 tid by (simp_all add: frame_def) (simp add: sm_keys_def)
      from assign_cached_wf [OF c assms(2) this] T(2) show ?thesis by (simp add: frame_def)
    next
      case False
      with a w1 show ?thesis by auto
    qed
    let ?s3 = "if ?first \<and> is_holding (gate s2) then s2\<lparr>gate := record_reported (gate s2)\<rparr> else s2"
    have s3: "sched_wf ?s3 \<and> thread_events ?s3 = thread_events s \<and> last_thread_count ?s3 = last_thread_count s"
      using s2 by simp
    from c have "s' = ?s3 \<or> (\<exists>o3. broadcast_hashrate_change ?s3 = Some (s', o3))"
      unfolding cont_def Let_def prod.case by (auto split: if_splits)
    then show ?thesis
    proof
      assume "s' = ?s3"
      then show ?thesis using s3 by (simp only:)
    next
      assume "\<exists>o3. broadcast_hashrate_change ?s3 = Some (s', o3)"
      then obtain o3 where b: "broadcast_hashrate_change ?s3 = Some (s', o3)" by blast
      show ?thesis using s3 by (simp only: broadcast_facts(1,5,7) [OF b] simp_thms)
    qed
  qed
qed (use assms in \<open>auto simp: handle_thread_event_def sched_wf_upd_threads split: if_splits\<close>)

lemma handle_new_thread_wf:
  assumes "handle_new_thread E name s = (s', out)" "alloc_fresh (env_alloc E)" "sched_wf s"
  shows "sched_wf s'" "last_thread_count s' = length (thread_events s')"
    "\<exists>k. k \<notin> set (sm_issued (threads s)) \<and> thread_events s' = k # thread_events s \<and>
       set (sm_keys (threads s')) = insert k (set (sm_keys (threads s)))"
proof -
  obtain k ths where i: "sm_insert (env_alloc E)
      \<lparr>th_name = name, th_hashrate = estimator_new hashrate_window, th_expected = None, th_hardware = None\<rparr> (threads s) = (k, ths)"
    by fastforce
  have "sm_ok (threads s)" using assms(3) by (simp add: sched_wf_def)
  note f = sm_insert_facts [OF i assms(2) this]
  have s': "s' = s\<lparr>threads := ths, gate := record_registered (gate s), thread_events := k # thread_events s,
      last_thread_count := length (k # thread_events s)\<rparr>"
    using assms(1) i by (auto simp: handle_new_thread_def)
  have "sched_wf (s\<lparr>threads := ths, thread_events := k # thread_events s\<rparr>)"
    using assms(3) f by (auto simp: sched_wf_def task_links_def)
  then show "sched_wf s'" by (simp add: s' sched_wf_def task_links_def)
  show "last_thread_count s' = length (thread_events s')" by (simp add: s')
  show "\<exists>k. k \<notin> set (sm_issued (threads s)) \<and> thread_events s' = k # thread_events s \<and>
       set (sm_keys (threads s')) = insert k (set (sm_keys (threads s)))"
    using f by (intro exI [of _ k]) (simp add: s')
qed

lemma handle_share_wf:
  "handle_share now k sh s = Some (s', out) \<Longrightarrow> sched_wf s \<Longrightarrow>
    sched_wf s' \<and> thread_events s' = thread_events s \<and> last_thread_count s' = last_thread_count s"
  by (auto simp: handle_share_def Let_def sched_wf_upd_threads split: option.splits if_splits)

lemma run_branch_wf:
  assumes "run_branch E accepts now b s = Some (s', out)" "alloc_fresh (env_alloc E)" "sched_wf s"
    and "\<And>k ev. b = SourceEventReceived k ev \<Longrightarrow> k \<in> set (source_events s)"
  shows "sched_wf s'"
proof (cases b)
  case (SourceEventReceived k ev)
  then have k: "k \<in> set (sm_keys (sources s))" using assms(3,4) by (auto simp: sched_wf_def)
  show ?thesis
  proof (cases ev)
    case ClearJobs
    have "sched_wf (s\<lparr>sources := sm_update k (\<lambda>e. e\<lparr>src_last_job := None\<rparr>) (sources s)\<rparr>)"
      using assms(3) by (simp add: sched_wf_upd_sources)
    then show ?thesis using assms(1) remove_tasks_where_facts(1)
      by (auto simp: run_branch_def SourceEventReceived ClearJobs handle_clear_jobs_def)
  qed (use assms(1) assign_job_wf [OF _ assms(2,3) k] in \<open>auto simp: run_branch_def SourceEventReceived\<close>)
next
  case StatusTick
  then show ?thesis using assms(1,3) measured_hashrate_wf by (auto simp: run_branch_def)
next
  case TelemetryTick
  then show ?thesis using assms(1,3) measured_hashrate_wf by (auto simp: run_branch_def publish_telemetry_def)
next
  case (ApiCommand p)
  then show ?thesis using assms(1,3) measured_hashrate_wf(1) [of now "s\<lparr>paused := p\<rparr>"]
    by (auto simp: run_branch_def handle_api_command_def publish_telemetry_def)
next
  case EnumerationComplete
  then show ?thesis using assms(1,3) broadcast_facts(1)
    by (fastforce simp: run_branch_def handle_enumeration_complete_def Let_def split: if_splits)
next
  case GateTimeout
  then show ?thesis using assms(1,3) broadcast_facts(1)
    by (fastforce simp: run_branch_def handle_gate_timeout_def)
next
  case (SourceRegistered name url)
  then show ?thesis using assms handle_source_registration_wf(1) by (simp add: run_branch_def) blast
next
  case (ShareReceived k sh)
  then show ?thesis using assms(1,3) handle_share_wf by (simp add: run_branch_def)
next
  case (ThreadEventReceived k ev)
  then show ?thesis using assms(1-3) handle_thread_event_wf by (simp add: run_branch_def) blast
next
  case (ThreadRegistered name)
  then show ?thesis using assms(1-3) handle_new_thread_wf(1) by (simp add: run_branch_def)
qed

lemma drop_ended_wf: "sched_wf s \<Longrightarrow> sched_wf (drop_ended ended s)"
  by (auto simp: drop_ended_def sched_wf_def task_links_def split: prod.split)

lemma handle_thread_disconnections_facts:
  assumes "handle_thread_disconnections s = Some (s', out)" "sched_wf s"
  shows "sched_wf s'" "last_thread_count s' = length (thread_events s')" "thread_events s' = thread_events s"
    "last_thread_count s \<noteq> length (thread_events s) \<Longrightarrow> set (sm_keys (threads s')) = set (thread_events s)"
    "last_thread_count s = length (thread_events s) \<Longrightarrow> s' = s"
proof -
  let ?active = "set (thread_events s)"
  let ?s1 = "s\<lparr>threads := sm_retain (\<lambda>k _. k \<in> ?active) (threads s)\<rparr>"
  let ?s2 = "remove_tasks_where (\<lambda>e. te_thread e \<notin> ?active) ?s1"
  let ?s3 = "?s2\<lparr>last_thread_count := length (thread_events s)\<rparr>"
  have s': "last_thread_count s = length (thread_events s) \<and> s' = s \<or> last_thread_count s \<noteq> length (thread_events s) \<and> broadcast_hashrate_change ?s3 = Some (s', out)"
    and eq: "last_thread_count s = length (thread_events s) \<longrightarrow> s' = s"
    using assms(1) by (auto simp: handle_thread_disconnections_def Let_def split: if_splits)
  have ents: "set (sm_entries (tasks ?s2)) = {(k, e) \<in> set (sm_entries (tasks s)). te_thread e \<in> ?active}"
    and chans: "set (share_channels ?s2) \<subseteq> set (sm_keys (tasks ?s2))"
    and ok: "sm_ok (tasks ?s2)"
    and same: "sources ?s2 = sources s" "thread_events ?s2 = thread_events s" "source_events ?s2 = source_events s" "threads ?s2 = threads ?s1"
  proof -
    have "remove_tasks_where P (s\<lparr>threads := ths\<rparr>) = (remove_tasks_where P s)\<lparr>threads := ths\<rparr>" for P ths
      by (simp add: remove_tasks_where_def Let_def)
    then have e: "?s2 = (remove_tasks_where (\<lambda>e. te_thread e \<notin> ?active) s)\<lparr>threads := sm_retain (\<lambda>k _. k \<in> ?active) (threads s)\<rparr>" by simp
    note R = remove_tasks_where_facts [OF assms(2), of "\<lambda>e. te_thread e \<notin> ?active"]
    show "set (sm_entries (tasks ?s2)) = {(k, e) \<in> set (sm_entries (tasks s)). te_thread e \<in> ?active}"
      using R(4) by (auto simp: e)
    show "set (share_channels ?s2) \<subseteq> set (sm_keys (tasks ?s2))" "sm_ok (tasks ?s2)" using R(1) by (simp_all add: e sched_wf_def)
    show "sources ?s2 = sources s" "thread_events ?s2 = thread_events s" "source_events ?s2 = source_events s" "threads ?s2 = threads ?s1"
      using R(2) by (simp_all add: e frame_def)
  qed
  have tk: "set (sm_keys (threads ?s2)) = {k \<in> set (sm_keys (threads s)). k \<in> ?active}"
    by (simp add: same sm_retain_keys)
  have sub: "?active \<subseteq> set (sm_keys (threads s))" using assms(2) by (simp add: sched_wf_def)
  have "task_links ?s2" using assms(2) ents tk by (auto simp: task_links_def same sched_wf_def)
  then have w3: "sched_wf ?s3"
    using assms(2) chans ok tk sub unfolding sched_wf_other unfolding sched_wf_def
    by (auto simp: same sm_retain_ok)
  show "sched_wf s'" using s' assms(2) w3 broadcast_facts(1) [of ?s3 s' out] by auto
  show "thread_events s' = thread_events s" using s' broadcast_facts(5) [of ?s3 s' out] same by auto
  show "last_thread_count s' = length (thread_events s')"
    using s' eq broadcast_facts(5,7) [of ?s3 s' out] same by auto
  show "last_thread_count s = length (thread_events s) \<Longrightarrow> s' = s" using eq by blast
  show "set (sm_keys (threads s')) = set (thread_events s)" if "last_thread_count s \<noteq> length (thread_events s)"
    using that assms(1) s' tk sub broadcast_facts(2) [of ?s3 s' out]
    by (auto simp: handle_thread_disconnections_def Let_def)
qed


section \<open>Runs of the main loop\<close>

definition sched_inv :: "scheduler \<Rightarrow> bool" where
  "sched_inv s \<longleftrightarrow> sched_wf s \<and> last_thread_count s = length (thread_events s)"

text \<open>The states the loop can reach, and the messages sent on the way.\<close>

inductive reachable :: "('f, 'm) sched_env_scheme \<Rightarrow> scheduler \<Rightarrow> effect list \<Rightarrow> bool"
  for E :: "('f, 'm) sched_env_scheme" where
  start: "reachable E scheduler_new []"
| iterate: "reachable E s sent \<Longrightarrow> iteration_ok it s \<Longrightarrow> loop_iteration E it s = Some (s', out) \<Longrightarrow>
    reachable E s' (sent @ out)"

inductive_cases reachable_cases: "reachable E s sent"

lemma loop_iteration_inv:
  assumes "loop_iteration E it s = Some (s', out)" "iteration_ok it s" "alloc_fresh (env_alloc E)" "sched_inv s"
  shows "sched_inv s'"
proof -
  from assms(1) obtain s1 o1 o2 where b: "run_branch E (it_accepts it) (it_now it) (it_branch it) (drop_ended (it_ended it) s) = Some (s1, o1)"
    and d: "handle_thread_disconnections s1 = Some (s', o2)"
    by (auto simp: loop_iteration_def bind_eq_Some_conv)
  have "sched_wf (drop_ended (it_ended it) s)" using assms(4) by (intro drop_ended_wf) (simp add: sched_inv_def)
  then have "sched_wf s1" by (rule run_branch_wf [OF b assms(3)]) (use assms(2) in \<open>simp add: iteration_ok_def Let_def\<close>)
  from handle_thread_disconnections_facts(1,2) [OF d this] show ?thesis by (simp add: sched_inv_def)
qed

lemma sched_inv_new: "sched_inv scheduler_new"
  by (simp add: sched_inv_def sched_wf_def scheduler_new_def sm_ok_def sm_new_def sm_keys_def task_links_def)

lemma reachable_inv: "reachable E s sent \<Longrightarrow> alloc_fresh (env_alloc E) \<Longrightarrow> sched_inv s"
  by (induction rule: reachable.induct) (auto intro: sched_inv_new loop_iteration_inv)

text \<open>The same for runs as lists of iterations: a panic ends the run where it is.\<close>

definition sched_step :: "('f, 'm) sched_env_scheme \<Rightarrow> scheduler \<Rightarrow> iteration \<Rightarrow> scheduler" where
  "sched_step E s it = (case loop_iteration E it s of Some (s', out) \<Rightarrow> s' | None \<Rightarrow> s)"

interpretation loop: step_system scheduler_new "sched_step E"
  "\<lambda>s it. alloc_fresh (env_alloc E) \<and> iteration_ok it s" sched_inv
  for E
  by unfold_locales (auto simp: sched_inv_new sched_step_def loop_iteration_inv split: option.split)

end
