(* ===== verification/Scheduler_Properties.thy ===== *)
theory Scheduler_Properties
  imports Scheduler_Invariants
begin

text \<open>
  What the scheduler guarantees: routing of shares, invalidation of replaced and cleared jobs,
  the partition of a job's search space between threads, the clamped share targets, the
  startup gate and the detection of disconnected threads. The witnesses run the main loop
  on a small environment in which a double is a power of two.
\<close>

section \<open>An environment that computes\<close>

fun ilog2 :: "nat \<Rightarrow> nat" where
  "ilog2 n = (if n < 2 then 0 else Suc (ilog2 (n div 2)))"

declare ilog2.simps [simp del]

definition pow2_env :: "int sched_env" where
  "pow2_env =
    \<lparr>f64_pos_finite = (\<lambda>_. True), f64_integer_decode = (\<lambda>k. (2 ^ 52, k - 52)),
     env_alloc = (\<lambda>ks. (Suc (Max (set (0 # ks))), length ks)),
     f64_of_u64 = (\<lambda>n. int (ilog2 (unat n))),
     f64_as_secs = (\<lambda>d. if d < 10 ^ 9 then - 3 else int (ilog2 (d div 10 ^ 9))),
     f64_mul = (+), f64_div = (-), f64_le_one = (\<lambda>k. k \<le> 0), f64_le_zero = (\<lambda>_. False),
     f64_one = 0, f64_two32 = 32, f64_difficulty = (\<lambda>t. 224 - int (ilog2 (unat t))),
     f64_to_duration = (\<lambda>k. if k < 64 then Some (if k < 0 then 0 else 2 ^ nat k * 10 ^ 9) else None)\<rparr>"

lemma pow2_fresh: "alloc_fresh (env_alloc pow2_env)"
proof -
  have "Suc (Max (insert 0 (set ks))) \<notin> set ks" for ks :: "nat list"
    by (meson Max_ge List.finite_set finite.insertI insertI2 not_less_eq_eq order_refl)
  then show ?thesis by (simp add: alloc_fresh_def pow2_env_def)
qed

definition plain :: "nat \<Rightarrow> branch \<Rightarrow> iteration" where
  "plain now b = \<lparr>it_now = now, it_ended = ({}, {}, {}), it_accepts = (\<lambda>_ _. True), it_branch = b\<rparr>"

text \<open>Iterations one after the other, with everything sent.\<close>

fun run_loop :: "('f, 'm) sched_env_scheme \<Rightarrow> iteration list \<Rightarrow> scheduler \<Rightarrow> (scheduler \<times> effect list) option" where
  "run_loop E [] s = Some (s, [])"
| "run_loop E (it # its) s =
     (if iteration_ok it s
      then Option.bind (loop_iteration E it s) (\<lambda>(s', out).
        map_option (\<lambda>(s'', out'). (s'', out @ out')) (run_loop E its s'))
      else None)"

lemma run_loop_from: "reachable E s sent \<Longrightarrow> run_loop E its s = Some (s', out) \<Longrightarrow> reachable E s' (sent @ out)"
proof (induction its arbitrary: s sent out)
  case Nil
  then show ?case by simp
next
  case (Cons it its)
  then obtain s1 o1 o2 where ok: "iteration_ok it s" and l: "loop_iteration E it s = Some (s1, o1)"
    and r: "run_loop E its s1 = Some (s', o2)" and out: "out = o1 @ o2"
    by (auto simp: bind_eq_Some_conv split: if_splits)
  from Cons.IH [OF reachable.iterate [OF Cons.prems(1) ok l] r] out show ?case by simp
qed

lemma run_loop_reachable: "run_loop E its scheduler_new = Some (s, out) \<Longrightarrow> reachable E s out"
  using run_loop_from [OF reachable.start] by simp

lemmas exec = loop_iteration_def run_branch_def plain_def drop_ended_def handle_thread_disconnections_def Let_def
  handle_source_registration_def sm_insert_def sm_new_def scheduler_new_def gate_new_def is_holding_def
  handle_new_thread_def record_registered_def handle_thread_event_def sm_get_def sm_update_def
  assign_cached_jobs_to_thread_def thread_rate_def settled_hashrate_at_def is_settled_def with_limits_def
  estimator_new_def record_reported_def try_open_def iteration_ok_def pow2_env_def assign_job_to_threads_def
  update_last_job_def check_difficulty_alarm_def is_difficulty_too_high_def eligible_thread_ids_def
  expected_hashrate_def hash_rate_sum_def hash_rate_add_def add_chk_def assign_task_def compute_scheduler_target_def
  remove_tasks_where_def sm_retain_def range_iter_def broadcast_hashrate_change_def collect_hashrate_updates_def
  allocated_hashrate_def send_hashrate_updates_def List.map_filter_def

definition demo_job :: "string \<Rightarrow> job_template" where
  "demo_job jid =
    \<lparr>job_id = jid, job_prev_blockhash = [], job_version = \<lparr>vt_base = 0x20000000, vt_gp_bits_mask = (0xff, 0xff)\<rparr>,
     job_bits = 0, job_share_target = 2 ^ 224, job_time = 7,
     job_merkle_root = ComputedRoot \<lparr>mt_coinbase1 = [], mt_extranonce1 = [],
       mt_extranonce2_range = \<lparr>rng_min = 0, rng_max = 255, rng_size = 1\<rparr>, mt_coinbase2 = [], mt_merkle_branches = []\<rparr>\<rparr>"

text \<open>A source and two threads that have reported, and one task of an older job each.\<close>

definition demo_run :: "iteration list" where
  "demo_run = map (plain 0)
    [SourceRegistered ''pool'' None, ThreadRegistered ''a'', ThreadRegistered ''b'',
     ThreadEventReceived 1 (ExpectedHashRate 0), ThreadEventReceived 2 (ExpectedHashRate 0),
     SourceEventReceived 1 (UpdateJob (demo_job ''old''))]"

lemma demo_split: "split_range \<lparr>rng_min = 0, rng_max = 255, rng_size = 1\<rparr> 2 =
    Some (Some [\<lparr>rng_min = 0, rng_max = 127, rng_size = 1\<rparr>, \<lparr>rng_min = 128, rng_max = 255, rng_size = 1\<rparr>])"
  by code_simp

lemmas demo_split_Suc = demo_split [unfolded numeral_2_eq_2]

lemma demo_next: "iter_next \<lparr>it_range = \<lparr>rng_min = a, rng_max = b, rng_size = 1\<rparr>, it_current = a\<rparr> =
    Some (Some \<lparr>en2_value = a, en2_size = 1\<rparr>, \<lparr>it_range = \<lparr>rng_min = a, rng_max = b, rng_size = 1\<rparr>, it_current = a + 1\<rparr>)"
  if "a \<le> b" "b \<le> 255"
proof -
  have "\<not> (- 1 :: u64) \<le> 255" by (simp add: word_le_nat_alt unat_max_word)
  then have "b \<noteq> - 1" "a \<noteq> - 1" using that by (metis, metis order_trans)
  moreover have "wf_range \<lparr>rng_min = a, rng_max = b, rng_size = 1\<rparr>"
    using that by (simp add: wf_range_def max_for_size_def)
  ultimately show ?thesis using that iter_next_step [of "\<lparr>rng_min = a, rng_max = b, rng_size = 1\<rparr>" a] by auto
qed

lemma demo_state:
  obtains s sent s' out where "reachable pow2_env s sent" "source_events s = [1]" "share_channels s = [2, 1]"
    "assign_job_to_threads pow2_env (\<lambda>_ _. True) 0 ModeReplace 1 (demo_job ''new'') s = Some (s', out)" "out \<noteq> []"
    "eligible_thread_ids s = [1, 2]" "length (sm_entries (tasks s)) = 2" "thread_events s = [2, 1]"
proof -
  have "\<exists>s sent. run_loop pow2_env demo_run scheduler_new = Some (s, sent) \<and> source_events s = [1] \<and>
      share_channels s = [2, 1] \<and> eligible_thread_ids s = [1, 2] \<and> length (sm_entries (tasks s)) = 2 \<and>
      thread_events s = [2, 1] \<and>
      (\<exists>s' out. assign_job_to_threads pow2_env (\<lambda>_ _. True) 0 ModeReplace 1 (demo_job ''new'') s = Some (s', out) \<and> out \<noteq> [])"
    by (simp add: demo_run_def exec demo_job_def demo_split_Suc demo_next)
  then show ?thesis using that run_loop_reachable by blast
qed

section \<open>Properties\<close>

text \<open>
  C4: No loose ends. In every state the main loop reaches, each task belongs to a registered
  source and a registered thread, each share channel to a task, each thread stream to a
  registered thread, keys are never shared, and the thread count is the number of streams.
\<close>

theorem scheduler_invariant:
  assumes "reachable E s sent" "alloc_fresh (env_alloc E)"
  shows "(\<forall>(k, e) \<in> set (sm_entries (tasks s)).
      sm_get (sources s) (te_source e) \<noteq> None \<and> sm_get (threads s) (te_thread e) \<noteq> None) \<and>
    set (share_channels s) \<subseteq> set (sm_keys (tasks s)) \<and> set (thread_events s) \<subseteq> set (sm_keys (threads s)) \<and>
    distinct (sm_keys (tasks s)) \<and> distinct (sm_keys (threads s)) \<and> distinct (sm_keys (sources s)) \<and>
    last_thread_count s = length (thread_events s)"
  using reachable_inv [OF assms]
  by (auto simp: sched_inv_def sched_wf_def task_links_def sm_ok_def sm_get_None_iff)

theorem scheduler_invariant_witness:
  "\<exists>s sent. reachable pow2_env s sent \<and> length (sm_entries (tasks s)) = 2 \<and>
     (\<forall>(k, e) \<in> set (sm_entries (tasks s)). sm_get (sources s) (te_source e) \<noteq> None)"
proof (rule demo_state)
  fix s sent assume r: "reachable pow2_env s sent" and "length (sm_entries (tasks s)) = 2"
  with scheduler_invariant [OF r pow2_fresh] show ?thesis by fast
qed


text \<open>
  C5: A share is never attributed to work that was taken back: whenever the loop can receive a
  share, its task is still registered, so the share is recorded, and it is sent to a source
  exactly when its hash meets the target of the job, then to the source the job came from,
  under the id of that job and with the fields the chip found.
\<close>

theorem share_routing:
  assumes "reachable E s sent" "alloc_fresh (env_alloc E)"
    and "iteration_ok \<lparr>it_now = now, it_ended = ended, it_accepts = acc, it_branch = ShareReceived k sh\<rparr> s"
  shows "\<exists>e. sm_get (tasks s) k = Some e \<and>
    (case handle_share now k sh (drop_ended ended s) of
       Some (s', out) \<Rightarrow>
         out = (if from_le (sh_hash sh) \<le> job_share_target (te_template e)
                then [ToSource (te_source e) (SubmitShare \<lparr>share_job_id = job_id (te_template e), share_nonce = sh_nonce sh,
                  share_time = sh_ntime sh, share_version = sh_version sh, share_extranonce2 = sh_extranonce2 sh\<rparr>)]
                else []) \<and>
         unat (shares_submitted s') = unat (shares_submitted s) + length out \<and>
         map_option th_hashrate (sm_get (threads s') (te_thread e)) =
           map_option (\<lambda>t. record_at (th_hashrate t) now (sh_expected_work sh)) (sm_get (threads s) (te_thread e))
     | None \<Rightarrow> shares_submitted s = - 1)"
proof -
  have inv: "sched_wf s" using reachable_inv [OF assms(1,2)] by (simp add: sched_inv_def)
  have "k \<in> set (share_channels s)"
    using assms(3) by (auto simp: iteration_ok_def drop_ended_def split: prod.splits)
  then have "k \<in> set (sm_keys (tasks s))" using inv by (auto simp: sched_wf_def)
  then obtain e where e: "sm_get (tasks s) k = Some e" using sm_get_None_iff [of "tasks s" k] by auto
  then have "(k, e) \<in> set (sm_entries (tasks s))" by (auto simp: sm_get_def dest: map_of_SomeD)
  then obtain src where src: "sm_get (sources s) (te_source e) = Some src"
    using inv sm_get_None_iff [of "sources s" "te_source e"] by (fastforce simp: sched_wf_def task_links_def)
  have d: "tasks (drop_ended ended s) = tasks s" "sources (drop_ended ended s) = sources s"
    "threads (drop_ended ended s) = threads s" "shares_submitted (drop_ended ended s) = shares_submitted s"
    by (simp_all add: drop_ended_def split: prod.split)
  have full: "add_chk c 1 = None \<longleftrightarrow> c = - 1" for c :: u64
    using unat_max_word [where ?'a = 64] unsigned_less [of c, where ?'a = nat]
    by (auto simp: add_chk_def word_eq_iff_unsigned [where ?'a = nat])
  have "map_option th_hashrate (map_option (\<lambda>e. e\<lparr>th_hashrate := record_at (th_hashrate e) now w\<rparr>) o') =
      map_option (\<lambda>t. record_at (th_hashrate t) now w) o'" for o' w by (cases o') simp_all
  then show ?thesis
    using e src full [of "shares_submitted s"] unat_add_chk [of "shares_submitted s" 1]
    by (auto simp: handle_share_def d Let_def u256_from_le_bytes_def source_share_def sm_get_update split: option.split)
qed

theorem share_routing_witness:
  "\<exists>s sent e. reachable pow2_env s sent \<and> sm_get (tasks s) 1 = Some e"
proof (rule demo_state)
  fix s sent assume r: "reachable pow2_env s sent" and c: "share_channels s = [2, 1]"
  let ?sh = "\<lparr>sh_nonce = 1, sh_hash = [], sh_version = 0, sh_ntime = 7, sh_extranonce2 = None, sh_expected_work = 1\<rparr>"
  have "iteration_ok \<lparr>it_now = 5, it_ended = ({}, {}, {}), it_accepts = (\<lambda>_ _. True), it_branch = ShareReceived 1 ?sh\<rparr> s"
    using c by (simp add: iteration_ok_def drop_ended_def)
  from share_routing [OF r pow2_fresh this] r show ?thesis by blast
qed


section \<open>Assignment\<close>

lemma eligible_thread_ids_frame:
  "threads s' = threads s \<Longrightarrow> eligible_thread_ids s' = eligible_thread_ids s"
  by (simp add: eligible_thread_ids_def)

lemma assign_job_cases:
  assumes "assign_job_to_threads E accepts now mode sid job s = Some (s', out)" "job_merkle_root job = ComputedRoot t"
    and "alloc_fresh (env_alloc E)" "sched_wf s" "sid \<in> set (sm_keys (sources s))"
  obtains (idle) "out = []" "set (sm_entries (tasks s')) =
      {(k, e) \<in> set (sm_entries (tasks s)). \<not> (mode = ModeReplace \<and> te_source e = sid)}"
  | (work) slices where
      "split_range (mt_extranonce2_range t) (length (eligible_thread_ids s)) = Some (Some slices)"
      "{(k, e) \<in> set (sm_entries (tasks s)). \<not> (mode = ModeReplace \<and> te_source e = sid)} \<subseteq> set (sm_entries (tasks s'))"
      "\<And>k e. (k, e) \<in> set (sm_entries (tasks s')) \<Longrightarrow>
         (k, e) \<in> set (sm_entries (tasks s)) \<and> \<not> (mode = ModeReplace \<and> te_source e = sid) \<or>
         k \<notin> set (sm_issued (tasks s)) \<and> te_source e = sid \<and> te_template e = job"
      "list_all2 (\<lambda>(tid, r) m. \<exists>x. m = ToThread tid mode x \<and> ht_template x = job \<and>
         ht_en2_range x = Some r \<and> ht_ntime x = job_time job) (zip (eligible_thread_ids s) slices) out"
  using assms(1,2)
proof (cases rule: assign_job_steps)
  case no_threads
  then have "sm_entries (tasks s) = []"
    using assms(4) by (cases "sm_entries (tasks s)") (auto simp: sched_wf_def task_links_def sm_keys_def)
  with no_threads show ?thesis by (intro idle) auto
next
  case (assigned srcs s3)
  let ?s2 = "s\<lparr>sources := srcs\<rparr>"
  have w: "sched_wf ?s2" using assms(4) assigned(1,2) by (simp add: sched_wf_upd_sources)
  note R = remove_tasks_where_facts [OF w, of "\<lambda>e. te_source e = sid"]
  have s3: "sched_wf s3" "sid \<in> set (sm_keys (sources s3))" "threads s3 = threads s" "sm_issued (tasks s3) = sm_issued (tasks s)"
    and ents: "set (sm_entries (tasks s3)) = {(k, e) \<in> set (sm_entries (tasks s)). \<not> (mode = ModeReplace \<and> te_source e = sid)}"
    using R w assms(5) assigned(1) by (auto simp: assigned(3) frame_def)
  note el = eligible_thread_ids_frame [OF s3(3)]
  from assigned(4) show ?thesis
  proof
    assume "eligible_thread_ids s3 = [] \<and> s' = s3 \<and> out = []"
    then show ?thesis using ents by (intro idle) auto
  next
    assume "\<exists>slices. split_range (mt_extranonce2_range t) (length (eligible_thread_ids s3)) = Some (Some slices) \<and>
          assign_slices E accepts now mode sid job (zip (eligible_thread_ids s3) slices) s3 = Some (s', out)"
    then obtain slices where sl: "split_range (mt_extranonce2_range t) (length (eligible_thread_ids s)) = Some (Some slices)"
      and a: "assign_slices E accepts now mode sid job (zip (eligible_thread_ids s) slices) s3 = Some (s', out)"
      by (auto simp: el)
    note F = assign_slices_facts [OF a assms(3) s3(1,2)]
    show ?thesis
    proof (rule work [OF sl])
      show "{(k, e) \<in> set (sm_entries (tasks s)). \<not> (mode = ModeReplace \<and> te_source e = sid)} \<subseteq> set (sm_entries (tasks s'))"
        using F ents by auto
      show "(k, e) \<in> set (sm_entries (tasks s)) \<and> \<not> (mode = ModeReplace \<and> te_source e = sid) \<or>
         k \<notin> set (sm_issued (tasks s)) \<and> te_source e = sid \<and> te_template e = job"
        if "(k, e) \<in> set (sm_entries (tasks s'))" for k e
        using F ents that s3(4) by auto
      show "list_all2 (\<lambda>(tid, r) m. \<exists>x. m = ToThread tid mode x \<and> ht_template x = job \<and>
         ht_en2_range x = Some r \<and> ht_ntime x = job_time job) (zip (eligible_thread_ids s) slices) out"
        using F by simp
    qed
  qed
qed

lemma source_event_known:
  assumes "reachable E s sent" "alloc_fresh (env_alloc E)" "sid \<in> set (source_events s)"
  shows "sched_wf s" "sid \<in> set (sm_keys (sources s))"
  using reachable_inv [OF assms(1,2)] assms(3) by (auto simp: sched_inv_def sched_wf_def)

text \<open>
  A replaced job leaves nothing behind. When a source's \<open>ReplaceJob\<close> has been handled, every
  task of that source is a new one for the new job, under a key never used before; the tasks
  of the other sources are exactly those there were.
\<close>

theorem replace_invalidates:
  assumes "reachable E s sent" "alloc_fresh (env_alloc E)" "sid \<in> set (source_events s)"
    and "run_branch E accepts now (SourceEventReceived sid (ReplaceJob job)) s = Some (s', out)"
    and "job_merkle_root job = ComputedRoot t"
  shows "(\<forall>(k, e) \<in> set (sm_entries (tasks s')). te_source e = sid \<longrightarrow> te_template e = job \<and> k \<notin> set (sm_issued (tasks s))) \<and>
    {(k, e) \<in> set (sm_entries (tasks s')). te_source e \<noteq> sid} = {(k, e) \<in> set (sm_entries (tasks s)). te_source e \<noteq> sid}"
proof -
  have "assign_job_to_threads E accepts now ModeReplace sid job s = Some (s', out)"
    using assms(4) by (simp add: run_branch_def)
  from this assms(5,2) source_event_known [OF assms(1-3)] show ?thesis
    by (cases rule: assign_job_cases) auto
qed

theorem replace_invalidates_witness:
  "\<exists>s sent s' out. reachable pow2_env s sent \<and>
     run_branch pow2_env (\<lambda>_ _. True) 0 (SourceEventReceived 1 (ReplaceJob (demo_job ''new''))) s = Some (s', out) \<and>
     (\<forall>(k, e) \<in> set (sm_entries (tasks s')). te_source e = 1 \<longrightarrow> te_template e = demo_job ''new'')"
proof (rule demo_state)
  fix s sent s' out assume r: "reachable pow2_env s sent" and ev: "source_events s = [1]"
    and a: "assign_job_to_threads pow2_env (\<lambda>_ _. True) 0 ModeReplace 1 (demo_job ''new'') s = Some (s', out)"
  have b: "run_branch pow2_env (\<lambda>_ _. True) 0 (SourceEventReceived 1 (ReplaceJob (demo_job ''new''))) s = Some (s', out)"
    using a by (simp add: run_branch_def)
  have k: "1 \<in> set (source_events s)" using ev by simp
  obtain t where "job_merkle_root (demo_job ''new'') = ComputedRoot t" by (simp add: demo_job_def)
  from replace_invalidates [OF r pow2_fresh k b this] r b show ?thesis by fast
qed


text \<open>
  C6: Clearing a source's jobs removes all of its tasks with their share channels and forgets its
  cached job, so no thread that arrives later is given the stale work; everything of the
  other sources stays.
\<close>

theorem clear_jobs_forgets:
  assumes "reachable E s sent" "alloc_fresh (env_alloc E)" "sid \<in> set (source_events s)"
  shows "case run_branch E accepts now (SourceEventReceived sid ClearJobs) s of
      Some (s', out) \<Rightarrow> out = [] \<and>
        set (sm_entries (tasks s')) = {(k, e) \<in> set (sm_entries (tasks s)). te_source e \<noteq> sid} \<and>
        set (share_channels s') = {k \<in> set (share_channels s). k \<in> set (sm_keys (tasks s'))} \<and>
        map_option src_last_job (sm_get (sources s') sid) = Some None \<and>
        (\<forall>k. k \<noteq> sid \<longrightarrow> sm_get (sources s') k = sm_get (sources s) k)
    | None \<Rightarrow> False"
proof -
  let ?s1 = "s\<lparr>sources := sm_update sid (\<lambda>e. e\<lparr>src_last_job := None\<rparr>) (sources s)\<rparr>"
  note k = source_event_known [OF assms]
  have w: "sched_wf ?s1" using k by (simp add: sched_wf_upd_sources)
  note R = remove_tasks_where_facts [OF w, of "\<lambda>e. te_source e = sid"]
  obtain e where e: "sm_get (sources s) sid = Some e" using k(2) sm_get_None_iff [of "sources s" sid] by auto
  let ?s' = "handle_clear_jobs sid s"
  have s': "?s' = remove_tasks_where (\<lambda>e. te_source e = sid) ?s1" by (simp add: handle_clear_jobs_def)
  have src: "sources ?s' = sources ?s1" using R(2) by (simp add: s' frame_def)
  have ents: "set (sm_entries (tasks ?s')) = {(k, e) \<in> set (sm_entries (tasks s)). te_source e \<noteq> sid}"
    using R(4) by (simp add: s')
  have "set (share_channels ?s') = {k \<in> set (share_channels s). k \<in> set (sm_keys (tasks ?s'))}"
    using k(1) by (auto simp: s' remove_tasks_where_def Let_def sm_retain_keys sched_wf_def)
  then show ?thesis using ents e by (auto simp: run_branch_def src sm_get_update option.map_id)
qed

theorem clear_jobs_forgets_witness:
  "\<exists>s sent. reachable pow2_env s sent \<and> length (sm_entries (tasks s)) = 2 \<and>
     run_branch pow2_env (\<lambda>_ _. True) 0 (SourceEventReceived 1 ClearJobs) s \<noteq> None"
proof (rule demo_state)
  fix s sent assume r: "reachable pow2_env s sent" and ev: "source_events s = [1]"
    and n: "length (sm_entries (tasks s)) = 2"
  have "1 \<in> set (source_events s)" using ev by simp
  from clear_jobs_forgets [OF r pow2_fresh this, of "\<lambda>_ _. True" 0] r n show ?thesis
    by (auto split: option.splits)
qed


text \<open>The tasks among the messages.\<close>

definition work_of :: "effect \<Rightarrow> (key \<times> hash_task) list" where
  "work_of m = (case m of ToThread k _ x \<Rightarrow> [(k, x)] | _ \<Rightarrow> [])"

lemma work_of_ToThread [simp]: "work_of (ToThread k m x) = [(k, x)]"
  by (simp add: work_of_def)

lemma work_of_sent:
  "list_all2 (\<lambda>(tid, r) m. \<exists>x. m = ToThread tid mode x \<and> ht_template x = job \<and> ht_en2_range x = Some r) zs ms \<Longrightarrow>
    map fst (concat (map work_of ms)) = map fst zs \<and>
    (\<forall>(k, x) \<in> set (concat (map work_of ms)). ht_template x = job \<and> ht_en2_range x \<noteq> None) \<and>
    map (\<lambda>(k, x). the (ht_en2_range x)) (concat (map work_of ms)) = map snd zs"
proof (induction rule: list_all2_induct)
  case Nil
  then show ?case by simp
next
  case (Cons z zs m ms)
  obtain tid r where z: "z = (tid, r)" by fastforce
  with Cons(1) obtain x where "m = ToThread tid mode x" "ht_template x = job" "ht_en2_range x = Some r" by auto
  with Cons.IH z show ?case by simp
qed

text \<open>
  C7: The threads share one job's search space without overlap and without gaps. Whenever an
  update or a replacement hands out work, every eligible thread gets exactly one task of that
  job, the extranonce2 ranges of different threads have no value in common, and together in
  order they are the range of the job (less its last value if it is the whole of eight bytes).
\<close>

theorem assignment_partitions_work:
  assumes "reachable E s sent" "alloc_fresh (env_alloc E)" "sid \<in> set (source_events s)"
    and "assign_job_to_threads E accepts now mode sid job s = Some (s', out)" "out \<noteq> []"
    and "job_merkle_root job = ComputedRoot t" "wf_range (mt_extranonce2_range t)"
  shows "let work = concat (map work_of out);
             ranges = map (\<lambda>(k, x). the (ht_en2_range x)) work;
             whole = range_values (mt_extranonce2_range t)
    in map fst work = eligible_thread_ids s \<and> distinct (map fst work) \<and>
       (\<forall>(k, x) \<in> set work. ht_template x = job \<and> ht_en2_range x \<noteq> None) \<and>
       distinct (concat (map range_values ranges)) \<and>
       concat (map range_values ranges) = (if 1 < length work \<and> length whole = 2 ^ 64 then butlast whole else whole)"
  using assms(4,6,2) source_event_known [OF assms(1-3)]
proof (cases rule: assign_job_cases)
  case idle
  then show ?thesis using assms(5) by simp
next
  case (work slices)
  let ?el = "eligible_thread_ids s"
  note F = split_facts [OF assms(7) work(1)]
  have len: "length slices = length ?el" by (rule F)
  have "list_all2 (\<lambda>(tid, r) m. \<exists>x. m = ToThread tid mode x \<and> ht_template x = job \<and> ht_en2_range x = Some r)
      (zip ?el slices) out"
    using work(4) by (rule list_all2_mono) auto
  note W' = work_of_sent [OF this]
  have z: "map fst (zip ?el slices) = ?el" "map snd (zip ?el slices) = slices" using len by simp_all
  have W: "map fst (concat (map work_of out)) = ?el"
      "\<forall>(k, x) \<in> set (concat (map work_of out)). ht_template x = job \<and> ht_en2_range x \<noteq> None"
      "map (\<lambda>(k, x). the (ht_en2_range x)) (concat (map work_of out)) = slices"
    using W' unfolding z by blast+
  have d: "distinct ?el"
    using reachable_inv [OF assms(1,2)] unfolding eligible_thread_ids_def
    by (intro distinct_map_filter) (simp add: sched_inv_def sched_wf_def sm_ok_def sm_keys_def)
  let ?whole = "range_values (mt_extranonce2_range t)"
  have n: "length (concat (map work_of out)) = length ?el" using arg_cong [OF W(1), of length] by simp
  have ne: "?el \<noteq> []" using work(4) assms(5) by auto
  have cover: "concat (map range_values slices) = (if 1 < length ?el \<and> length ?whole = 2 ^ 64 then butlast ?whole else ?whole)"
    using F(3) length_range_values [of "mt_extranonce2_range t"] ne
    by (cases "length ?el = 1") (auto simp: split_total_def butlast_conv_take min_def Suc_lessI)
  have "distinct ?whole" by (simp add: range_values_def del: upt_Suc)
  then have "distinct (concat (map range_values slices))" unfolding cover by (simp add: distinct_butlast)
  with d W(2) cover show ?thesis unfolding Let_def W(1) W(3) n by (intro conjI refl)
qed


theorem assignment_partitions_work_witness:
  "\<exists>s sent s' out. reachable pow2_env s sent \<and>
     assign_job_to_threads pow2_env (\<lambda>_ _. True) 0 ModeReplace 1 (demo_job ''new'') s = Some (s', out) \<and>
     map fst (concat (map work_of out)) = [1, 2]"
proof (rule demo_state)
  fix s sent s' out assume r: "reachable pow2_env s sent" and ev: "source_events s = [1]"
    and a: "assign_job_to_threads pow2_env (\<lambda>_ _. True) 0 ModeReplace 1 (demo_job ''new'') s = Some (s', out)"
    and ne: "out \<noteq> []" and el: "eligible_thread_ids s = [1, 2]"
  have k: "1 \<in> set (source_events s)" using ev by simp
  obtain t where t: "job_merkle_root (demo_job ''new'') = ComputedRoot t" and "mt_extranonce2_range t = \<lparr>rng_min = 0, rng_max = 255, rng_size = 1\<rparr>"
    by (simp add: demo_job_def)
  then have w: "wf_range (mt_extranonce2_range t)" by (simp add: wf_range_def max_for_size_def)
  from assignment_partitions_work [OF r pow2_fresh k a ne t w] r a el show ?thesis by (auto simp: Let_def)
qed

section \<open>Share targets\<close>

text \<open>
  The floating point facts a target rests on: exact division, \<open>\<le> 1.0\<close> decided right, and more
  hashes in the longer interval.
\<close>

definition rate_law :: "('f, 'm) sched_env_scheme \<Rightarrow> ('f \<Rightarrow> rat) \<Rightarrow> bool" where
  "rate_law E val \<longleftrightarrow> f64_law E val \<and> (\<forall>x. f64_le_one E x \<longleftrightarrow> val x \<le> 1) \<and>
    (\<forall>r d. 1 < val (hashes_in E d r) \<longrightarrow> f64_pos_finite E (hashes_in E d r)) \<and>
    (\<forall>r d d'. d \<le> d' \<longrightarrow> val (hashes_in E d r) \<le> val (hashes_in E d' r))"

text \<open>The target at which the hashes of one interval give one share.\<close>

definition ideal_target :: "rat \<Rightarrow> int" where
  "ideal_target hashes = (if hashes \<le> 1 then 2 ^ 256 - 1 else \<lfloor>(2 ^ 256 - 1) / hashes\<rfloor>)"

lemma ideal_target_antimono: "x \<le> y \<Longrightarrow> ideal_target y \<le> ideal_target x"
proof -
  assume le: "x \<le> y"
  consider "y \<le> 1" | "x \<le> 1" "1 < y" | "1 < x" "1 < y" using le by linarith
  then show ?thesis
  proof cases
    case 2
    then have "(2 ^ 256 - 1) / y \<le> (2 ^ 256 - 1) / 1" by (intro divide_left_mono) auto
    then have "\<lfloor>(2 ^ 256 - 1) / y\<rfloor> \<le> \<lfloor>2 ^ 256 - 1 :: rat\<rfloor>" by (intro floor_mono) simp
    also have "\<lfloor>2 ^ 256 - 1 :: rat\<rfloor> = 2 ^ 256 - 1" by simp
    finally show ?thesis using 2 by (simp add: ideal_target_def)
  next
    case 3
    then have "(2 ^ 256 - 1) / y \<le> (2 ^ 256 - 1) / x" using le by (intro divide_left_mono) auto
    then show ?thesis using 3 by (simp add: ideal_target_def floor_mono)
  qed (use le in \<open>simp add: ideal_target_def\<close>)
qed

lemma rate_to_target_value:
  assumes "rate_law E val"
  shows "\<exists>t. rate_to_target E d r = Some t \<and> int (unat t) = ideal_target (val (hashes_in E d r))"
proof (cases "val (hashes_in E d r) \<le> 1")
  case True
  have "int (unat (- 1 :: u256)) = 2 ^ 256 - 1" unfolding unat_max_word by simp
  then have "int (unat (- 1 :: u256)) = ideal_target (val (hashes_in E d r))" using True by (simp only: ideal_target_def if_True)
  moreover have "rate_to_target E d r = Some (- 1)"
    using True assms by (simp add: rate_to_target_def share_rate_target_def rate_law_def)
  ultimately show ?thesis by blast
next
  case False
  let ?v = "val (hashes_in E d r)"
  have F: "f64_law E val" "f64_pos_finite E (hashes_in E d r)" using assms False by (auto simp: rate_law_def)
  from u256_div_f64_value [OF F, of "- 1"] obtain t where t: "u256_div_f64 E (- 1) (hashes_in E d r) = Some t"
    "int (unat t) = min \<lfloor>of_nat (unat (- 1 :: u256)) / ?v\<rfloor> (2 ^ 256 - 1)" by blast
  have m: "(of_nat (unat (- 1 :: u256)) :: rat) = 2 ^ 256 - 1"
    using unat_max_word [where ?'a = 256] by (simp add: of_nat_diff)
  have "\<lfloor>(2 ^ 256 - 1) / ?v\<rfloor> \<le> 2 ^ 256 - 1"
    using ideal_target_antimono [of 1 ?v] False by (simp add: ideal_target_def)
  then have "int (unat t) = ideal_target ?v" using t(2) False unfolding m by (simp add: ideal_target_def)
  then show ?thesis using t(1) False assms
    by (auto simp: rate_to_target_def share_rate_target_def rate_law_def)
qed

text \<open>
  C8: The target handed to a thread keeps its reports between one and ten per second. For a
  thread with a rate, the job's target is used as it is when it lies between the target of one
  share a second and the one of ten, and is otherwise moved to the nearer of the two; the
  clamp never panics, and without a rate the job's target passes through.
\<close>

theorem scheduler_target_clamped:
  assumes "rate_law E val"
  shows "\<exists>t. compute_scheduler_target E r source_target = Some t \<and>
    int (unat t) = (if r = 0 then int (unat source_target)
      else max (ideal_target (val (hashes_in E measurement_share_interval r)))
             (min (ideal_target (val (hashes_in E flood_cap_interval r))) (int (unat source_target))))"
proof (cases "r = 0")
  case True
  then show ?thesis by (simp add: compute_scheduler_target_def)
next
  case False
  obtain lo where lo: "rate_to_target E measurement_share_interval r = Some lo"
    "int (unat lo) = ideal_target (val (hashes_in E measurement_share_interval r))"
    using rate_to_target_value [OF assms] by blast
  obtain hi where hi: "rate_to_target E flood_cap_interval r = Some hi"
    "int (unat hi) = ideal_target (val (hashes_in E flood_cap_interval r))"
    using rate_to_target_value [OF assms] by blast
  have "flood_cap_interval \<le> measurement_share_interval"
    by (simp add: flood_cap_interval_def measurement_share_interval_def of_secs_def)
  then have "val (hashes_in E flood_cap_interval r) \<le> val (hashes_in E measurement_share_interval r)"
    using assms by (simp add: rate_law_def)
  then have "int (unat lo) \<le> int (unat hi)" unfolding lo(2) hi(2) by (rule ideal_target_antimono)
  then have "unat lo \<le> unat hi" by (simp only: of_nat_le_iff)
  moreover define t where "t = (if source_target < lo then lo else if hi < source_target then hi else source_target)"
  ultimately have "compute_scheduler_target E r source_target = Some t"
    "unat t = max (unat lo) (min (unat hi) (unat source_target))"
    using False lo(1) hi(1) by (auto simp: compute_scheduler_target_def word_less_nat_alt)
  moreover from this(2) have "int (unat t) = max (int (unat lo)) (min (int (unat hi)) (int (unat source_target)))"
    by (simp only: of_nat_max of_nat_min)
  ultimately show ?thesis unfolding lo(2) hi(2) if_not_P [OF False] by blast
qed

lemma ilog2_mono: "m \<le> n \<Longrightarrow> ilog2 m \<le> ilog2 n"
proof (induction n arbitrary: m rule: ilog2.induct)
  case (1 n)
  show ?case
  proof (cases "n < 2")
    case True
    then show ?thesis using 1 by (simp add: ilog2.simps [of m] ilog2.simps [of n])
  next
    case False
    then have "ilog2 (m div 2) \<le> ilog2 (n div 2)" using 1 by (intro "1.IH") (auto intro: div_le_mono)
    then show ?thesis using False by (simp add: ilog2.simps [of m] ilog2.simps [of n])
  qed
qed

lemma pow2_law: "rate_law pow2_env (\<lambda>k. 2 powi k)"
proof -
  have v: "4503599627370496 * (2 :: rat) powi (k - 52) = 2 powi k" for k
  proof -
    have "(2 :: rat) powi k = 2 powi (52 + (k - 52))" by simp
    also have "\<dots> = 2 powi 52 * 2 powi (k - 52)" by (rule power_int_add) simp
    finally show ?thesis by simp
  qed
  have one: "(2 :: rat) powi k \<le> 1 \<longleftrightarrow> k \<le> 0" for k :: int
  proof -
    have "(2 :: rat) powi 0 < 2 powi k" if "0 < k" using that by (intro power_int_strict_increasing) auto
    moreover have "(2 :: rat) powi k \<le> 2 powi 0" if "k \<le> 0" using that by (intro power_int_increasing) auto
    ultimately show ?thesis by fastforce
  qed
  have "f64_as_secs pow2_env d \<le> f64_as_secs pow2_env d'" if "d \<le> d'" for d d'
    using that ilog2_mono [OF div_le_mono [OF that], of "10 ^ 9"] by (auto simp: pow2_env_def)
  then have mono: "hashes_in pow2_env d r \<le> hashes_in pow2_env d' r" if "d \<le> d'" for d d' r
    using that by (simp add: hashes_in_def) (simp add: pow2_env_def)
  have "f64_law pow2_env (\<lambda>k. 2 powi k)"
    unfolding f64_law_def by (simp add: pow2_env_def v)
  then show ?thesis using mono by (auto simp: rate_law_def one pow2_env_def intro: power_int_increasing)
qed

theorem scheduler_target_clamped_witness:
  "rate_law pow2_env (\<lambda>k. 2 powi k) \<and>
   (\<exists>t. compute_scheduler_target pow2_env (2 ^ 40) (2 ^ 224) = Some t \<and>
      int (unat t) = max (ideal_target (2 powi hashes_in pow2_env measurement_share_interval (2 ^ 40)))
        (min (ideal_target (2 powi hashes_in pow2_env flood_cap_interval (2 ^ 40))) (int (unat (2 ^ 224 :: u256)))))"
  using scheduler_target_clamped [OF pow2_law, of "2 ^ 40" "2 ^ 224"] pow2_law by (simp only: simp_thms) simp

section \<open>The startup gate\<close>

datatype gate_event = GRegistered | GReported | GComplete | GTimeout

fun gate_step :: "startup_gate \<Rightarrow> gate_event \<Rightarrow> startup_gate" where
  "gate_step g GRegistered = record_registered g"
| "gate_step g GReported = record_reported g"
| "gate_step g GComplete = record_enumeration_complete g"
| "gate_step g GTimeout = record_timeout g"

definition gate_due :: "gate_event list \<Rightarrow> bool" where
  "gate_due es \<longleftrightarrow> GTimeout \<in> set es \<or>
    GComplete \<in> set es \<and> length (filter ((=) GRegistered) es) \<le> length (filter ((=) GReported) es)"

lemma gate_state:
  "let g = foldl gate_step gate_new es in
   if sg_open g then \<exists>p q. es = p @ q \<and> gate_due p
   else sg_registered g = length (filter ((=) GRegistered) es) \<and> sg_reported g = length (filter ((=) GReported) es) \<and>
     sg_enumeration_complete g = (GComplete \<in> set es) \<and> (\<forall>p q. es = p @ q \<longrightarrow> \<not> gate_due p)"
proof (induction es rule: rev_induct)
  case Nil
  then show ?case by (simp add: gate_new_def gate_due_def)
next
  case (snoc e es)
  let ?g = "foldl gate_step gate_new es"
  show ?case
  proof (cases "sg_open ?g")
    case True
    then obtain p q where "es = p @ q" "gate_due p" using snoc by (auto simp: Let_def)
    then have "\<exists>p q. es @ [e] = p @ q \<and> gate_due p" by (metis append.assoc)
    moreover have "sg_open (gate_step ?g e)"
      using True by (cases e) (simp_all add: record_registered_def record_reported_def record_enumeration_complete_def record_timeout_def)
    ultimately show ?thesis by (simp add: Let_def)
  next
    case False
    then have g: "sg_registered ?g = length (filter ((=) GRegistered) es)" "sg_reported ?g = length (filter ((=) GReported) es)"
        "sg_enumeration_complete ?g = (GComplete \<in> set es)" and no: "\<And>p q. es = p @ q \<Longrightarrow> \<not> gate_due p"
      using snoc by (auto simp: Let_def)
    have "\<not> gate_due es" using no [of es "[]"] by simp
    then have nt: "GTimeout \<notin> set es" and nd: "\<not> (GComplete \<in> set es \<and> length (filter ((=) GRegistered) es) \<le> length (filter ((=) GReported) es))"
      by (auto simp: gate_due_def)
    have due: "sg_open (gate_step ?g e) \<longleftrightarrow> gate_due (es @ [e])"
      using False g nt nd
      by (cases e) (auto simp: record_registered_def record_reported_def record_enumeration_complete_def
          record_timeout_def try_open_def gate_due_def)
    have prefixes: "(es @ [e] = p @ q) \<longleftrightarrow> p = es @ [e] \<and> q = [] \<or> (\<exists>q'. es = p @ q' \<and> q = q' @ [e])" for p q
      by (cases q rule: rev_cases) auto
    have "\<not> sg_open (gate_step ?g e) \<longrightarrow> sg_registered (gate_step ?g e) = length (filter ((=) GRegistered) (es @ [e])) \<and>
        sg_reported (gate_step ?g e) = length (filter ((=) GReported) (es @ [e])) \<and>
        sg_enumeration_complete (gate_step ?g e) = (GComplete \<in> set (es @ [e]))"
      using False g
      by (cases e) (auto simp: record_registered_def record_reported_def record_enumeration_complete_def
          record_timeout_def try_open_def)
    then show ?thesis using due no by (auto simp: Let_def prefixes)
  qed
qed

text \<open>
  The startup gate opens exactly when it should and stays open: after any sequence of
  registrations, first reports, completion signals and timeouts it is open if and only if at some
  point the timeout had fired, or enumeration was complete and as many threads had reported
  as had registered.
\<close>

theorem gate_opens_iff_due:
  "sg_open (foldl gate_step gate_new es) \<longleftrightarrow> (\<exists>p q. es = p @ q \<and> gate_due p)"
  using gate_state [of es] by (auto simp: Let_def split: if_splits)

section \<open>Broadcasts and disconnections\<close>

lemma run_branch_streams:
  assumes "run_branch E accepts now b s = Some (s', out)" "alloc_fresh (env_alloc E)" "sched_wf s"
    and "\<And>k ev. b = SourceEventReceived k ev \<Longrightarrow> k \<in> set (source_events s)" "\<And>n. b \<noteq> ThreadRegistered n"
  shows "thread_events s' = thread_events s \<and> last_thread_count s' = last_thread_count s"
proof (cases b)
  case (SourceEventReceived k ev)
  then have k: "k \<in> set (sm_keys (sources s))" using assms(3,4) by (auto simp: sched_wf_def)
  show ?thesis
  proof (cases ev)
    case ClearJobs
    then show ?thesis using assms(1)
      by (auto simp: run_branch_def SourceEventReceived handle_clear_jobs_def remove_tasks_where_def Let_def)
  qed (use assms(1) assign_job_wf [OF _ assms(2,3) k] in \<open>auto simp: run_branch_def SourceEventReceived\<close>)
next
  case StatusTick
  then show ?thesis using assms(1) measured_hashrate_wf by (auto simp: run_branch_def)
next
  case TelemetryTick
  then show ?thesis using assms(1) measured_hashrate_wf by (auto simp: run_branch_def publish_telemetry_def)
next
  case (ApiCommand p)
  then show ?thesis using assms(1) measured_hashrate_wf(2,3) [of now "s\<lparr>paused := p\<rparr>"]
    by (auto simp: run_branch_def handle_api_command_def publish_telemetry_def)
next
  case EnumerationComplete
  then show ?thesis using assms(1) broadcast_facts(5,7)
    by (fastforce simp: run_branch_def handle_enumeration_complete_def Let_def split: if_splits)
next
  case GateTimeout
  then show ?thesis using assms(1) broadcast_facts(5,7)
    by (fastforce simp: run_branch_def handle_gate_timeout_def)
next
  case (SourceRegistered name url)
  then show ?thesis using assms handle_source_registration_wf(2,3) by (simp add: run_branch_def) blast
next
  case (ShareReceived k sh)
  then show ?thesis using assms(1,3) handle_share_wf by (simp add: run_branch_def)
next
  case (ThreadEventReceived k ev)
  then show ?thesis using assms(1-3) handle_thread_event_wf by (simp add: run_branch_def) blast
next
  case (ThreadRegistered name)
  then show ?thesis using assms(5) by simp
qed

lemma drop_ended_simps [simp]:
  "gate (drop_ended e s) = gate s" "threads (drop_ended e s) = threads s" "tasks (drop_ended e s) = tasks s"
  "thread_events (drop_ended e s) = filter (\<lambda>k. k \<notin> fst (snd e)) (thread_events s)"
  "last_thread_count (drop_ended e s) = last_thread_count s"
  by (simp_all add: drop_ended_def split: prod.split)

lemma loop_iteration_parts:
  assumes "loop_iteration E it s = Some (s', out)" "iteration_ok it s" "alloc_fresh (env_alloc E)" "sched_inv s"
  obtains s1 o1 o2 where
    "run_branch E (it_accepts it) (it_now it) (it_branch it) (drop_ended (it_ended it) s) = Some (s1, o1)"
    "handle_thread_disconnections s1 = Some (s', o2)" "out = o1 @ o2" "sched_wf (drop_ended (it_ended it) s)" "sched_wf s1"
    "\<And>k ev. it_branch it = SourceEventReceived k ev \<Longrightarrow> k \<in> set (source_events (drop_ended (it_ended it) s))"
proof -
  from assms(1) obtain s1 o1 o2 where b: "run_branch E (it_accepts it) (it_now it) (it_branch it) (drop_ended (it_ended it) s) = Some (s1, o1)"
    and d: "handle_thread_disconnections s1 = Some (s', o2)" and out: "out = o1 @ o2"
    by (auto simp: loop_iteration_def bind_eq_Some_conv)
  have w: "sched_wf (drop_ended (it_ended it) s)" using assms(4) by (intro drop_ended_wf) (simp add: sched_inv_def)
  have k: "\<And>k ev. it_branch it = SourceEventReceived k ev \<Longrightarrow> k \<in> set (source_events (drop_ended (it_ended it) s))"
    using assms(2) by (simp add: iteration_ok_def Let_def)
  have "sched_wf s1" by (rule run_branch_wf [OF b assms(3) w k])
  with b d out w k show ?thesis using that by blast
qed

text \<open>
  A thread whose event stream ends is taken out with all its tasks in the iteration that
  notices it, with one exception: when that iteration registers a new thread, the count of
  streams is taken after both, nothing seems to have changed, and the dead thread stays
  registered, so it keeps being given a share of the search space.
\<close>

theorem disconnect_detection:
  assumes "reachable E s sent" "alloc_fresh (env_alloc E)" "iteration_ok it s" "loop_iteration E it s = Some (s', out)"
    and "d \<in> fst (snd (it_ended it))" "d \<in> set (thread_events s)"
  shows "d \<notin> set (thread_events s') \<and>
    (case it_branch it of
       ThreadRegistered _ \<Rightarrow> sm_get (threads s') d \<noteq> None
     | _ \<Rightarrow> sm_get (threads s') d = None \<and> d \<notin> te_thread ` snd ` set (sm_entries (tasks s')))"
proof -
  note inv = reachable_inv [OF assms(1,2)]
  obtain s1 o1 o2 where p: "run_branch E (it_accepts it) (it_now it) (it_branch it) (drop_ended (it_ended it) s) = Some (s1, o1)"
    "handle_thread_disconnections s1 = Some (s', o2)" "sched_wf (drop_ended (it_ended it) s)" "sched_wf s1"
    "\<And>k ev. it_branch it = SourceEventReceived k ev \<Longrightarrow> k \<in> set (source_events (drop_ended (it_ended it) s))"
    by (rule loop_iteration_parts [OF assms(4,3,2) inv]) blast
  note D = handle_thread_disconnections_facts [OF p(2,4)]
  have keys: "d \<in> set (sm_keys (threads s))" "d \<notin> set (thread_events (drop_ended (it_ended it) s))"
    using inv assms(5,6) by (auto simp: sched_inv_def sched_wf_def)
  show ?thesis
  proof (cases "\<exists>n. it_branch it = ThreadRegistered n")
    case True
    then obtain n where n: "it_branch it = ThreadRegistered n" by blast
    then have h: "handle_new_thread E n (drop_ended (it_ended it) s) = (s1, o1)" using p(1) by (simp add: run_branch_def)
    note N = handle_new_thread_wf [OF h assms(2) p(3)]
    have "s' = s1" using D(5) N(2) by simp
    moreover obtain k where "thread_events s1 = k # thread_events (drop_ended (it_ended it) s)" "k \<notin> set (sm_issued (threads s))"
      "set (sm_keys (threads s1)) = insert k (set (sm_keys (threads s)))" using N(3) by auto
    moreover have "set (sm_keys (threads s)) \<subseteq> set (sm_issued (threads s))"
      using inv by (simp add: sched_inv_def sched_wf_def sm_ok_def)
    ultimately show ?thesis using keys n sm_get_None_iff [of "threads s'" d] by auto
  next
    case False
    then have S: "thread_events s1 = thread_events (drop_ended (it_ended it) s)" "last_thread_count s1 = last_thread_count s"
      using run_branch_streams [OF p(1) assms(2) p(3,5)] by auto
    have "length (filter (\<lambda>k. k \<notin> fst (snd (it_ended it))) (thread_events s)) < length (thread_events s)"
      using assms(5,6) by (intro length_filter_less) auto
    then have "last_thread_count s1 \<noteq> length (thread_events s1)" using S inv by (simp add: sched_inv_def)
    then have "set (sm_keys (threads s')) = set (thread_events s')" "d \<notin> set (thread_events s')"
      using D(3,4) S(1) keys(2) by simp_all
    moreover have "te_thread ` snd ` set (sm_entries (tasks s')) \<subseteq> set (sm_keys (threads s'))"
      using D(1) by (auto simp: sched_wf_def task_links_def)
    ultimately show ?thesis using False sm_get_None_iff [of "threads s'" d]
      by (auto split: branch.split)
  qed
qed

theorem disconnect_detection_witness:
  "\<exists>s sent s' out. reachable pow2_env s sent \<and> set (thread_events s) = {1, 2} \<and>
     loop_iteration pow2_env \<lparr>it_now = 0, it_ended = ({}, {2}, {}), it_accepts = (\<lambda>_ _. True), it_branch = ThreadRegistered ''c''\<rparr> s
       = Some (s', out) \<and> sm_get (threads s') 2 \<noteq> None \<and> 2 \<notin> set (thread_events s')"
proof (rule demo_state)
  fix s sent assume r: "reachable pow2_env s sent" and ev: "thread_events s = [2, 1]"
  let ?it = "\<lparr>it_now = 0, it_ended = ({}, {2}, {}), it_accepts = (\<lambda>_ _. True), it_branch = ThreadRegistered ''c''\<rparr> :: iteration"
  have ok: "iteration_ok ?it s" by (simp add: iteration_ok_def Let_def)
  obtain s1 o1 where h: "handle_new_thread pow2_env ''c'' (drop_ended ({}, {2}, {}) s) = (s1, o1)" by fastforce
  have "sched_wf (drop_ended ({}, {2}, {}) s)"
    using reachable_inv [OF r pow2_fresh] by (intro drop_ended_wf) (simp add: sched_inv_def)
  note N = handle_new_thread_wf(2) [OF h pow2_fresh this]
  have l: "loop_iteration pow2_env ?it s = Some (s1, o1)"
    using h N by (simp add: loop_iteration_def run_branch_def handle_thread_disconnections_def Let_def)
  have "2 \<in> set (thread_events s)" "2 \<in> fst (snd (it_ended ?it))" using ev by simp_all
  from disconnect_detection [OF r pow2_fresh ok l this(2,1)] r l ev show ?thesis by auto
qed

end
