(* ===== verification/Chip_Thread.thy ===== *)
theory Chip_Thread
  imports Frames Scheduler
begin

text \<open>
  The hash thread of a chip chain, from \<open>mujina-miner/src/asic/bm13xx/thread.rs\<close>: the tracker
  of the jobs sent to the chips (sixteen slots, one for each four-bit job id), the
  initialisation sequence with its frequency ramp, the conversion of a task into a job frame,
  and the actor, whose \<open>select!\<close> branches are the events of a step function. The chips, the
  serial sink, the enable pin and the channels answer through the arguments of a step; the
  transaction parser, the two hashes and the work of a target are parameters
  (\<open>bitcoin\<close> crate), as is the \<open>f32\<close> arithmetic.
\<close>

section \<open>Job tracker\<close>

text \<open>A task together with the channel its shares go to (\<open>share_tx\<close>).\<close>

record chip_task = hash_task +
  ct_share_tx :: key

record 'a chip_job_tracker =
  cj_tasks :: "'a option list"
  cj_next_id :: u8

definition tracker_new :: "'a chip_job_tracker" where
  "tracker_new = \<lparr>cj_tasks = replicate 16 None, cj_next_id = 0\<rparr>"

definition tracker_insert :: "'a \<Rightarrow> 'a chip_job_tracker \<Rightarrow> u8 \<times> 'a chip_job_tracker" where
  "tracker_insert task t =
    (cj_next_id t,
     \<lparr>cj_tasks = (cj_tasks t)[unat (cj_next_id t) := Some task],
      cj_next_id = (cj_next_id t + 1) mod word_of_nat (length (cj_tasks t))\<rparr>)"

definition tracker_get :: "'a chip_job_tracker \<Rightarrow> u8 \<Rightarrow> 'a option" where
  "tracker_get t chip_job_id =
    (if unat chip_job_id < length (cj_tasks t) then cj_tasks t ! unat chip_job_id else None)"

definition tracker_clear :: "'a chip_job_tracker \<Rightarrow> 'a chip_job_tracker" where
  "tracker_clear t = t\<lparr>cj_tasks := replicate 16 None\<rparr>"

section \<open>Frequency ramp\<close>

text \<open>
  \<open>calculate_pll_for_frequency\<close> leaves all its loops at the first dividers it accepts, so the
  fold keeps what it has once the feedback divider is set.
\<close>

fun ramp_pll_error :: "('f, 'm) f32_ops_scheme \<Rightarrow> 'f \<Rightarrow> u8 \<times> u8 \<times> u8 \<Rightarrow> 'f" where
  "ramp_pll_error F target (r, p1, p2) =
    f32_abs F (f32_sub F
      (f32_div F (f32_mul F (f32_lit F 25) (f32_of_u8 F (fb_div_for F target (r, p1, p2))))
        (f32_of_u8 F (r * p1 * p2))) target)"

fun ramp_pll_step ::
  "('f, 'm) f32_ops_scheme \<Rightarrow> 'f \<Rightarrow> (u8 \<times> u8 \<times> u8 \<times> u8) \<times> 'f \<Rightarrow> u8 \<times> u8 \<times> u8 \<Rightarrow> (u8 \<times> u8 \<times> u8 \<times> u8) \<times> 'f"
where
  "ramp_pll_step F target ((best_fb, best_ref, best_p1, best_p2), min_error) (r, p1, p2) =
    (if best_fb \<noteq> 0 then ((best_fb, best_ref, best_p1, best_p2), min_error)
     else let fb = fb_div_for F target (r, p1, p2) in
       if 0xa0 \<le> fb \<and> fb \<le> 0xef then
         let error = ramp_pll_error F target (r, p1, p2) in
         if f32_lt F error min_error \<and> f32_lt F error (f32_lit F 1)
         then ((fb, r, p1, p2), error)
         else ((best_fb, best_ref, best_p1, best_p2), min_error)
       else ((best_fb, best_ref, best_p1, best_p2), min_error))"

definition calculate_pll_for_frequency :: "('f, 'm) f32_ops_scheme \<Rightarrow> 'f \<Rightarrow> pll_config option" where
  "calculate_pll_for_frequency F target =
    (let ((fb, r, p1, p2), _) = foldl (ramp_pll_step F target) ((0, 0, 0, 0), f32_lit F 10) pll_candidates
     in if fb = 0 then None else Some (pll_new F fb r (post_div_code p1 p2)))"

text \<open>\<open>None\<close> is a loop that does not end.\<close>

partial_function (option) ramp_loop ::
  "('f, 'm) f32_ops_scheme \<Rightarrow> 'f \<Rightarrow> 'f \<Rightarrow> 'f \<Rightarrow> pll_config list \<Rightarrow> pll_config list option"
where
  "ramp_loop F target step current configs =
    (if f32_le F current target then
       let configs' = (case calculate_pll_for_frequency F current of Some c \<Rightarrow> configs @ [c] | None \<Rightarrow> configs);
           next_freq = f32_add F current step;
           next_freq' = (if f32_lt F target next_freq \<and> f32_lt F (f32_sub F next_freq step) target
                         then target else next_freq)
       in ramp_loop F target step next_freq' configs'
     else Some configs)"

definition generate_frequency_ramp_steps ::
  "('f, 'm) f32_ops_scheme \<Rightarrow> 'f \<Rightarrow> 'f \<Rightarrow> 'f \<Rightarrow> pll_config list option" where
  "generate_frequency_ramp_steps F start target step = ramp_loop F target step start []"

section \<open>Chip initialisation\<close>

definition ramp_commands :: "('f, 'm) f32_ops_scheme \<Rightarrow> command list option" where
  "ramp_commands F =
    map_option (map (\<lambda>c. WriteRegister True 0x00 (PllDivider c)))
      (generate_frequency_ramp_steps F (f32_lit F (225 / 4)) (f32_lit F 525) (f32_lit F (25 / 4)))"

text \<open>The commands \<open>initialize_chip\<close> sends, in order; \<open>None\<close> if the ramp does not end.\<close>

definition init_commands :: "('f, 'm) f32_ops_scheme \<Rightarrow> u8 \<Rightarrow> command list option" where
  "init_commands F asic_difficulty =
    map_option (\<lambda>ramp.
      replicate 3 (WriteRegister True 0x00 (VersionMask version_mask_full_rolling)) @
      [WriteRegister True 0x00 (InitControl 0x00000700),
       WriteRegister True 0x00 (MiscControl 0x00C100F0),
       ChainInactive,
       SetChipAddress 0x00,
       WriteRegister True 0x00 (Core 0x80008B00),
       WriteRegister True 0x00 (Core 0x8000800C),
       WriteRegister True 0x00 (TicketMask asic_difficulty),
       WriteRegister True 0x00 (IoDriverStrength io_driver_normal),
       WriteRegister False 0x00 (InitControl 0xF0010700),
       WriteRegister False 0x00 (MiscControl 0x00C100F0),
       WriteRegister False 0x00 (Core 0x80008B00),
       WriteRegister False 0x00 (Core 0x8000800C),
       WriteRegister False 0x00 (Core 0x800082AA),
       WriteRegister True 0x00 (MiscSettings 0x80440000),
       WriteRegister True 0x00 (AnalogMux 0x02000000),
       WriteRegister True 0x00 (MiscSettings 0x80440000),
       WriteRegister True 0x00 (Core 0x80008DEE)] @
      ramp @
      [WriteRegister True 0x00 (NonceRange (nonce_range_from_raw 0xB51E0000)),
       WriteRegister True 0x00 (VersionMask version_mask_full_rolling)]) (ramp_commands F)"

text \<open>
  What the actor does to the outside. A command handed to the serial sink comes with the
  sink's answer.
\<close>

datatype 'e thread_error = EnableFailed | CommandFailed | En2Required | MerkleFailed "'e job_error"

datatype 'e chip_effect =
  EnableAsic bool
  | DisableAsic
  | ToChip command bool
  | ToScheduler hash_thread_event
  | SendShare key thread_share
  | Reply "'e thread_error + chip_task option"

text \<open>
  The answers of the outside during one step: is a command that is the n-th effect of the step
  accepted by the sink, does the enable pin answer, is the event channel open, is the channel of a task open.
\<close>

record outcomes =
  oc_sink :: "nat \<Rightarrow> bool"
  oc_enable :: bool
  oc_events_open :: bool
  oc_share_open :: "key \<Rightarrow> bool"

text \<open>Commands are sent one after the other until one fails.\<close>

fun send_commands :: "(nat \<Rightarrow> bool) \<Rightarrow> nat \<Rightarrow> command list \<Rightarrow> 'e chip_effect list \<times> bool" where
  "send_commands sink n [] = ([], True)"
| "send_commands sink n (c # cs) =
     (if sink n then (let (effs, ok) = send_commands sink (n + 1) cs in (ToChip c True # effs, ok))
      else ([ToChip c False], False))"

section \<open>Environment and state of the actor\<close>

record block_header =
  bh_version :: u32
  bh_prev_blockhash :: hash256
  bh_merkle_root :: hash256
  bh_time :: u32
  bh_bits :: u32
  bh_nonce :: u32

text \<open>
  Parameters of the actor: the \<open>f32\<close> operations, whether the board has an enable pin, the
  exponent of the chips' ticket mask, the largest target, and from the \<open>bitcoin\<close> crate the
  transaction id of a coinbase, the double hash, the hash of a header and the work of a target.
\<close>

record ('f, 'e) chip_env =
  ce_f32 :: "'f f32_ops"
  ce_has_enable :: bool
  ce_asic_difficulty :: u8
  ce_target_max :: u256
  ce_txid :: "u8 list \<Rightarrow> 'e + hash256"
  ce_sha256d :: "u8 list \<Rightarrow> hash256"
  ce_block_hash :: "block_header \<Rightarrow> hash256"
  ce_to_work :: "u256 \<Rightarrow> u256"

record chip_actor =
  ca_chip_initialized :: bool
  ca_current_task :: "chip_task option"
  ca_chip_jobs :: "chip_task chip_job_tracker"
  ca_is_active :: bool

definition actor_start :: "('f, 'e) chip_env \<Rightarrow> chip_actor \<times> 'e chip_effect list" where
  "actor_start E =
    (\<lparr>ca_chip_initialized = False, ca_current_task = None, ca_chip_jobs = tracker_new, ca_is_active = False\<rparr>,
     if ce_has_enable E then [DisableAsic] else [])"

text \<open>\<open>Log2Difficulty::to_work\<close>; the shift of \<open>1_u64\<close> is checked.\<close>

definition log2_to_work :: "(u256 \<Rightarrow> u256) \<Rightarrow> u256 \<Rightarrow> u8 \<Rightarrow> u256 option" where
  "log2_to_work work tmax e =
    Option.bind (shl_chk (1 :: u64) (unat e)) (\<lambda>d. map_option (\<lambda>x. work (to_target x)) (difficulty_from_u64 tmax d))"

section \<open>Handlers\<close>

definition initialize_chip ::
  "('f, 'e) chip_env \<Rightarrow> outcomes \<Rightarrow> ('e chip_effect list \<times> 'e thread_error option) option" where
  "initialize_chip E oc =
    (let enable = (if ce_has_enable E then [EnableAsic (oc_enable oc)] else [])
     in if ce_has_enable E \<and> \<not> oc_enable oc then Some (enable, Some EnableFailed)
        else map_option (\<lambda>cmds. let (effs, ok) = send_commands (oc_sink oc) (length enable) cmds
                                in (enable @ effs, if ok then None else Some CommandFailed))
               (init_commands (ce_f32 E) (ce_asic_difficulty E)))"

definition task_to_job_full :: "('f, 'e) chip_env \<Rightarrow> chip_task \<Rightarrow> u8 \<Rightarrow> 'e thread_error + job_full_format" where
  "task_to_job_full E task chip_job_id =
    (let template = ht_template task;
         mroot = (case job_merkle_root template of
                   ComputedRoot _ \<Rightarrow>
                     (case ht_en2 task of
                        None \<Rightarrow> Inl En2Required
                      | Some en2 \<Rightarrow>
                          (case job_merkle_root_for (ce_txid E) (ce_sha256d E) template en2 of
                             Inl e \<Rightarrow> Inl (MerkleFailed e) | Inr h \<Rightarrow> Inr h))
                 | FixedRoot h \<Rightarrow> Inr h)
     in case mroot of
          Inl e \<Rightarrow> Inl e
        | Inr h \<Rightarrow> Inr \<lparr>jf_job_id = chip_job_id, jf_num_midstates = 1, jf_starting_nonce = 0,
                         jf_nbits = job_bits template, jf_ntime = ht_ntime task, jf_merkle_root = h,
                         jf_prev_block_hash = job_prev_blockhash template,
                         jf_version = vt_base (job_version template)\<rparr>)"

text \<open>
  The common part of \<open>UpdateTask\<close> and \<open>ReplaceTask\<close> once the chip is initialised: the job is
  registered and made current, then converted and sent. \<open>n\<close> is the number of effects the
  step has had before.
\<close>

definition send_initial_job ::
  "('f, 'e) chip_env \<Rightarrow> outcomes \<Rightarrow> nat \<Rightarrow> chip_task \<Rightarrow> chip_actor \<Rightarrow> chip_actor \<times> 'e chip_effect list" where
  "send_initial_job E oc n new_task s =
    (let (chip_job_id, jobs) = tracker_insert new_task (ca_chip_jobs s);
         old_task = ca_current_task s;
         s1 = s\<lparr>ca_chip_jobs := jobs, ca_current_task := Some new_task\<rparr>
     in case task_to_job_full E new_task chip_job_id of
          Inl e \<Rightarrow> (s1, [Reply (Inl e)])
        | Inr job \<Rightarrow>
            if oc_sink oc n
            then (s1\<lparr>ca_is_active := True\<rparr>, [ToChip (JobFull job) True, Reply (Inr old_task)])
            else (s1, [ToChip (JobFull job) False, Reply (Inl CommandFailed)]))"

definition assign_work ::
  "('f, 'e) chip_env \<Rightarrow> outcomes \<Rightarrow> bool \<Rightarrow> chip_task \<Rightarrow> chip_actor \<Rightarrow> (chip_actor \<times> 'e chip_effect list) option" where
  "assign_work E oc clear_first new_task s =
    (let clear = (\<lambda>s. if clear_first then s\<lparr>ca_chip_jobs := tracker_clear (ca_chip_jobs s)\<rparr> else s)
     in if \<not> ca_chip_initialized s then
          (case initialize_chip E oc of
             None \<Rightarrow> None
           | Some (effs, Some e) \<Rightarrow> Some (s, effs @ [Reply (Inl e)])
           | Some (effs, None) \<Rightarrow>
               let (s', effs') = send_initial_job E oc (length effs) new_task (clear (s\<lparr>ca_chip_initialized := True\<rparr>))
               in Some (s', effs @ effs'))
        else Some (send_initial_job E oc 0 new_task (clear s)))"

definition handle_update_task ::
  "('f, 'e) chip_env \<Rightarrow> outcomes \<Rightarrow> chip_task \<Rightarrow> chip_actor \<Rightarrow> (chip_actor \<times> 'e chip_effect list) option" where
  "handle_update_task E oc new_task s = assign_work E oc False new_task s"

definition handle_replace_task ::
  "('f, 'e) chip_env \<Rightarrow> outcomes \<Rightarrow> chip_task \<Rightarrow> chip_actor \<Rightarrow> (chip_actor \<times> 'e chip_effect list) option" where
  "handle_replace_task E oc new_task s = assign_work E oc True new_task s"

definition handle_go_idle :: "chip_actor \<Rightarrow> chip_actor \<times> 'e chip_effect list" where
  "handle_go_idle s =
    (s\<lparr>ca_current_task := None, ca_is_active := False\<rparr>, [Reply (Inr (ca_current_task s))])"

definition handle_configure :: "outcomes \<Rightarrow> 'e chip_effect list" where
  "handle_configure oc =
    (if oc_events_open oc then [ToScheduler (ExpectedHashRate 1000000000000)] else [])"

definition nonce_header :: "chip_task \<Rightarrow> hash256 \<Rightarrow> u32 \<Rightarrow> gp_bits \<Rightarrow> block_header" where
  "nonce_header task mroot nonce version =
    (let template = ht_template task
     in \<lparr>bh_version = apply_to_version version (vt_base (job_version template)),
         bh_prev_blockhash = job_prev_blockhash template, bh_merkle_root = mroot,
         bh_time = ht_ntime task, bh_bits = job_bits template, bh_nonce = nonce\<rparr>)"

text \<open>\<open>None\<close> is the panic of the work of the ticket mask.\<close>

definition handle_nonce ::
  "('f, 'e) chip_env \<Rightarrow> outcomes \<Rightarrow> u32 \<Rightarrow> u8 \<Rightarrow> gp_bits \<Rightarrow> chip_actor \<Rightarrow> 'e chip_effect list option" where
  "handle_nonce E oc nonce jid version s =
    (case tracker_get (ca_chip_jobs s) jid of
       None \<Rightarrow> Some []
     | Some task \<Rightarrow>
         (case (case ht_en2 task of
                  None \<Rightarrow> None
                | Some en2 \<Rightarrow>
                    (case job_merkle_root_for (ce_txid E) (ce_sha256d E) (ht_template task) en2 of
                       Inl _ \<Rightarrow> None | Inr h \<Rightarrow> Some h)) of
            None \<Rightarrow> Some []
          | Some mroot \<Rightarrow>
              let header = nonce_header task mroot nonce version;
                  hash = ce_block_hash E header
              in if u256_from_le_bytes hash \<le> ht_share_target task then
                   map_option (\<lambda>asic_work.
                     let sh = \<lparr>sh_nonce = nonce, sh_hash = hash, sh_version = bh_version header,
                               sh_ntime = ht_ntime task, sh_extranonce2 = ht_en2 task,
                               sh_expected_work = max asic_work (ce_to_work E (ht_share_target task))\<rparr>
                     in if oc_share_open oc (ct_share_tx task) then [SendShare (ct_share_tx task) sh] else [])
                   (log2_to_work (ce_to_work E) (ce_target_max E) (ce_asic_difficulty E))
                 else Some []))"

text \<open>The branch is disabled while there is no current task; \<open>ntime += 1\<close> is checked.\<close>

definition handle_ntime_tick ::
  "('f, 'e) chip_env \<Rightarrow> outcomes \<Rightarrow> chip_actor \<Rightarrow> (chip_actor \<times> 'e chip_effect list) option" where
  "handle_ntime_tick E oc s =
    (case ca_current_task s of
       None \<Rightarrow> Some (s, [])
     | Some task \<Rightarrow>
         map_option (\<lambda>t.
           let task' = task\<lparr>ht_ntime := t\<rparr>;
               (chip_job_id, jobs) = tracker_insert task' (ca_chip_jobs s);
               s1 = s\<lparr>ca_current_task := Some task', ca_chip_jobs := jobs\<rparr>
           in (s1, case task_to_job_full E task' chip_job_id of
                     Inl _ \<Rightarrow> []
                   | Inr job \<Rightarrow> [ToChip (JobFull job) (oc_sink oc 0)]))
         (add_chk (ht_ntime task) 1))"

section \<open>The actor loop\<close>

datatype removal_signal = Running | BoardDisconnected | HardwareFault string | UserRequested | ShutdownSignal

datatype actor_event =
  RemovalChanged removal_signal
  | CmdConfigure
  | CmdUpdateTask chip_task
  | CmdReplaceTask chip_task
  | CmdGoIdle
  | CmdShutdown
  | ChipResponse response
  | ChipDecodeError
  | NtimeTick

text \<open>
  One turn of the loop. The flag tells whether the loop goes on; \<open>None\<close> is a panic or an
  initialisation that never ends.
\<close>

definition actor_step ::
  "('f, 'e) chip_env \<Rightarrow> outcomes \<Rightarrow> actor_event \<Rightarrow> chip_actor \<Rightarrow> (bool \<times> chip_actor \<times> 'e chip_effect list) option" where
  "actor_step E oc ev s =
    (case ev of
       RemovalChanged sig \<Rightarrow>
         (if sig = Running then Some (True, s, []) else Some (False, s\<lparr>ca_is_active := False\<rparr>, []))
     | CmdConfigure \<Rightarrow> Some (True, s, handle_configure oc)
     | CmdUpdateTask t \<Rightarrow> map_option (Pair True) (handle_update_task E oc t s)
     | CmdReplaceTask t \<Rightarrow> map_option (Pair True) (handle_replace_task E oc t s)
     | CmdGoIdle \<Rightarrow> Some (True, handle_go_idle s)
     | CmdShutdown \<Rightarrow> Some (False, s, [])
     | ChipResponse (NonceResponse nonce jid midstate_num version subcore_id) \<Rightarrow>
         map_option (\<lambda>effs. (True, s, effs)) (handle_nonce E oc nonce jid version s)
     | ChipResponse (RegisterResponse chip_address r) \<Rightarrow> Some (True, s, [])
     | ChipDecodeError \<Rightarrow> Some (True, s, [])
     | NtimeTick \<Rightarrow> map_option (Pair True) (handle_ntime_tick E oc s))"

end
