(* ===== verification/Chip_Properties.thy ===== *)
theory Chip_Properties
  imports Chip_Thread
begin

text \<open>
  What the hash thread guarantees. The job tracker is an instance of the interface
  \<open>job_slots\<close>; the actor is a step system whose state carries the trace of its effects, and its
  invariant says that every tracked task is the last job put on the wire under its id.
\<close>

section \<open>The tracker as slots reused in turn\<close>

locale job_slots =
  fixes put :: "'a \<Rightarrow> 't \<Rightarrow> u8 \<times> 't"
    and look :: "'t \<Rightarrow> u8 \<Rightarrow> 'a option"
    and clear :: "'t \<Rightarrow> 't"
    and wf :: "'t \<Rightarrow> bool"
    and pos :: "'t \<Rightarrow> nat"
  assumes wf_put: "wf t \<Longrightarrow> put a t = (i, t') \<Longrightarrow> wf t'"
    and wf_clear: "wf t \<Longrightarrow> wf (clear t)"
    and look_put: "wf t \<Longrightarrow> put a t = (i, t') \<Longrightarrow> look t' j = (if j = i then Some a else look t j)"
    and look_clear: "wf t \<Longrightarrow> look (clear t) j = None"
    and put_pos: "wf t \<Longrightarrow> put a t = (i, t') \<Longrightarrow> unat i = pos t \<and> pos t < 16 \<and> pos t' = (pos t + 1) mod 16"
begin

definition holds :: "(u8 \<Rightarrow> 'a \<Rightarrow> bool) \<Rightarrow> 't \<Rightarrow> bool" where
  "holds R t \<longleftrightarrow> wf t \<and> (\<forall>j a. look t j = Some a \<longrightarrow> R j a)"

lemma holds_put:
  assumes "holds R t" "put a t = (i, t')" "R' i a" "\<And>j b. j \<noteq> i \<Longrightarrow> R j b \<Longrightarrow> R' j b"
  shows "holds R' t'"
  using assms wf_put look_put by (auto simp: holds_def split: if_splits)

lemma holds_clear: "holds R t \<Longrightarrow> holds R' (clear t)"
  by (simp add: holds_def wf_clear look_clear)

lemma holds_mono: "holds R t \<Longrightarrow> (\<And>j a. R j a \<Longrightarrow> R' j a) \<Longrightarrow> holds R' t"
  by (simp add: holds_def)

lemma kept_from:
  assumes "wf t" "look t i = Some a" "unat i = (pos t + d) mod 16" "length as \<le> d" "d < 16"
  shows "look (foldl (\<lambda>t b. snd (put b t)) t as) i = Some a"
  using assms
proof (induction as arbitrary: t d)
  case (Cons b bs)
  obtain j t' where p: "put b t = (j, t')" by fastforce
  note P = put_pos [OF Cons.prems(1) p]
  have d: "pos t + d = Suc (pos t) + (d - 1)" using Cons.prems(4) by simp
  have "unat i \<noteq> unat j"
  proof
    assume "unat i = unat j"
    then have "(pos t + d) mod 16 = pos t" using Cons.prems(3) P by simp
    then show False using P Cons.prems(4,5) by (cases "pos t + d < 16") (auto simp: mod_if split: if_splits)
  qed
  then have "look t' i = Some a" using look_put [OF Cons.prems(1) p] Cons.prems(2) by auto
  moreover have "unat i = (pos t' + (d - 1)) mod 16"
    using Cons.prems(3) P unfolding d by (simp add: mod_add_left_eq)
  ultimately show ?case using Cons.IH [OF wf_put [OF Cons.prems(1) p], of "d - 1"] Cons.prems(4,5) by (simp add: p)
qed simp

text \<open>A job stays answerable for the next fifteen jobs, whatever they are.\<close>

lemma kept_for_fifteen:
  assumes "wf t" "put a t = (i, t')" "length as \<le> 15"
  shows "look (foldl (\<lambda>t b. snd (put b t)) t' as) i = Some a"
proof (rule kept_from [OF wf_put [OF assms(1,2)] _ _ assms(3)])
  show "look t' i = Some a" using look_put [OF assms(1,2)] by simp
  show "unat i = (pos t' + 15) mod 16" using put_pos [OF assms(1,2)] by (simp add: mod_add_left_eq)
qed simp

end

definition tracker_wf :: "'a chip_job_tracker \<Rightarrow> bool" where
  "tracker_wf t \<longleftrightarrow> length (cj_tasks t) = 16 \<and> unat (cj_next_id t) < 16"

lemma unat_next_id: "unat (i :: u8) < 16 \<Longrightarrow> unat ((i + 1) mod word_of_nat 16) = (unat i + 1) mod 16"
  by (simp add: unat_mod unat_word_ariths)

interpretation tracker: job_slots tracker_insert tracker_get tracker_clear tracker_wf "\<lambda>t. unat (cj_next_id t)"
proof
  fix t t' :: "'a chip_job_tracker" and a i j
  assume "tracker_wf t" "tracker_insert a t = (i, t')"
  moreover from this have "unat ((cj_next_id t + 1) mod word_of_nat 16) = (unat (cj_next_id t) + 1) mod 16"
    by (intro unat_next_id) (simp add: tracker_wf_def)
  ultimately show "tracker_wf t'" "tracker_get t' j = (if j = i then Some a else tracker_get t j)"
    "unat i = unat (cj_next_id t) \<and> unat (cj_next_id t) < 16 \<and> unat (cj_next_id t') = (unat (cj_next_id t) + 1) mod 16"
    by (auto simp: tracker_wf_def tracker_insert_def tracker_get_def nth_list_update word_unat_eq_iff)
qed (auto simp: tracker_wf_def tracker_clear_def tracker_get_def)

lemma tracker_new_wf: "tracker_wf tracker_new" "tracker_get tracker_new j = None"
  by (simp_all add: tracker_new_def tracker_wf_def tracker_get_def)

section \<open>The trace of the actor\<close>























section \<open>The frequency ramp\<close>











section \<open>Properties\<close>




















text \<open>
  C10: A job stays answerable for the next fifteen jobs. A nonce that comes back while at most
  fifteen newer jobs have been sent finds the task of its own job; the sixteenth newer job
  takes over the id, so no slot is ever answered with a task of another id.
\<close>

theorem job_answerable_window:
  assumes "tracker_wf t" "tracker_insert a t = (i, t')" "length later \<le> 15"
  shows "tracker_get (foldl (\<lambda>t b. snd (tracker_insert b t)) t' later) i = Some a \<and>
    (length later = 15 \<longrightarrow> tracker_get (foldl (\<lambda>t b. snd (tracker_insert b t)) t' (later @ [b])) i = Some b)"
proof -
  have "unat (cj_next_id (foldl (\<lambda>t b. snd (tracker_insert b t)) u bs)) = (unat (cj_next_id u) + length bs) mod 16 \<and>
      tracker_wf (foldl (\<lambda>t b. snd (tracker_insert b t)) u bs)" if "tracker_wf u" for u :: "'a chip_job_tracker" and bs
    using that
  proof (induction bs arbitrary: u)
    case (Cons b bs)
    obtain j u' where p: "tracker_insert b u = (j, u')" by fastforce
    from Cons.IH [OF tracker.wf_put [OF Cons.prems p]] tracker.put_pos [OF Cons.prems p] show ?case
      by (simp add: p mod_add_left_eq)
  qed (simp add: tracker_wf_def)
  note step = this
  have w: "tracker_wf t'" by (rule tracker.wf_put [OF assms(1,2)])
  note step' = step [OF w, of later] and i = tracker.put_pos [OF assms(1,2)]
  obtain j u where u: "tracker_insert b (foldl (\<lambda>t b. snd (tracker_insert b t)) t' later) = (j, u)" by fastforce
  have "j = i" if "length later = 15"
    using tracker.put_pos [OF _ u] step' i that by (simp add: word_unat_eq_iff mod_add_left_eq)
  then show ?thesis using tracker.kept_for_fifteen [OF assms] tracker.look_put [OF _ u] step' u by simp
qed

theorem job_answerable_window_witness:
  "tracker_get (foldl (\<lambda>t b. snd (tracker_insert b t)) (snd (tracker_insert ''first'' tracker_new)) (replicate 15 ''later'')) 0 = Some ''first'' \<and>
   tracker_get (foldl (\<lambda>t b. snd (tracker_insert b t)) (snd (tracker_insert ''first'' tracker_new)) (replicate 15 ''later'' @ [''last''])) 0 = Some ''last''"
  using job_answerable_window [OF tracker_new_wf(1), of "''first''" 0 "snd (tracker_insert ''first'' tracker_new)" "replicate 15 ''later''" "''last''"]
  by (simp add: tracker_insert_def) (simp add: tracker_new_def)





end
