(* ===== verification/Stratum_Messages.thy ===== *)
theory Stratum_Messages
  imports Merkle_Job
begin

text \<open>
  The messages of the Stratum v1 client, from \<open>mujina-miner/src/stratum_v1/messages.rs\<close> and
  \<open>error.rs\<close>: the JSON-RPC envelope, the parser of \<open>mining.notify\<close> and the parameters of
  \<open>mining.submit\<close>. JSON values are \<open>serde_json::Value\<close> with the number type as a type
  parameter; the \<open>hex\<close> crate is two function parameters; \<open>u32::from_str_radix\<close>,
  \<open>trim_start_matches\<close> and the \<open>08x\<close> format belong to the standard library and are modelled.
  Error messages are the constructors of an error type with the field they name.
\<close>

section \<open>Results\<close>

definition and_then :: "'e + 'a \<Rightarrow> ('a \<Rightarrow> 'e + 'b) \<Rightarrow> 'e + 'b" where
  "and_then r f = (case r of Inl e \<Rightarrow> Inl e | Inr x \<Rightarrow> f x)"

definition ok_or :: "'e \<Rightarrow> 'a option \<Rightarrow> 'e + 'a" where
  "ok_or e x = (case x of None \<Rightarrow> Inl e | Some y \<Rightarrow> Inr y)"

lemma and_then_Inr [simp]: "and_then r f = Inr y \<longleftrightarrow> (\<exists>x. r = Inr x \<and> f x = Inr y)"
  by (auto simp: and_then_def split: sum.splits)

lemma and_then_simps: "and_then (Inl e) f = Inl e" "and_then (Inr x) f = f x"
  by (simp_all add: and_then_def)

lemma ok_or_Inr [simp]: "ok_or e x = Inr y \<longleftrightarrow> x = Some y"
  by (auto simp: ok_or_def split: option.splits)

fun traverse_sum :: "('a \<Rightarrow> 'e + 'b) \<Rightarrow> 'a list \<Rightarrow> 'e + 'b list" where
  "traverse_sum f [] = Inr []"
| "traverse_sum f (x # xs) = and_then (f x) (\<lambda>y. and_then (traverse_sum f xs) (\<lambda>ys. Inr (y # ys)))"

lemma traverse_sum_Inr: "traverse_sum f xs = Inr ys \<longleftrightarrow> list_all2 (\<lambda>x y. f x = Inr y) xs ys"
  by (induction xs arbitrary: ys) (auto simp: list_all2_Cons1)

section \<open>JSON values\<close>

datatype 'n json =
  JNull | JBool bool | JNumber 'n | JString string | JArray "'n json list" | JObject "(string \<times> 'n json) list"

fun as_str :: "'n json \<Rightarrow> string option" where
  "as_str (JString s) = Some s"
| "as_str _ = None"

fun as_array :: "'n json \<Rightarrow> 'n json list option" where
  "as_array (JArray xs) = Some xs"
| "as_array _ = None"

fun as_bool :: "'n json \<Rightarrow> bool option" where
  "as_bool (JBool b) = Some b"
| "as_bool _ = None"

fun as_object :: "'n json \<Rightarrow> (string \<times> 'n json) list option" where
  "as_object (JObject kvs) = Some kvs"
| "as_object _ = None"

fun as_number :: "'n json \<Rightarrow> 'n option" where
  "as_number (JNumber n) = Some n"
| "as_number _ = None"

section \<open>Hexadecimal numbers\<close>

definition hex_digit :: "char \<Rightarrow> nat option" where
  "hex_digit c =
    (let n = of_char c :: nat
     in if 48 \<le> n \<and> n \<le> 57 then Some (n - 48)
        else if 97 \<le> n \<and> n \<le> 102 then Some (n - 87)
        else if 65 \<le> n \<and> n \<le> 70 then Some (n - 55) else None)"

fun hex_digits :: "nat \<Rightarrow> string \<Rightarrow> nat option" where
  "hex_digits acc [] = Some acc"
| "hex_digits acc (c # cs) =
     (case hex_digit c of None \<Rightarrow> None
      | Some d \<Rightarrow> if acc * 16 + d < 2 ^ 32 then hex_digits (acc * 16 + d) cs else None)"

text \<open>\<open>u32::from_str_radix(s, 16)\<close>: an optional plus sign, then at least one digit.\<close>

definition u32_from_hex :: "string \<Rightarrow> u32 option" where
  "u32_from_hex s =
    (let ds = (case s of c # cs \<Rightarrow> if c = CHR ''+'' then cs else s | [] \<Rightarrow> [])
     in if ds = [] then None else map_option word_of_nat (hex_digits 0 ds))"

fun trim_0x :: "string \<Rightarrow> string" where
  "trim_0x (a # b # cs) = (if a = CHR ''0'' \<and> b = CHR ''x'' then trim_0x cs else a # b # cs)"
| "trim_0x cs = cs"

definition hex_char :: "nat \<Rightarrow> char" where
  "hex_char d = (if d < 10 then char_of (48 + d) else char_of (87 + d))"

text \<open>The format \<open>{:08x}\<close> of a 32-bit number.\<close>

definition hex32 :: "u32 \<Rightarrow> string" where
  "hex32 w = map (\<lambda>i. hex_char (unat (drop_bit (4 * (7 - i)) w AND 0xf))) [0..<8]"

section \<open>Errors\<close>

datatype parse_error =
  ParamsTooShort | NotString string | NotArray string | NotBool string | NotNumber string | NotObject string
  | BadHex string | WrongLength string nat | MissingKey string | NotPositive

datatype 'n stratum_error =
  IoError | JsonError | InvalidMessage parse_error | PoolError string | ConnectionFailed string
  | SubscriptionFailed "'n json" | AuthorizationFailed "'n json option" | UnexpectedResponse string
  | MissingField string | InvalidUrl string | Disconnected | Timeout

fun is_fatal :: "'n stratum_error \<Rightarrow> bool" where
  "is_fatal (AuthorizationFailed _) = True"
| "is_fatal (InvalidUrl _) = True"
| "is_fatal _ = False"

section \<open>Job notification\<close>

record job_notification =
  jn_job_id :: string
  jn_prev_hash :: hash256
  jn_coinbase1 :: "u8 list"
  jn_coinbase2 :: "u8 list"
  jn_merkle_branches :: "hash256 list"
  jn_version :: u32
  jn_nbits :: u32
  jn_ntime :: u32
  jn_clean_jobs :: bool

text \<open>\<open>chunks_mut(4)\<close> with each chunk reversed.\<close>

fun word_swap :: "'a list \<Rightarrow> 'a list" where
  "word_swap [] = []"
| "word_swap xs = rev (take 4 xs) @ word_swap (drop 4 xs)"

definition parse_block_hash :: "(string \<Rightarrow> u8 list option) \<Rightarrow> string \<Rightarrow> parse_error + hash256" where
  "parse_block_hash hex_decode s =
    and_then (ok_or (BadHex ''block hash'') (hex_decode s)) (\<lambda>bs.
      if length bs \<noteq> 32 then Inl (WrongLength ''block hash'' (length bs)) else Inr (word_swap bs))"

definition parse_merkle_node :: "(string \<Rightarrow> u8 list option) \<Rightarrow> string \<Rightarrow> parse_error + hash256" where
  "parse_merkle_node hex_decode s =
    and_then (ok_or (BadHex ''merkle node'') (hex_decode s)) (\<lambda>bs.
      if length bs \<noteq> 32 then Inl (WrongLength ''merkle node'' (length bs)) else Inr bs)"

definition json_str :: "string \<Rightarrow> 'n json \<Rightarrow> parse_error + string" where
  "json_str field v = ok_or (NotString field) (as_str v)"

definition json_hex32 :: "string \<Rightarrow> 'n json \<Rightarrow> parse_error + u32" where
  "json_hex32 field v = and_then (json_str field v) (\<lambda>s. ok_or (BadHex field) (u32_from_hex s))"

definition json_bytes :: "(string \<Rightarrow> u8 list option) \<Rightarrow> string \<Rightarrow> 'n json \<Rightarrow> parse_error + u8 list" where
  "json_bytes hex_decode field v = and_then (json_str field v) (\<lambda>s. ok_or (BadHex field) (hex_decode s))"

definition from_stratum_params :: "(string \<Rightarrow> u8 list option) \<Rightarrow> 'n json list \<Rightarrow> parse_error + job_notification" where
  "from_stratum_params hex_decode params =
    (if length params < 9 then Inl ParamsTooShort
     else and_then (json_str ''job_id'' (params ! 0)) (\<lambda>jid.
       and_then (and_then (json_str ''prev_hash'' (params ! 1)) (parse_block_hash hex_decode)) (\<lambda>prev.
       and_then (json_bytes hex_decode ''coinbase1'' (params ! 2)) (\<lambda>cb1.
       and_then (json_bytes hex_decode ''coinbase2'' (params ! 3)) (\<lambda>cb2.
       and_then (ok_or (NotArray ''merkle_branches'') (as_array (params ! 4))) (\<lambda>branches.
       and_then (traverse_sum (\<lambda>b. and_then (json_str ''merkle branch'' b) (parse_merkle_node hex_decode)) branches) (\<lambda>nodes.
       and_then (json_hex32 ''version'' (params ! 5)) (\<lambda>version.
       and_then (json_hex32 ''nbits'' (params ! 6)) (\<lambda>nbits.
       and_then (json_hex32 ''ntime'' (params ! 7)) (\<lambda>ntime.
       and_then (ok_or (NotBool ''clean_jobs'') (as_bool (params ! 8))) (\<lambda>clean.
         Inr \<lparr>jn_job_id = jid, jn_prev_hash = prev, jn_coinbase1 = cb1, jn_coinbase2 = cb2,
              jn_merkle_branches = nodes, jn_version = version, jn_nbits = nbits, jn_ntime = ntime,
              jn_clean_jobs = clean\<rparr>)))))))))))"

section \<open>Share submission\<close>

record submit_params =
  sp_username :: string
  sp_job_id :: string
  sp_extranonce2 :: "u8 list"
  sp_ntime :: u32
  sp_nonce :: u32
  sp_version_bits :: "u32 option"

definition to_stratum_json :: "(u8 list \<Rightarrow> string) \<Rightarrow> submit_params \<Rightarrow> 'n json list" where
  "to_stratum_json hex_encode p =
    [JString (sp_username p), JString (sp_job_id p), JString (hex_encode (sp_extranonce2 p)),
     JString (hex32 (sp_ntime p)), JString (hex32 (sp_nonce p))] @
    (case sp_version_bits p of Some v \<Rightarrow> [JString (hex32 v)] | None \<Rightarrow> [])"

section \<open>JSON-RPC envelope\<close>

datatype 'n json_rpc_message =
  Request "u64 option" string "'n json"
  | Response u64 "'n json option" "'n json option"

definition rpc_request :: "u64 \<Rightarrow> string \<Rightarrow> 'n json \<Rightarrow> 'n json_rpc_message" where
  "rpc_request i method params = Request (Some i) method params"

definition rpc_notification :: "string \<Rightarrow> 'n json \<Rightarrow> 'n json_rpc_message" where
  "rpc_notification method params = Request None method params"

fun rpc_id :: "'n json_rpc_message \<Rightarrow> u64 option" where
  "rpc_id (Request i _ _) = i"
| "rpc_id (Response i _ _) = Some i"

fun is_notification :: "'n json_rpc_message \<Rightarrow> bool" where
  "is_notification (Request i _ _) = (i = None)"
| "is_notification (Response _ _ _) = False"

fun rpc_method :: "'n json_rpc_message \<Rightarrow> string option" where
  "rpc_method (Request _ m _) = Some m"
| "rpc_method (Response _ _ _) = None"

section \<open>Client events and commands\<close>

datatype 'f client_event =
  VersionRollingConfigured "u32 option"
  | Subscribed "u8 list" nat
  | NewJob job_notification
  | DifficultyChanged 'f
  | VersionMaskSet u32
  | ShareAccepted string u32
  | ShareRejected string string
  | DisconnectedEvent
  | ErrorEvent string

datatype 'f client_command = SubmitShareCmd submit_params | SuggestDifficulty 'f

section \<open>Lemmas\<close>

lemma word_swap_chunk: "length xs = 4 \<Longrightarrow> word_swap (xs @ ys) = rev xs @ word_swap ys"
  by (cases xs) auto

lemma length_word_swap [simp]: "length (word_swap xs) = length xs"
  by (induction xs rule: word_swap.induct) auto

lemma word_swap_twice: "4 dvd length xs \<Longrightarrow> word_swap (word_swap xs) = xs"
proof (induction xs rule: word_swap.induct)
  case (2 v va)
  let ?xs = "v # va"
  have l: "length (take 4 ?xs) = 4" using 2(2) by (auto dest!: dvd_imp_le)
  have "4 dvd length (drop 4 ?xs)" using 2(2) dvd_diff_nat [of 4 "length ?xs" 4] by simp
  with 2(1) have "word_swap (word_swap (drop 4 ?xs)) = drop 4 ?xs" .
  then show ?case using word_swap_chunk [of "rev (take 4 ?xs)"] l by simp
qed simp

lemma hex_digit_char: "d < 16 \<Longrightarrow> hex_digit (hex_char d) = Some d"
  by (auto simp: hex_digit_def hex_char_def of_char_of)

lemma hex_char_not_plus: "d < 16 \<Longrightarrow> hex_char d \<noteq> CHR ''+''"
proof
  assume d: "d < 16" "hex_char d = CHR ''+''"
  have "hex_digit (CHR ''+'') = None" by code_simp
  then show False using hex_digit_char [OF d(1)] d(2) by simp
qed

lemma hex_digits_map:
  "\<forall>d \<in> set ds. d < 16 \<Longrightarrow> foldl (\<lambda>a d. a * 16 + d) acc ds < 2 ^ 32 \<Longrightarrow>
   hex_digits acc (map hex_char ds) = Some (foldl (\<lambda>a d. a * 16 + d) acc ds)"
proof (induction ds arbitrary: acc)
  case (Cons d ds)
  have mono: "acc \<le> foldl (\<lambda>a d. a * 16 + d) acc ds" for acc :: nat
  proof (induction ds arbitrary: acc)
    case (Cons e es)
    show ?case using Cons [of "acc * 16 + e"] by simp
  qed simp
  have "acc * 16 + d < 2 ^ 32" using Cons.prems(2) mono [of "acc * 16 + d"] by simp
  with Cons show ?case by (simp add: hex_digit_char)
qed simp

lemma nibble_sum:
  "(n :: nat) = 16 * a + r0 \<Longrightarrow> a = 16 * b + r1 \<Longrightarrow> b = 16 * c + r2 \<Longrightarrow> c = 16 * d + r3 \<Longrightarrow> d = 16 * e + r4 \<Longrightarrow>
   e = 16 * f + r5 \<Longrightarrow> f = 16 * g + r6 \<Longrightarrow> r7 = g \<Longrightarrow>
   268435456 * r7 + 16777216 * r6 + 1048576 * r5 + 65536 * r4 + 4096 * r3 + 256 * r2 + 16 * r1 + r0 = n"
  by simp

lemma hex32_value:
  "foldl (\<lambda>a d. a * 16 + d) 0 (map (\<lambda>i. unat (drop_bit (4 * (7 - i)) (w :: u32) AND 0xf)) [0..<8]) = unat w"
proof -
  have nib: "unat (drop_bit k w AND 0xf) = unat w div 2 ^ k mod 16" for k
  proof -
    have "drop_bit k w AND 0xf = take_bit 4 (drop_bit k w)" by (simp add: take_bit_eq_mask mask_eq_exp_minus_1)
    then have "unat (drop_bit k w AND 0xf) = take_bit 4 (unat (drop_bit k w))" by (simp only: unsigned_take_bit_eq)
    also have "\<dots> = take_bit 4 (drop_bit k (unat w))" by (simp only: unat_drop_bit_eq)
    finally show ?thesis by (simp add: drop_bit_eq_div take_bit_eq_mod)
  qed
  define n where "n = unat w"
  have n: "n < 2 ^ 32" using unsigned_less [of w, where ?'a = nat] by (simp add: n_def)
  have split: "n div 2 ^ k = 16 * (n div 2 ^ (k + 4)) + n div 2 ^ k mod 16" for k
    using div_mult_mod_eq [of "n div 2 ^ k" 16] by (simp add: div_mult2_eq [symmetric] power_add)
  have e: "n = 16 * (n div 16) + n mod 16" "n div 16 = 16 * (n div 256) + n div 16 mod 16"
    "n div 256 = 16 * (n div 4096) + n div 256 mod 16" "n div 4096 = 16 * (n div 65536) + n div 4096 mod 16"
    "n div 65536 = 16 * (n div 1048576) + n div 65536 mod 16" "n div 1048576 = 16 * (n div 16777216) + n div 1048576 mod 16"
    "n div 16777216 = 16 * (n div 268435456) + n div 16777216 mod 16" "n div 268435456 mod 16 = n div 268435456"
    proof -
    show "n = 16 * (n div 16) + n mod 16" by simp
    show "n div 268435456 mod 16 = n div 268435456" using n by (intro mod_less) (simp add: less_mult_imp_div_less)
  qed (use split [of 4] split [of 8] split [of 12] split [of 16] split [of 20] split [of 24] in simp_all)
  have "foldl (\<lambda>a d. a * 16 + d) 0 (map (\<lambda>i. n div 2 ^ (4 * (7 - i)) mod 16) [0..<8]) =
      268435456 * (n div 268435456 mod 16) + 16777216 * (n div 16777216 mod 16) + 1048576 * (n div 1048576 mod 16) +
      65536 * (n div 65536 mod 16) + 4096 * (n div 4096 mod 16) + 256 * (n div 256 mod 16) + 16 * (n div 16 mod 16) + n mod 16"
    by (simp add: upt_rec)
  also have "\<dots> = n" by (rule nibble_sum [OF e(1-7)]) (simp only: e(8))
  finally show ?thesis unfolding nib n_def [symmetric] .
qed

lemma u32_from_hex32: "u32_from_hex (hex32 w) = Some w"
proof -
  let ?ds = "map (\<lambda>i. unat (drop_bit (4 * (7 - i)) w AND 0xf)) [0..<8]"
  have small: "unat (x AND 0xf) < 16" for x :: u32
  proof -
    have "x AND 0xf \<le> 0xf" by (rule word_and_le1)
    then show ?thesis by (simp add: word_le_nat_alt)
  qed
  have h: "hex32 w = map hex_char ?ds" by (simp add: hex32_def)
  have "foldl (\<lambda>a d. a * 16 + d) 0 ?ds < 2 ^ 32" unfolding hex32_value using unsigned_less [of w, where ?'a = nat] by simp
  then have "hex_digits 0 (hex32 w) = Some (unat w)"
    unfolding h by (subst hex_digits_map) (use hex32_value [of w] small in auto)
  moreover obtain c cs where c: "hex32 w = c # cs" "c \<noteq> CHR ''+''"
    using small hex_char_not_plus by (simp add: hex32_def upt_rec)
  ultimately show ?thesis by (simp add: u32_from_hex_def)
qed

section \<open>Properties\<close>

text \<open>The parameters a pool sends for a job: hashes in word-swapped form, numbers in hexadecimal.\<close>

definition notify_params :: "(u8 list \<Rightarrow> string) \<Rightarrow> job_notification \<Rightarrow> 'n json list" where
  "notify_params hex_encode j =
    [JString (jn_job_id j), JString (hex_encode (word_swap (jn_prev_hash j))),
     JString (hex_encode (jn_coinbase1 j)), JString (hex_encode (jn_coinbase2 j)),
     JArray (map (\<lambda>b. JString (hex_encode b)) (jn_merkle_branches j)),
     JString (hex32 (jn_version j)), JString (hex32 (jn_nbits j)), JString (hex32 (jn_ntime j)),
     JBool (jn_clean_jobs j)]"

lemma nodes_roundtrip:
  assumes "\<And>bs. hex_decode (hex_encode bs) = Some bs" "\<forall>b \<in> set bs. length b = 32"
  shows "traverse_sum (\<lambda>b. and_then (json_str f b) (parse_merkle_node hex_decode))
      (map (\<lambda>b. JString (hex_encode b)) bs) = Inr bs"
  using assms by (induction bs) (simp_all add: json_str_def ok_or_def parse_merkle_node_def)

text \<open>
  C13: A job survives the trip from the pool. If the hex crate decodes what it encodes, the
  parameters a pool sends for a job with 32-byte hashes are parsed back to exactly that job,
  whatever extra parameters follow; with fewer than nine parameters the message is refused.
\<close>

theorem notify_roundtrip:
  assumes "\<And>bs. hex_decode (hex_encode bs) = Some bs"
    and "length (jn_prev_hash j) = 32" "\<forall>b \<in> set (jn_merkle_branches j). length b = 32"
  shows "from_stratum_params hex_decode (notify_params hex_encode j @ extra) = Inr j \<and>
    from_stratum_params hex_decode (take 8 (notify_params hex_encode j)) = Inl ParamsTooShort"
proof -
  have s: "json_str f (JString x) = Inr x" for f x by (simp add: json_str_def ok_or_def)
  have h: "json_hex32 f (JString (hex32 w)) = Inr w" for f w
    by (simp add: json_hex32_def s u32_from_hex32)
  have b: "json_bytes hex_decode f (JString (hex_encode bs)) = Inr bs" for f bs
    by (simp add: json_bytes_def s assms(1))
  have p: "parse_block_hash hex_decode (hex_encode (word_swap (jn_prev_hash j))) = Inr (jn_prev_hash j)"
    using assms(1,2) word_swap_twice [of "jn_prev_hash j"] by (simp add: parse_block_hash_def)
  show ?thesis
    by (simp add: nodes_roundtrip [OF assms(1,3)] from_stratum_params_def notify_params_def s h b p ok_or_def and_then_simps)
qed

theorem notify_roundtrip_witness:
  "let enc = map (\<lambda>b :: u8. char_of (unat b) :: char); dec = (\<lambda>s :: string. Some (map (\<lambda>c. word_of_nat (of_char c)) s));
       j = \<lparr>jn_job_id = ''a'', jn_prev_hash = replicate 32 1, jn_coinbase1 = [1], jn_coinbase2 = [2], jn_merkle_branches = [replicate 32 3],
      jn_version = 0x20000000, jn_nbits = 0x1d00ffff, jn_ntime = 5, jn_clean_jobs = True\<rparr>
   in from_stratum_params dec (notify_params enc j @ [JNull]) = Inr j"
proof -
  let ?j = "\<lparr>jn_job_id = ''a'', jn_prev_hash = replicate 32 1, jn_coinbase1 = [1], jn_coinbase2 = [2], jn_merkle_branches = [replicate 32 3],
      jn_version = 0x20000000, jn_nbits = 0x1d00ffff, jn_ntime = 5, jn_clean_jobs = True\<rparr>"
  have "word_of_nat (of_char (char_of (unat b) :: char)) = b" for b :: u8
    using unsigned_less [of b, where ?'a = nat] by simp
  then have d: "(\<lambda>s. Some (map (\<lambda>c. word_of_nat (of_char c)) s)) (map (\<lambda>b. char_of (unat b) :: char) bs) = Some bs" for bs :: "u8 list"
    by (induction bs) simp_all
  show ?thesis unfolding Let_def by (rule notify_roundtrip [OF d, THEN conjunct1]) simp_all
qed

end
