(* ===== verification/Stratum_Client.thy ===== *)
theory Stratum_Client
  imports Stratum_Messages
begin

text \<open>
  The Stratum v1 client, from \<open>mujina-miner/src/stratum_v1/client.rs\<close>: the request that waits
  for its response while notifications arrive, the handshake (configure, subscribe,
  authorize, suggest), share submission, the notification handlers and the main loop. What the
  \<open>select!\<close> of the client sees is one list of inputs in the order they occur; a client that
  runs out of inputs is waiting.
\<close>

section \<open>Inputs, environment and state\<close>

datatype 'n net_read = ReadMsg "'n json_rpc_message" | ReadEof | ReadErr "'n stratum_error"

datatype ('n, 'f) input =
  NetRead "'n net_read" | ShutdownRequested | TimedOut | CommandIn "'f client_command"

text \<open>
  The world of the client: does the receiver take the n-th event, does the n-th write succeed,
  how JSON numbers and doubles are read and written, and the hex crate.
\<close>

record ('n, 'f) client_env =
  cn_accepts :: "nat \<Rightarrow> bool"
  cn_write :: "nat \<Rightarrow> 'n stratum_error option"
  cn_as_u64 :: "'n \<Rightarrow> u64 option"
  cn_as_f64 :: "'n \<Rightarrow> 'f option"
  cn_finite_positive :: "'f \<Rightarrow> bool"
  cn_at_least_one :: "'f \<Rightarrow> bool"
  cn_integer_json :: "'f \<Rightarrow> 'n json"
  cn_float_json :: "'f \<Rightarrow> 'n json"
  cn_hex_decode :: "string \<Rightarrow> u8 list option"
  cn_hex_encode :: "u8 list \<Rightarrow> string"
  cn_username :: string
  cn_password :: string
  cn_user_agent :: string

record 'f client_protocol =
  cp_extranonce1 :: string
  cp_extranonce2_size :: nat
  cp_difficulty :: "'f option"
  cp_version_mask :: "u32 option"

text \<open>The state, with the events taken, the writes attempted and the inputs still to come.\<close>

record ('n, 'f) client =
  cl_next_id :: u64
  cl_state :: "'f client_protocol option"
  cl_initial_suggest :: "'f option"
  cl_has_commands :: bool
  cl_events :: "'f client_event list"
  cl_written :: "('n json_rpc_message \<times> bool) list"
  cl_input :: "('n, 'f) input list"

definition client_new :: "bool \<Rightarrow> 'f option \<Rightarrow> ('n, 'f) input list \<Rightarrow> ('n, 'f) client" where
  "client_new has_commands initial_suggest ins =
    \<lparr>cl_next_id = 1, cl_state = None, cl_initial_suggest = initial_suggest, cl_has_commands = has_commands,
     cl_events = [], cl_written = [], cl_input = ins\<rparr>"

datatype ('e, 'a) outcome = Done 'a | Failed 'e | Waiting | Panicked

section \<open>Effects\<close>

definition emit :: "('n, 'f) client_env \<Rightarrow> 'f client_event \<Rightarrow> ('n, 'f) client \<Rightarrow> ('n stratum_error + unit) \<times> ('n, 'f) client" where
  "emit E ev c =
    (if cn_accepts E (length (cl_events c)) then (Inr (), c\<lparr>cl_events := cl_events c @ [ev]\<rparr>)
     else (Inl Disconnected, c))"

definition write_message ::
  "('n, 'f) client_env \<Rightarrow> 'n json_rpc_message \<Rightarrow> ('n, 'f) client \<Rightarrow> ('n stratum_error + unit) \<times> ('n, 'f) client" where
  "write_message E m c =
    (case cn_write E (length (cl_written c)) of
       None \<Rightarrow> (Inr (), c\<lparr>cl_written := cl_written c @ [(m, True)]\<rparr>)
     | Some e \<Rightarrow> (Inl e, c\<lparr>cl_written := cl_written c @ [(m, False)]\<rparr>))"

text \<open>\<open>next_id += 1\<close> is checked.\<close>

definition next_msg_id :: "('n, 'f) client \<Rightarrow> (u64 \<times> ('n, 'f) client) option" where
  "next_msg_id c = map_option (\<lambda>n. (cl_next_id c, c\<lparr>cl_next_id := n\<rparr>)) (add_chk (cl_next_id c) 1)"

section \<open>Notifications\<close>

definition handle_mining_notify ::
  "('n, 'f) client_env \<Rightarrow> 'n json \<Rightarrow> ('n, 'f) client \<Rightarrow> ('n stratum_error + unit) \<times> ('n, 'f) client" where
  "handle_mining_notify E params c =
    (case and_then (ok_or (NotArray ''mining.notify params'') (as_array params)) (from_stratum_params (cn_hex_decode E)) of
       Inl e \<Rightarrow> (Inl (InvalidMessage e), c)
     | Inr job \<Rightarrow> emit E (NewJob job) c)"

definition handle_set_difficulty ::
  "('n, 'f) client_env \<Rightarrow> 'n json \<Rightarrow> ('n, 'f) client \<Rightarrow> ('n stratum_error + unit) \<times> ('n, 'f) client" where
  "handle_set_difficulty E params c =
    (case as_array params of
       None \<Rightarrow> (Inl (InvalidMessage (NotArray ''set_difficulty params'')), c)
     | Some [] \<Rightarrow> (Inl (InvalidMessage ParamsTooShort), c)
     | Some (v # _) \<Rightarrow>
         (case Option.bind (as_number v) (cn_as_f64 E) of
            None \<Rightarrow> (Inl (InvalidMessage (NotNumber ''difficulty'')), c)
          | Some d \<Rightarrow>
              if \<not> cn_finite_positive E d then (Inl (InvalidMessage NotPositive), c)
              else emit E (DifficultyChanged d)
                     (c\<lparr>cl_state := map_option (\<lambda>s. s\<lparr>cp_difficulty := Some d\<rparr>) (cl_state c)\<rparr>)))"

definition handle_set_version_mask ::
  "('n, 'f) client_env \<Rightarrow> 'n json \<Rightarrow> ('n, 'f) client \<Rightarrow> ('n stratum_error + unit) \<times> ('n, 'f) client" where
  "handle_set_version_mask E params c =
    (case as_array params of
       None \<Rightarrow> (Inl (InvalidMessage (NotArray ''set_version_mask params'')), c)
     | Some [] \<Rightarrow> (Inl (InvalidMessage ParamsTooShort), c)
     | Some (v # _) \<Rightarrow>
         (case as_str v of
            None \<Rightarrow> (Inl (InvalidMessage (NotString ''version_mask'')), c)
          | Some s \<Rightarrow>
              (case u32_from_hex (trim_0x s) of
                 None \<Rightarrow> (Inl (InvalidMessage (BadHex ''version_mask'')), c)
               | Some m \<Rightarrow> emit E (VersionMaskSet m)
                     (c\<lparr>cl_state := map_option (\<lambda>s. s\<lparr>cp_version_mask := Some m\<rparr>) (cl_state c)\<rparr>))))"

definition handle_notification ::
  "('n, 'f) client_env \<Rightarrow> string \<Rightarrow> 'n json \<Rightarrow> ('n, 'f) client \<Rightarrow> ('n stratum_error + unit) \<times> ('n, 'f) client" where
  "handle_notification E method params c =
    (if method = ''mining.notify'' then handle_mining_notify E params c
     else if method = ''mining.set_difficulty'' then handle_set_difficulty E params c
     else if method = ''mining.set_version_mask'' then handle_set_version_mask E params c
     else if method = ''client.reconnect'' then (Inl Disconnected, c)
     else (Inr (), c))"

section \<open>Requests\<close>

text \<open>
  The loop of \<open>send_request\<close>. The commands' channel is not selected here, so a command cannot
  be the next input.
\<close>

fun await_response ::
  "('n, 'f) client_env \<Rightarrow> u64 \<Rightarrow> ('n, 'f) input list \<Rightarrow> ('n, 'f) client
   \<Rightarrow> ('n stratum_error, 'n json_rpc_message) outcome \<times> ('n, 'f) client"
where
  "await_response E i [] c = (Waiting, c\<lparr>cl_input := []\<rparr>)"
| "await_response E i (NetRead (ReadMsg (Response j result error)) # ins) c =
     (if j = i then (Done (Response j result error), c\<lparr>cl_input := ins\<rparr>) else await_response E i ins c)"
| "await_response E i (NetRead (ReadMsg (Request None method params)) # ins) c =
     await_response E i ins (snd (handle_notification E method params c))"
| "await_response E i (NetRead (ReadMsg (Request (Some _) method params)) # ins) c = await_response E i ins c"
| "await_response E i (NetRead ReadEof # ins) c = (Failed Disconnected, c\<lparr>cl_input := ins\<rparr>)"
| "await_response E i (NetRead (ReadErr e) # ins) c = (Failed e, c\<lparr>cl_input := ins\<rparr>)"
| "await_response E i (ShutdownRequested # ins) c = (Failed Disconnected, c\<lparr>cl_input := ins\<rparr>)"
| "await_response E i (TimedOut # ins) c = (Failed Timeout, c\<lparr>cl_input := ins\<rparr>)"
| "await_response E i (CommandIn cmd # ins) c = (Waiting, c\<lparr>cl_input := CommandIn cmd # ins\<rparr>)"

definition send_request ::
  "('n, 'f) client_env \<Rightarrow> string \<Rightarrow> 'n json \<Rightarrow> ('n, 'f) client
   \<Rightarrow> ('n stratum_error, 'n json_rpc_message) outcome \<times> ('n, 'f) client" where
  "send_request E method params c =
    (case next_msg_id c of
       None \<Rightarrow> (Panicked, c)
     | Some (i, c1) \<Rightarrow>
         (case write_message E (rpc_request i method params) c1 of
            (Inl e, c2) \<Rightarrow> (Failed e, c2)
          | (Inr _, c2) \<Rightarrow> await_response E i (cl_input c2) c2))"

text \<open>A pool that answers with an error or not at all does not support version rolling.\<close>

definition parse_configure :: "'n json \<Rightarrow> 'n stratum_error + u32 option" where
  "parse_configure result =
    (case as_object result of
       None \<Rightarrow> Inl (InvalidMessage (NotObject ''configure result''))
     | Some obj \<Rightarrow>
         if case Option.bind (map_of obj ''version-rolling'') as_bool of Some b \<Rightarrow> b | None \<Rightarrow> False then
           (case Option.bind (map_of obj ''version-rolling.mask'') as_str of
              None \<Rightarrow> Inl (InvalidMessage (MissingKey ''version-rolling.mask''))
            | Some s \<Rightarrow>
                (case u32_from_hex (trim_0x s) of
                   None \<Rightarrow> Inl (InvalidMessage (BadHex ''version mask''))
                 | Some m \<Rightarrow> Inr (Some m)))
         else Inr None)"

definition configure_version_rolling ::
  "('n, 'f) client_env \<Rightarrow> ('n, 'f) client \<Rightarrow> ('n stratum_error, u32 option) outcome \<times> ('n, 'f) client" where
  "configure_version_rolling E c =
    (case send_request E ''mining.configure''
        (JArray [JArray [JString ''version-rolling''], JObject [(''version-rolling.mask'', JString ''1fffe000'')]]) c of
       (Done (Response _ (Some result) None), c') \<Rightarrow>
         (case parse_configure result of Inl e \<Rightarrow> Failed e | Inr m \<Rightarrow> Done m, c')
     | (Done _, c') \<Rightarrow> (Done None, c')
     | (Failed Timeout, c') \<Rightarrow> (Done None, c')
     | (Failed e, c') \<Rightarrow> (Failed e, c')
     | (Waiting, c') \<Rightarrow> (Waiting, c')
     | (Panicked, c') \<Rightarrow> (Panicked, c'))"

definition parse_subscribe ::
  "('n, 'f) client_env \<Rightarrow> u32 option \<Rightarrow> 'n json \<Rightarrow> 'n stratum_error + 'f client_protocol" where
  "parse_subscribe E authorized_mask result =
    (case as_array result of
       None \<Rightarrow> Inl (InvalidMessage (NotArray ''subscribe result''))
     | Some arr \<Rightarrow>
         if length arr < 3 then Inl (InvalidMessage ParamsTooShort)
         else (case as_str (arr ! 1) of
                 None \<Rightarrow> Inl (InvalidMessage (NotString ''extranonce1''))
               | Some en1 \<Rightarrow>
                   (case Option.bind (as_number (arr ! 2)) (cn_as_u64 E) of
                      None \<Rightarrow> Inl (InvalidMessage (NotNumber ''extranonce2_size''))
                    | Some size2 \<Rightarrow>
                        Inr \<lparr>cp_extranonce1 = en1, cp_extranonce2_size = unat size2,
                             cp_difficulty = None, cp_version_mask = authorized_mask\<rparr>)))"

definition subscribe ::
  "('n, 'f) client_env \<Rightarrow> u32 option \<Rightarrow> ('n, 'f) client \<Rightarrow> ('n stratum_error, unit) outcome \<times> ('n, 'f) client" where
  "subscribe E authorized_mask c =
    (case send_request E ''mining.subscribe'' (JArray [JString (cn_user_agent E)]) c of
       (Done (Response _ (Some result) None), c') \<Rightarrow>
         (case parse_subscribe E authorized_mask result of
            Inl e \<Rightarrow> (Failed e, c')
          | Inr st \<Rightarrow> (Done (), c'\<lparr>cl_state := Some st\<rparr>))
     | (Done (Response _ _ (Some error)), c') \<Rightarrow> (Failed (SubscriptionFailed error), c')
     | (Done _, c') \<Rightarrow> (Failed (UnexpectedResponse ''Invalid subscribe response''), c')
     | (Failed e, c') \<Rightarrow> (Failed e, c')
     | (Waiting, c') \<Rightarrow> (Waiting, c')
     | (Panicked, c') \<Rightarrow> (Panicked, c'))"

definition authorize ::
  "('n, 'f) client_env \<Rightarrow> ('n, 'f) client \<Rightarrow> ('n stratum_error, unit) outcome \<times> ('n, 'f) client" where
  "authorize E c =
    (case send_request E ''mining.authorize'' (JArray [JString (cn_username E), JString (cn_password E)]) c of
       (Done (Response _ (Some result) None), c') \<Rightarrow>
         (if as_bool result = Some True then Done () else Failed (AuthorizationFailed None), c')
     | (Done (Response _ _ (Some error)), c') \<Rightarrow> (Failed (AuthorizationFailed (Some error)), c')
     | (Done _, c') \<Rightarrow> (Failed (UnexpectedResponse ''Invalid authorize response''), c')
     | (Failed e, c') \<Rightarrow> (Failed e, c')
     | (Waiting, c') \<Rightarrow> (Waiting, c')
     | (Panicked, c') \<Rightarrow> (Panicked, c'))"

text \<open>Whatever the pool does, suggesting a difficulty succeeds.\<close>

definition suggest_difficulty ::
  "('n, 'f) client_env \<Rightarrow> 'f \<Rightarrow> ('n, 'f) client \<Rightarrow> ('n stratum_error, unit) outcome \<times> ('n, 'f) client" where
  "suggest_difficulty E d c =
    (case send_request E ''mining.suggest_difficulty''
        (JArray [if cn_at_least_one E d then cn_integer_json E d else cn_float_json E d]) c of
       (Waiting, c') \<Rightarrow> (Waiting, c')
     | (Panicked, c') \<Rightarrow> (Panicked, c')
     | (_, c') \<Rightarrow> (Done (), c'))"

text \<open>
  The reason a pool gives for a rejection: the second element of an error array, or the
  debug text of anything else (\<open>reject_text\<close>).
\<close>

definition reject_reason :: "('n json \<Rightarrow> string) \<Rightarrow> 'n json \<Rightarrow> string" where
  "reject_reason reject_text error =
    (case as_array error of
       Some arr \<Rightarrow>
         (case (if 1 < length arr then as_str (arr ! 1) else None) of
            Some s \<Rightarrow> s | None \<Rightarrow> ''Unknown error'')
     | None \<Rightarrow> reject_text error)"

definition submit ::
  "('n, 'f) client_env \<Rightarrow> ('n json \<Rightarrow> string) \<Rightarrow> submit_params \<Rightarrow> ('n, 'f) client
   \<Rightarrow> ('n stratum_error, bool) outcome \<times> ('n, 'f) client" where
  "submit E reject_text p c =
    (case send_request E ''mining.submit'' (JArray (to_stratum_json (cn_hex_encode E) p)) c of
       (Done (Response _ (Some result) None), c') \<Rightarrow>
         (let accepted = (as_bool result = Some True);
              ev = (if accepted then ShareAccepted (sp_job_id p) (sp_nonce p)
                    else ShareRejected (sp_job_id p) ''Pool returned false'')
          in case emit E ev c' of (Inl e, c'') \<Rightarrow> (Failed e, c'') | (Inr _, c'') \<Rightarrow> (Done accepted, c''))
     | (Done (Response _ _ (Some error)), c') \<Rightarrow>
         (case emit E (ShareRejected (sp_job_id p) (reject_reason reject_text error)) c' of
            (Inl e, c'') \<Rightarrow> (Failed e, c'') | (Inr _, c'') \<Rightarrow> (Done False, c''))
     | (Done _, c') \<Rightarrow> (Failed (UnexpectedResponse ''Invalid submit response''), c')
     | (Failed e, c') \<Rightarrow> (Failed e, c')
     | (Waiting, c') \<Rightarrow> (Waiting, c')
     | (Panicked, c') \<Rightarrow> (Panicked, c'))"

section \<open>Main loop\<close>

text \<open>
  One turn of the main loop: \<open>Done True\<close> goes on, \<open>Done False\<close> is a clean shutdown, \<open>Failed\<close> is
  the error the client returns.
\<close>

definition main_turn ::
  "('n, 'f) client_env \<Rightarrow> ('n json \<Rightarrow> string) \<Rightarrow> ('n, 'f) client \<Rightarrow> ('n stratum_error, bool) outcome \<times> ('n, 'f) client" where
  "main_turn E reject_text c =
    (case cl_input c of
       [] \<Rightarrow> (Waiting, c)
     | NetRead r # ins \<Rightarrow>
         (let c1 = c\<lparr>cl_input := ins\<rparr> in
          case r of
            ReadMsg (Request None method params) \<Rightarrow>
              (case handle_notification E method params c1 of
                 (Inl Disconnected, c2) \<Rightarrow> (Failed Disconnected, c2)
               | (_, c2) \<Rightarrow> (Done True, c2))
          | ReadMsg _ \<Rightarrow> (Done True, c1)
          | ReadEof \<Rightarrow> (Failed Disconnected, snd (emit E DisconnectedEvent c1))
          | ReadErr (InvalidMessage _) \<Rightarrow> (Done True, c1)
          | ReadErr e \<Rightarrow> (Failed e, c1))
     | CommandIn cmd # ins \<Rightarrow>
         if \<not> cl_has_commands c then (Waiting, c)
         else (let c1 = c\<lparr>cl_input := ins\<rparr> in
               case cmd of
                 SubmitShareCmd p \<Rightarrow>
                   (case submit E reject_text p c1 of
                      (Waiting, c2) \<Rightarrow> (Waiting, c2)
                    | (Panicked, c2) \<Rightarrow> (Panicked, c2)
                    | (_, c2) \<Rightarrow> (Done True, c2))
               | SuggestDifficulty d \<Rightarrow>
                   (case suggest_difficulty E d c1 of
                      (Waiting, c2) \<Rightarrow> (Waiting, c2)
                    | (Panicked, c2) \<Rightarrow> (Panicked, c2)
                    | (_, c2) \<Rightarrow> (Done True, c2)))
     | ShutdownRequested # ins \<Rightarrow> (Done False, snd (emit E DisconnectedEvent (c\<lparr>cl_input := ins\<rparr>)))
     | TimedOut # ins \<Rightarrow> (Waiting, c))"

text \<open>Turns until the client returns or waits; \<open>fuel\<close> bounds their number.\<close>

fun main_loop ::
  "('n, 'f) client_env \<Rightarrow> ('n json \<Rightarrow> string) \<Rightarrow> nat \<Rightarrow> ('n, 'f) client \<Rightarrow> ('n stratum_error, unit) outcome \<times> ('n, 'f) client"
where
  "main_loop E reject_text 0 c = (Waiting, c)"
| "main_loop E reject_text (Suc fuel) c =
     (case main_turn E reject_text c of
        (Done go, c') \<Rightarrow> if go then main_loop E reject_text fuel c' else (Done (), c')
      | (Failed e, c') \<Rightarrow> (Failed e, c')
      | (Waiting, c') \<Rightarrow> (Waiting, c')
      | (Panicked, c') \<Rightarrow> (Panicked, c'))"

section \<open>Handshake\<close>

definition io_bind ::
  "('c \<Rightarrow> ('e, 'a) outcome \<times> 'c) \<Rightarrow> ('a \<Rightarrow> 'c \<Rightarrow> ('e, 'b) outcome \<times> 'c) \<Rightarrow> 'c \<Rightarrow> ('e, 'b) outcome \<times> 'c" where
  "io_bind m f c =
    (case m c of
       (Done x, c') \<Rightarrow> f x c'
     | (Failed e, c') \<Rightarrow> (Failed e, c')
     | (Waiting, c') \<Rightarrow> (Waiting, c')
     | (Panicked, c') \<Rightarrow> (Panicked, c'))"

definition io_emit ::
  "('n, 'f) client_env \<Rightarrow> 'f client_event \<Rightarrow> ('n, 'f) client \<Rightarrow> ('n stratum_error, unit) outcome \<times> ('n, 'f) client" where
  "io_emit E ev c = (case emit E ev c of (Inl e, c') \<Rightarrow> (Failed e, c') | (Inr _, c') \<Rightarrow> (Done (), c'))"

text \<open>After \<open>subscribe\<close> the state is set; its first extranonce must be hexadecimal.\<close>

definition announce_subscription ::
  "('n, 'f) client_env \<Rightarrow> ('n, 'f) client \<Rightarrow> ('n stratum_error, unit) outcome \<times> ('n, 'f) client" where
  "announce_subscription E c =
    (case cl_state c of
       None \<Rightarrow> (Panicked, c)
     | Some st \<Rightarrow>
         (case cn_hex_decode E (cp_extranonce1 st) of
            None \<Rightarrow> (Failed (InvalidMessage (BadHex ''extranonce1'')), c)
          | Some en1 \<Rightarrow> io_emit E (Subscribed en1 (cp_extranonce2_size st)) c))"

definition handshake ::
  "('n, 'f) client_env \<Rightarrow> ('n, 'f) client \<Rightarrow> ('n stratum_error, unit) outcome \<times> ('n, 'f) client" where
  "handshake E =
    io_bind (configure_version_rolling E) (\<lambda>authorized_mask.
    io_bind (io_emit E (VersionRollingConfigured authorized_mask)) (\<lambda>_.
    io_bind (subscribe E authorized_mask) (\<lambda>_.
    io_bind (announce_subscription E) (\<lambda>_.
    io_bind (authorize E) (\<lambda>_ c.
      case cl_initial_suggest c of
        None \<Rightarrow> (Done (), c)
      | Some d \<Rightarrow> suggest_difficulty E d c)))))"

text \<open>
  A turn of the main loop takes at least one input, so one turn more than there are inputs
  left is enough.
\<close>

definition run_with_transport ::
  "('n, 'f) client_env \<Rightarrow> ('n json \<Rightarrow> string) \<Rightarrow> ('n, 'f) client \<Rightarrow> ('n stratum_error, unit) outcome \<times> ('n, 'f) client" where
  "run_with_transport E reject_text =
    io_bind (handshake E) (\<lambda>_ c. main_loop E reject_text (Suc (length (cl_input c))) c)"

end
