(* ===== verification/Client_Properties.thy ===== *)
theory Client_Properties
  imports Stratum_Client
begin

text \<open>
  What the Stratum client guarantees: requests carry fresh ids and get their own response, the
  notifications that arrive in between are handled in order, the handshake happens in its
  order, a submitted share gets one verdict, and the main loop needs no more turns than
  inputs.
\<close>

section \<open>Frame facts\<close>

text \<open>What a step does to the state besides its purpose: nothing is forgotten.\<close>

definition extends :: "('n, 'f) client \<Rightarrow> ('n, 'f) client \<Rightarrow> bool" where
  "extends c c' \<longleftrightarrow> (\<exists>evs. cl_events c' = cl_events c @ evs) \<and> length (cl_input c') \<le> length (cl_input c) \<and>
     cl_has_commands c' = cl_has_commands c \<and> cl_initial_suggest c' = cl_initial_suggest c"

lemma extends_refl [simp]: "extends c c"
  by (simp add: extends_def)

lemma extends_trans: "extends a b \<Longrightarrow> extends b c \<Longrightarrow> extends a c"
  by (auto simp: extends_def)

text \<open>The n-th message written is a request with id n, counting from one.\<close>

definition client_wf :: "('n, 'f) client \<Rightarrow> bool" where
  "client_wf c \<longleftrightarrow> unat (cl_next_id c) = Suc (length (cl_written c)) \<and>
     map (rpc_id \<circ> fst) (cl_written c) = map (\<lambda>k. Some (word_of_nat (Suc k))) [0..<length (cl_written c)]"

definition written_methods :: "('n, 'f) client \<Rightarrow> string list" where
  "written_methods c = map (\<lambda>m. the (rpc_method (fst m))) (cl_written c)"

text \<open>A notification changes neither the writes nor the inputs.\<close>

definition quiet :: "('n, 'f) client \<Rightarrow> ('n, 'f) client \<Rightarrow> bool" where
  "quiet c c' \<longleftrightarrow> extends c c' \<and> cl_written c' = cl_written c \<and> cl_next_id c' = cl_next_id c \<and> cl_input c' = cl_input c"

lemma quiet_refl [simp]: "quiet c c"
  by (simp add: quiet_def)

lemma quiet_trans: "quiet a b \<Longrightarrow> quiet b c \<Longrightarrow> quiet a c"
  by (auto simp: quiet_def intro: extends_trans)

lemma quiet_wf: "quiet c c' \<Longrightarrow> client_wf c \<Longrightarrow> client_wf c'"
  by (simp add: quiet_def client_wf_def)

lemma emit_quiet: "quiet c (snd (emit E ev c))"
  by (simp add: quiet_def extends_def emit_def)

lemma emit_state_quiet: "quiet c (snd (emit E ev (c\<lparr>cl_state := st\<rparr>)))"
  by (simp add: quiet_def extends_def emit_def)

lemma handle_notification_quiet: "quiet c (snd (handle_notification E method params c))"
  by (auto simp: handle_notification_def handle_mining_notify_def handle_set_difficulty_def
      handle_set_version_mask_def emit_quiet emit_state_quiet split: sum.splits option.splits list.splits)

section \<open>Requests\<close>

text \<open>The notifications among the inputs, and what handling them one after the other does.\<close>

fun notifications :: "('n, 'f) input list \<Rightarrow> (string \<times> 'n json) list" where
  "notifications [] = []"
| "notifications (NetRead (ReadMsg (Request None method params)) # ins) = (method, params) # notifications ins"
| "notifications (_ # ins) = notifications ins"

definition notify_all ::
  "('n, 'f) client_env \<Rightarrow> (string \<times> 'n json) list \<Rightarrow> ('n, 'f) client \<Rightarrow> ('n, 'f) client" where
  "notify_all E ns c = foldl (\<lambda>c (method, params). snd (handle_notification E method params c)) c ns"

lemma notify_all_quiet: "quiet c (notify_all E ns c)"
  unfolding notify_all_def
proof (induction ns arbitrary: c)
  case (Cons n ns)
  show ?case
    using quiet_trans [OF handle_notification_quiet [of c E "fst n" "snd n"] Cons.IH] by (simp add: case_prod_beta)
qed simp

lemma await_frame:
  "await_response E i ins c = (r, c') \<Longrightarrow> \<exists>ns. c' = (notify_all E ns c)\<lparr>cl_input := cl_input c'\<rparr> \<and>
     length (cl_input c') \<le> length ins"
proof (induction E i ins c rule: await_response.induct)
  case (3 E i nm ps ins c)
  then obtain ns where "c' = (notify_all E ns (snd (handle_notification E nm ps c)))\<lparr>cl_input := cl_input c'\<rparr>"
    "length (cl_input c') \<le> length ins" by auto
  then show ?case by (intro exI [of _ "(nm, ps) # ns"]) (simp add: notify_all_def)
qed (force simp: notify_all_def split: if_splits intro: exI [of _ "[]"])+

lemma await_done:
  "await_response E i ins c = (Done m, c') \<Longrightarrow> \<exists>pre res err. m = Response i res err \<and>
     ins = pre @ NetRead (ReadMsg m) # cl_input c' \<and> c' = (notify_all E (notifications pre) c)\<lparr>cl_input := cl_input c'\<rparr> \<and>
     (\<forall>res err. NetRead (ReadMsg (Response i res err)) \<notin> set pre)"
proof (induction E i ins c rule: await_response.induct)
  case (2 E i j result err ins c)
  show ?case
  proof (cases "j = i")
    case True
    with 2 show ?thesis by (intro exI [of _ "[]"]) (auto simp: notify_all_def)
  next
    case False
    with 2 obtain pre res err' where "m = Response i res err'" "ins = pre @ NetRead (ReadMsg m) # cl_input c'"
      "c' = (notify_all E (notifications pre) c)\<lparr>cl_input := cl_input c'\<rparr>"
      "\<forall>res err. NetRead (ReadMsg (Response i res err)) \<notin> set pre" by auto
    with False show ?thesis by (intro exI [of _ "NetRead (ReadMsg (Response j result err)) # pre"]) auto
  qed
next
  case (3 E i nm ps ins c)
  then obtain pre res err where "m = Response i res err" "ins = pre @ NetRead (ReadMsg m) # cl_input c'"
    "c' = (notify_all E (notifications pre) (snd (handle_notification E nm ps c)))\<lparr>cl_input := cl_input c'\<rparr>"
    "\<forall>res err. NetRead (ReadMsg (Response i res err)) \<notin> set pre" by auto
  then show ?case
    by (intro exI [of _ "NetRead (ReadMsg (Request None nm ps)) # pre"]) (auto simp: notify_all_def)
next
  case (4 E i k nm ps ins c)
  then obtain pre res err where "m = Response i res err" "ins = pre @ NetRead (ReadMsg m) # cl_input c'"
    "c' = (notify_all E (notifications pre) c)\<lparr>cl_input := cl_input c'\<rparr>"
    "\<forall>res err. NetRead (ReadMsg (Response i res err)) \<notin> set pre" by auto
  then show ?case
    by (intro exI [of _ "NetRead (ReadMsg (Request (Some k) nm ps)) # pre"]) auto
qed auto

lemma send_request_cases:
  assumes "send_request E method params c = (r, c')" "client_wf c"
  shows "r = Panicked \<and> c' = c \<or>
    (\<exists>ok c1. c1 = c\<lparr>cl_next_id := cl_next_id c + 1, cl_written := cl_written c @ [(Request (Some (cl_next_id c)) method params, ok)]\<rparr> \<and>
       client_wf c1 \<and>
       (if ok then await_response E (cl_next_id c) (cl_input c) c1 = (r, c') else c' = c1 \<and> (\<exists>e. r = Failed e)))"
proof (cases "add_chk (cl_next_id c) 1")
  case None
  then show ?thesis using assms(1) by (simp add: send_request_def next_msg_id_def)
next
  case (Some n)
  then have n: "n = cl_next_id c + 1" "unat n = Suc (unat (cl_next_id c))"
    using unat_add_chk [OF Some] by (auto simp: add_chk_Some)
  have wf: "client_wf (c\<lparr>cl_next_id := n, cl_written := cl_written c @ [(Request (Some (cl_next_id c)) method params, ok)]\<rparr>)" for ok
  proof -
    have "cl_next_id c = word_of_nat (unat (cl_next_id c))" by simp
    with assms(2) have "cl_next_id c = word_of_nat (Suc (length (cl_written c)))" unfolding client_wf_def by metis
    with assms(2) n(2) show ?thesis by (simp add: client_wf_def del: of_nat_Suc)
  qed
  show ?thesis
    using assms(1) Some wf n(1)
    by (auto simp: send_request_def next_msg_id_def write_message_def rpc_request_def split: option.splits)
qed

lemma quiet_frame: "quiet c c' \<Longrightarrow> length ins \<le> length (cl_input c) \<Longrightarrow>
  extends c (c'\<lparr>cl_input := ins\<rparr>) \<and> (client_wf c \<longrightarrow> client_wf (c'\<lparr>cl_input := ins\<rparr>)) \<and>
  cl_written (c'\<lparr>cl_input := ins\<rparr>) = cl_written c"
  by (auto simp: quiet_def extends_def client_wf_def)

lemma send_request_frame:
  assumes "send_request E method params c = (r, c')" "client_wf c"
  shows "client_wf c' \<and> extends c c' \<and>
    (written_methods c' = written_methods c \<and> r = Panicked \<or> written_methods c' = written_methods c @ [method]) \<and>
    (\<forall>m. r = Done m \<longrightarrow> length (cl_input c') < length (cl_input c) \<and> written_methods c' = written_methods c @ [method])"
  using send_request_cases [OF assms]
proof
  assume "\<exists>ok c1. c1 = c\<lparr>cl_next_id := cl_next_id c + 1, cl_written := cl_written c @ [(Request (Some (cl_next_id c)) method params, ok)]\<rparr> \<and>
       client_wf c1 \<and>
       (if ok then await_response E (cl_next_id c) (cl_input c) c1 = (r, c') else c' = c1 \<and> (\<exists>e. r = Failed e))"
  then obtain ok c1 where c1: "c1 = c\<lparr>cl_next_id := cl_next_id c + 1, cl_written := cl_written c @ [(Request (Some (cl_next_id c)) method params, ok)]\<rparr>"
    and wf: "client_wf c1" and ok: "if ok then await_response E (cl_next_id c) (cl_input c) c1 = (r, c') else c' = c1 \<and> (\<exists>e. r = Failed e)"
    by blast
  have e: "extends c c1" "cl_input c1 = cl_input c" "written_methods c1 = written_methods c @ [method]"
    by (simp_all add: c1 extends_def written_methods_def)
  show ?thesis
  proof (cases ok)
    case False
    then show ?thesis using ok wf e by auto
  next
    case True
    with ok have a: "await_response E (cl_next_id c) (cl_input c) c1 = (r, c')" by simp
    from await_frame [OF a] obtain ns where "c' = (notify_all E ns c1)\<lparr>cl_input := cl_input c'\<rparr>"
      "length (cl_input c') \<le> length (cl_input c)" by blast
    with quiet_frame [OF notify_all_quiet [of c1 E ns]] e wf
    have "client_wf c'" "extends c1 c'" "cl_written c' = cl_written c1" by metis+
    moreover have "length (cl_input c') < length (cl_input c)" if "r = Done m" for m
      using await_done [OF a [unfolded that]] by (metis length_append length_Cons less_add_Suc2 add_Suc_right)
    ultimately show ?thesis using e by (auto simp: written_methods_def intro: extends_trans)
  qed
qed (use assms in auto)

section \<open>Operations with one request\<close>

text \<open>
  An operation of this kind keeps the numbering, only adds to the events, and writes exactly one
  message, with the method given, unless it panics.
\<close>

definition one_request :: "string \<Rightarrow> (('n, 'f) client \<Rightarrow> ('e, 'a) outcome \<times> ('n, 'f) client) \<Rightarrow> bool" where
  "one_request method op \<longleftrightarrow> (\<forall>c r c'. client_wf c \<longrightarrow> op c = (r, c') \<longrightarrow>
     client_wf c' \<and> extends c c' \<and>
     (written_methods c' = written_methods c @ [method] \<or> r = Panicked \<and> written_methods c' = written_methods c))"

lemma one_requestD:
  "one_request method op \<Longrightarrow> client_wf c \<Longrightarrow> op c = (r, c') \<Longrightarrow> client_wf c' \<and> extends c c' \<and>
     (written_methods c' = written_methods c @ [method] \<or> r = Panicked \<and> written_methods c' = written_methods c)"
  unfolding one_request_def by blast

text \<open>What may follow the request: an event, a new protocol state, an answer.\<close>

definition light :: "('n, 'f) client \<Rightarrow> ('n, 'f) client \<Rightarrow> bool" where
  "light c c' \<longleftrightarrow> quiet c c' \<or> (\<exists>st. c' = c\<lparr>cl_state := st\<rparr>)"

lemma light_intros [simp]: "light c c" "light c (snd (emit E ev c))" "light c (c\<lparr>cl_state := st\<rparr>)"
  by (auto simp: light_def emit_quiet)

lemma emit_light: "emit E ev c = (r, c') \<Longrightarrow> light c c'"
  using light_intros(2) [of c E ev] by simp

lemma light_frame:
  "light c c' \<Longrightarrow> (client_wf c \<longrightarrow> client_wf c') \<and> extends c c' \<and> written_methods c' = written_methods c"
  by (auto simp: light_def quiet_def client_wf_def extends_def written_methods_def)

lemma one_request_after:
  assumes "op = (\<lambda>c. case send_request E method params c of (r, c') \<Rightarrow> k r c')"
    and "\<And>r c' r'' c''. k r c' = (r'', c'') \<Longrightarrow> light c' c'' \<and> (r = Panicked \<longrightarrow> r'' = Panicked)"
  shows "one_request method op"
  unfolding one_request_def
proof (intro allI impI)
  fix c r'' c''
  assume wf: "client_wf c" and op: "op c = (r'', c'')"
  obtain r c' where s: "send_request E method params c = (r, c')" by fastforce
  with op assms(1) have k: "k r c' = (r'', c'')" by simp
  from assms(2) [OF k] send_request_frame [OF s wf] light_frame [of c' c'']
  show "client_wf c'' \<and> extends c c'' \<and>
     (written_methods c'' = written_methods c @ [method] \<or> r'' = Panicked \<and> written_methods c'' = written_methods c)"
    by (metis extends_trans)
qed

lemma one_request_configure: "one_request ''mining.configure'' (configure_version_rolling E)"
  by (rule one_request_after [OF ext], unfold configure_version_rolling_def, rule refl)
    (auto split: outcome.splits json_rpc_message.splits option.splits sum.splits stratum_error.splits)

lemma one_request_subscribe: "one_request ''mining.subscribe'' (subscribe E authorized_mask)"
  by (rule one_request_after [OF ext], unfold subscribe_def, rule refl)
    (auto split: outcome.splits json_rpc_message.splits option.splits sum.splits)

lemma one_request_authorize: "one_request ''mining.authorize'' (authorize E)"
  by (rule one_request_after [OF ext], unfold authorize_def, rule refl)
    (auto split: outcome.splits json_rpc_message.splits option.splits sum.splits)

lemma one_request_suggest: "one_request ''mining.suggest_difficulty'' (suggest_difficulty E d)"
  by (rule one_request_after [OF ext], unfold suggest_difficulty_def, rule refl)
    (auto split: outcome.splits)

lemma one_request_submit: "one_request ''mining.submit'' (submit E reject_text p)"
  by (rule one_request_after [OF ext], unfold submit_def, rule refl)
    (auto simp: Let_def split: outcome.splits json_rpc_message.splits option.splits sum.splits prod.splits dest: emit_light)

section \<open>The main loop\<close>

lemma extends_input: "cl_input c = i # ins \<Longrightarrow> extends (c\<lparr>cl_input := ins\<rparr>) c' \<Longrightarrow> length (cl_input c') < length (cl_input c)"
  by (auto simp: extends_def)

lemma light_input: "light c c' \<Longrightarrow> length (cl_input c') \<le> length (cl_input c)"
  using light_frame [of c c'] by (simp add: extends_def)

lemma notification_input: "handle_notification E m p c = (r, c') \<Longrightarrow> cl_input c' = cl_input c"
  using handle_notification_quiet [of c E m p] by (simp add: quiet_def)

text \<open>A turn that goes on has taken an input and keeps the bookkeeping.\<close>

lemma main_turn_takes_input:
  assumes "main_turn E reject_text c = (Done go, c')" "client_wf c"
  shows "length (cl_input c') < length (cl_input c) \<and> client_wf c' \<and> extends c c'"
proof (cases "cl_input c")
  case Nil
  then show ?thesis using assms(1) by (simp add: main_turn_def)
next
  case (Cons i ins)
  define c1 where "c1 = c\<lparr>cl_input := ins\<rparr>"
  have wf: "client_wf c1" and ext: "extends c c1" using assms(2) Cons by (auto simp: c1_def client_wf_def extends_def)
  have fin: ?thesis if "client_wf c' \<and> extends c1 c'"
    using that ext extends_input [OF Cons, of c'] by (auto simp: c1_def intro: extends_trans)
  show ?thesis
  proof (cases i)
    case (NetRead r)
    then have "light c1 c' \<or> quiet c1 c'" using assms(1) Cons handle_notification_quiet [of c1 E]
      by (cases r; simp add: main_turn_def c1_def Let_def split: json_rpc_message.splits option.splits prod.splits
          sum.splits stratum_error.splits) (metis snd_conv)+
    then show ?thesis using fin light_frame wf by (auto simp: light_def)
  next
    case (CommandIn cmd)
    show ?thesis
    proof (cases cmd)
      case (SubmitShareCmd p)
      obtain r c2 where s: "submit E reject_text p c1 = (r, c2)" by fastforce
      have "c2 = c'" using assms(1) Cons CommandIn SubmitShareCmd s
        by (auto simp: main_turn_def c1_def Let_def split: outcome.splits if_splits)
      with one_requestD [OF one_request_submit wf s] fin show ?thesis by blast
    next
      case (SuggestDifficulty d)
      obtain r c2 where s: "suggest_difficulty E d c1 = (r, c2)" by fastforce
      have "c2 = c'" using assms(1) Cons CommandIn SuggestDifficulty s
        by (auto simp: main_turn_def c1_def Let_def split: outcome.splits if_splits)
      with one_requestD [OF one_request_suggest wf s] fin show ?thesis by blast
    qed
  next
    case ShutdownRequested
    then have "light c1 c'" using assms(1) Cons emit_light [of E DisconnectedEvent c1 _ c']
      by (auto simp: main_turn_def c1_def)
    then show ?thesis using fin light_frame wf by blast
  qed (use assms Cons in \<open>simp add: main_turn_def\<close>)
qed

lemma main_loop_fuel:
  "client_wf c \<Longrightarrow> length (cl_input c) < n \<Longrightarrow> length (cl_input c) < m \<Longrightarrow>
    main_loop E reject_text n c = main_loop E reject_text m c"
proof (induction n arbitrary: c m)
  case (Suc n)
  then obtain m' where m: "m = Suc m'" by (cases m) auto
  show ?case
  proof (cases "main_turn E reject_text c")
    case (Pair r c')
    show ?thesis
    proof (cases r)
      case (Done go)
      from main_turn_takes_input [OF Pair [unfolded Done] Suc.prems(1)] Suc.prems
      have "main_loop E reject_text n c' = main_loop E reject_text m' c'" by (intro Suc.IH) (auto simp: m)
      then show ?thesis by (simp add: m Pair Done)
    qed (simp_all add: m Pair)
  qed
qed simp

section \<open>The handshake\<close>

lemma io_bind_cases:
  assumes "io_bind m f c = (r, c')"
  obtains x c1 where "m c = (Done x, c1)" "f x c1 = (r, c')"
  | e where "m c = (Failed e, c')" "r = Failed e"
  | "m c = (Waiting, c')" "r = Waiting"
  | "m c = (Panicked, c')" "r = Panicked"
  using assms by (auto simp: io_bind_def split: prod.splits outcome.splits)

lemma io_emit_facts:
  "io_emit E ev c = (r, c') \<Longrightarrow> light c c' \<and> (\<forall>x. r = Done x \<longrightarrow> cl_events c' = cl_events c @ [ev])"
  by (auto simp: io_emit_def split: prod.splits sum.splits dest: emit_light)
    (auto simp: emit_def split: if_splits)

lemma announce_facts:
  "announce_subscription E c = (r, c') \<Longrightarrow> light c c' \<and>
     (\<forall>x. r = Done x \<longrightarrow> (\<exists>en1 n. cl_events c' = cl_events c @ [Subscribed en1 n]))"
  by (auto simp: announce_subscription_def split: option.splits dest: io_emit_facts)

definition handshake_methods :: "string list" where
  "handshake_methods = [''mining.configure'', ''mining.subscribe'', ''mining.authorize'', ''mining.suggest_difficulty'']"

definition stage :: "nat \<Rightarrow> ('n, 'f) client \<Rightarrow> bool" where
  "stage k c \<longleftrightarrow> client_wf c \<and> written_methods c = take k handshake_methods"

lemma stage_request:
  assumes "one_request (handshake_methods ! k) op" "k < 4" "stage k c" "op c = (r, c')"
  shows "extends c c' \<and> (stage k c' \<and> r = Panicked \<or> stage (Suc k) c')"
proof -
  have "take (Suc k) handshake_methods = take k handshake_methods @ [handshake_methods ! k]"
    using assms(2) by (intro take_Suc_conv_app_nth) (simp add: handshake_methods_def)
  then show ?thesis using one_requestD [OF assms(1) _ assms(4)] assms(3) by (auto simp: stage_def)
qed

lemma stage_light: "stage k c \<Longrightarrow> light c c' \<Longrightarrow> stage k c' \<and> extends c c'"
  using light_frame by (auto simp: stage_def)

lemma extends_events: "extends c c' \<Longrightarrow> \<exists>evs. cl_events c' = cl_events c @ evs"
  by (simp add: extends_def)

lemma extends_suggest: "extends c c' \<Longrightarrow> cl_initial_suggest c' = cl_initial_suggest c"
  by (simp add: extends_def)

lemma handshake_method_nth:
  "one_request (handshake_methods ! 0) (configure_version_rolling E)"
  "one_request (handshake_methods ! 1) (subscribe E m)"
  "one_request (handshake_methods ! 2) (authorize E)"
  "one_request (handshake_methods ! 3) (suggest_difficulty E d)"
  by (simp_all add: handshake_methods_def one_request_configure one_request_subscribe one_request_authorize
      one_request_suggest eval_nat_numeral)

text \<open>The last two steps, from the authorization on.\<close>

lemma authorize_and_suggest:
  assumes "io_bind (authorize E) (\<lambda>_ c. case cl_initial_suggest c of None \<Rightarrow> (Done (), c) | Some d \<Rightarrow> suggest_difficulty E d c) c = (r, c')"
    and "stage 2 c"
  shows "extends c c' \<and> (\<exists>k. stage k c') \<and>
    (r = Done () \<longrightarrow> stage (if cl_initial_suggest c = None then 3 else 4) c')"
  using assms(1)
proof (cases rule: io_bind_cases)
  case (1 x c1)
  note A = stage_request [OF handshake_method_nth(3) _ assms(2) 1(1)]
  show ?thesis
  proof (cases "cl_initial_suggest c1")
    case None
    then show ?thesis using 1 A extends_suggest [of c c1] by auto
  next
    case (Some d)
    then have "suggest_difficulty E d c1 = (r, c')" "stage 3 c1" using 1 A by auto
    from stage_request [OF handshake_method_nth(4) _ this(2,1)] show ?thesis
      using A Some extends_suggest [of c c1] by (auto intro: extends_trans)
  qed
qed (use stage_request [OF handshake_method_nth(3) _ assms(2)] in \<open>fastforce+\<close>)

lemma handshake_facts:
  assumes "handshake E c = (r, c')" "stage 0 c"
  shows "(\<exists>k. stage k c') \<and>
    (r = Done () \<longrightarrow> stage (if cl_initial_suggest c = None then 3 else 4) c' \<and>
      (\<exists>e0 m e1 en1 n e2. cl_events c' = e0 @ VersionRollingConfigured m # e1 @ Subscribed en1 n # e2))"
  using assms(1) unfolding handshake_def
proof (cases rule: io_bind_cases)
  case (1 m c1)
  note C = stage_request [OF handshake_method_nth(1) _ assms(2) 1(1)]
  then have s1: "stage 1 c1" "extends c c1" by auto
  from 1(2) show ?thesis
  proof (cases rule: io_bind_cases)
    case (1 u c2)
    from io_emit_facts [OF 1(1)] stage_light [OF s1(1)] have s2: "stage 1 c2" "extends c1 c2"
      and e2: "cl_events c2 = cl_events c1 @ [VersionRollingConfigured m]" by auto
    from 1(2) show ?thesis
    proof (cases rule: io_bind_cases)
      case (1 u c3)
      note S = stage_request [OF handshake_method_nth(2) _ s2(1) 1(1)]
      then have s3: "stage 2 c3" "extends c2 c3" by (auto simp: eval_nat_numeral)
      from 1(2) show ?thesis
      proof (cases rule: io_bind_cases)
        case (1 u c4)
        from announce_facts [OF 1(1)] stage_light [OF s3(1)] obtain en1 n where s4: "stage 2 c4" "extends c3 c4"
          and e4: "cl_events c4 = cl_events c3 @ [Subscribed en1 n]" by auto
        note A = authorize_and_suggest [OF 1(2) s4(1)]
        have sug: "cl_initial_suggest c4 = cl_initial_suggest c"
          using s1(2) s2(2) s3(2) s4(2) by (simp add: extends_def)
        from extends_events [OF s3(2)] obtain ev3 where "cl_events c3 = cl_events c2 @ ev3" ..
        moreover from A extends_events obtain ev5 where "cl_events c' = cl_events c4 @ ev5" by blast
        ultimately have "cl_events c' = cl_events c1 @ VersionRollingConfigured m # ev3 @ Subscribed en1 n # ev5"
          using e2 e4 by simp
        with A sug show ?thesis by metis
      qed (use announce_facts stage_light [OF s3(1)] in blast)+
    qed (use stage_request [OF handshake_method_nth(2) _ s2(1)] in fastforce)+
  qed (use io_emit_facts stage_light [OF s1(1)] in blast)+
qed (use stage_request [OF handshake_method_nth(1) _ assms(2)] in fastforce)+

text \<open>
  While a request waits, a reconnect order of the pool is dropped like any notification that
  fails; in the main loop the same order ends the client.
\<close>

lemma reconnect_swallowed:
  "await_response E i (NetRead (ReadMsg (Request None ''client.reconnect'' params)) # ins) c = await_response E i ins c"
  by (simp add: handle_notification_def)

lemma reconnect_obeyed:
  "cl_input c = NetRead (ReadMsg (Request None ''client.reconnect'' params)) # ins \<Longrightarrow>
   main_turn E reject_text c = (Failed Disconnected, c\<lparr>cl_input := ins\<rparr>)"
  by (simp add: main_turn_def handle_notification_def)

section \<open>Properties\<close>

lemma client_new_wf: "client_wf (client_new hc sug ins)" "stage 0 (client_new hc sug ins)"
  by (simp_all add: client_new_def client_wf_def stage_def written_methods_def)

text \<open>A pool that declines version rolling, sends a difficulty early and accepts everything.\<close>

definition demo_net :: "(nat, nat) client_env" where
  "demo_net = \<lparr>cn_accepts = (\<lambda>_. True), cn_write = (\<lambda>_. None), cn_as_u64 = (\<lambda>n. Some (word_of_nat n)), cn_as_f64 = Some,
     cn_finite_positive = (\<lambda>n. 0 < n), cn_at_least_one = (\<lambda>n. 1 \<le> n), cn_integer_json = JNumber, cn_float_json = JNumber,
     cn_hex_decode = (\<lambda>s. Some (map (\<lambda>c. word_of_nat (of_char c)) s)), cn_hex_encode = map (\<lambda>b. char_of (unat b)),
     cn_username = ''u'', cn_password = ''p'', cn_user_agent = ''a''\<rparr>"

definition demo_inputs :: "(nat, nat) input list" where
  "demo_inputs =
    [NetRead (ReadMsg (Response 1 (Some (JObject [])) None)),
     NetRead (ReadMsg (Request None ''mining.set_difficulty'' (JArray [JNumber 5]))),
     NetRead (ReadMsg (Response 2 (Some (JArray [JArray [], JString ''ab'', JNumber 4])) None)),
     NetRead (ReadMsg (Response 3 (Some (JBool True)) None)),
     ShutdownRequested]"

definition demo_client :: "(nat, nat) client" where
  "demo_client = client_new True None demo_inputs"


lemma demo_request: "fst (send_request demo_net ''m'' JNull demo_client) = Done (Response 1 (Some (JObject [])) None)"
  by code_simp

lemma demo_handshake: "fst (handshake demo_net demo_client) = Done ()" "length (cl_input (snd (handshake demo_net demo_client))) = 1"
  by code_simp+


text \<open>
  C14: A request gets its own response. The request carries an id never used before and is the
  only message written; the response returned is the first in the input with that id; exactly
  the notifications that arrived before it are handled, in order, and responses to other ids
  and requests of the server are dropped; the inputs after it are left.
\<close>

theorem request_response:
  assumes "client_wf c" "send_request E method params c = (Done m, c')"
  shows "\<exists>pre res err c1. m = Response (cl_next_id c) res err \<and>
    cl_written c' = cl_written c @ [(Request (Some (cl_next_id c)) method params, True)] \<and>
    Some (cl_next_id c) \<notin> set (map (rpc_id \<circ> fst) (cl_written c)) \<and>
    cl_input c = pre @ NetRead (ReadMsg m) # cl_input c' \<and>
    (\<forall>res err. NetRead (ReadMsg (Response (cl_next_id c) res err)) \<notin> set pre) \<and>
    c1 = c\<lparr>cl_next_id := cl_next_id c + 1, cl_written := cl_written c'\<rparr> \<and>
    c' = (notify_all E (notifications pre) c1)\<lparr>cl_input := cl_input c'\<rparr>"
proof -
  from send_request_cases [OF assms(2,1)] obtain c1 where
    c1: "c1 = c\<lparr>cl_next_id := cl_next_id c + 1, cl_written := cl_written c @ [(Request (Some (cl_next_id c)) method params, True)]\<rparr>"
    and a: "await_response E (cl_next_id c) (cl_input c) c1 = (Done m, c')"
    by (auto split: if_splits)
  from await_done [OF a] obtain pre res err where d: "m = Response (cl_next_id c) res err"
    "cl_input c = pre @ NetRead (ReadMsg m) # cl_input c'" "c' = (notify_all E (notifications pre) c1)\<lparr>cl_input := cl_input c'\<rparr>"
    "\<forall>res err. NetRead (ReadMsg (Response (cl_next_id c) res err)) \<notin> set pre" by blast
  have w: "cl_written c' = cl_written c1" 
    by (subst d(3)) (use notify_all_quiet [of c1 E "notifications pre"] in \<open>simp add: quiet_def\<close>)
  have "Some (cl_next_id c) \<notin> set (map (rpc_id \<circ> fst) (cl_written c))"
  proof
    assume "Some (cl_next_id c) \<in> set (map (rpc_id \<circ> fst) (cl_written c))"
    then have "Some (cl_next_id c) \<in> set (map (\<lambda>k. Some (word_of_nat (Suc k))) [0..<length (cl_written c)])"
      using assms(1) unfolding client_wf_def by metis
    then obtain k where k: "cl_next_id c = word_of_nat (Suc k)" "k < length (cl_written c)" by auto
    have n: "unat (cl_next_id c) = Suc (length (cl_written c))" using assms(1) by (simp add: client_wf_def)
    then have "Suc k < 2 ^ 64" using k(2) unsigned_less [of "cl_next_id c", where ?'a = nat] by simp
    then have "unat (cl_next_id c) = Suc k" unfolding k(1) by (subst unat_word_of_nat) simp_all
    with n k(2) show False by simp
  qed
  with d w c1 show ?thesis by simp
qed

theorem request_response_witness:
  "\<exists>c'. send_request demo_net ''m'' JNull demo_client = (Done (Response 1 (Some (JObject [])) None), c') \<and>
    cl_written c' = [(Request (Some 1) ''m'' JNull, True)] \<and> cl_input c' = tl demo_inputs"
proof -
  obtain c' where s: "send_request demo_net ''m'' JNull demo_client = (Done (Response 1 (Some (JObject [])) None), c')"
    using demo_request by (metis prod.collapse)
  have w: "client_wf demo_client" by (simp add: demo_client_def client_new_wf)
  have "cl_next_id demo_client = 1" "cl_written demo_client = []" "cl_input demo_client = demo_inputs"
    by (simp_all add: demo_client_def client_new_def)
  with request_response [OF w s] s show ?thesis
    by (auto simp: demo_inputs_def Cons_eq_append_conv)
qed

text \<open>
  The handshake keeps its order. From a fresh client the messages written are an initial
  part of configure, subscribe, authorize and suggest, numbered from one; only after the pool
  has authorized the worker does the client suggest a difficulty or enter the main loop, and
  by then the outcome of the version rolling and, after it, the subscription have been
  announced.
\<close>

theorem handshake_order:
  assumes "handshake E (client_new hc sug ins) = (r, c)"
  shows "(\<exists>k. written_methods c = take k handshake_methods) \<and>
    map (rpc_id \<circ> fst) (cl_written c) = map (\<lambda>k. Some (word_of_nat (Suc k))) [0..<length (cl_written c)] \<and>
    (r = Done () \<longrightarrow> written_methods c = take (if sug = None then 3 else 4) handshake_methods \<and>
      (\<exists>e0 m e1 en1 n e2. cl_events c = e0 @ VersionRollingConfigured m # e1 @ Subscribed en1 n # e2))"
  using handshake_facts [OF assms client_new_wf(2)]
  by (auto simp: stage_def client_wf_def client_new_def)

theorem handshake_order_witness:
  "\<exists>c. handshake demo_net (client_new True None demo_inputs) = (Done (), c) \<and>
    written_methods c = [''mining.configure'', ''mining.subscribe'', ''mining.authorize'']"
proof -
  obtain c where h: "handshake demo_net (client_new True None demo_inputs) = (Done (), c)"
    using demo_handshake(1) unfolding demo_client_def by (metis prod.collapse)
  from handshake_order [OF this] h show ?thesis by (simp add: handshake_methods_def)
qed



text \<open>
  The client's main loop never needs more turns than inputs. Every turn that goes on takes
  an input, also when it submits a share or suggests a difficulty, so running with any number
  of turns above the number of inputs gives the same result and the same state, which is
  the one \<open>run_with_transport\<close> computes after the handshake.
\<close>

theorem main_loop_terminates:
  assumes "handshake E (client_new hc sug ins) = (Done u, c)" "length (cl_input c) < n"
  shows "run_with_transport E reject_text (client_new hc sug ins) = main_loop E reject_text n c"
proof -
  have "stage (if sug = None then 3 else 4) c"
    using handshake_facts [OF assms(1) client_new_wf(2)] by (simp add: client_new_def)
  then have "main_loop E reject_text (Suc (length (cl_input c))) c = main_loop E reject_text n c"
    using assms(2) by (intro main_loop_fuel) (simp_all add: stage_def)
  then show ?thesis by (simp add: run_with_transport_def io_bind_def assms(1))
qed

theorem main_loop_terminates_witness:
  "run_with_transport demo_net (\<lambda>_. ''x'') (client_new True None demo_inputs)
    = main_loop demo_net (\<lambda>_. ''x'') 9 (snd (handshake demo_net (client_new True None demo_inputs)))"
proof -
  have h: "handshake demo_net (client_new True None demo_inputs) = (Done (), snd (handshake demo_net (client_new True None demo_inputs)))"
    using demo_handshake(1) unfolding demo_client_def by (metis prod.collapse)
  show ?thesis using demo_handshake(2) unfolding demo_client_def by (intro main_loop_terminates [OF h]) simp
qed

end
