(* ===== verification/Text_Format.thy ===== *)
theory Text_Format
  imports Prelude
begin

text \<open>
  The text routines of the Rust standard library that the control files of a board go through:
  decimal printing and parsing of integers (\<open>to_string\<close>, \<open>parse\<close>), \<open>split\<close>, \<open>split_once\<close>,
  \<open>join\<close> and \<open>trim\<close>. A string is the list of its characters; \<open>trim\<close> removes the ASCII white
  space, which is all these files hold.
\<close>

section \<open>Decimal numbers\<close>

definition digit_char :: "nat \<Rightarrow> char" where
  "digit_char d = char_of (48 + d)"

definition digit_value :: "char \<Rightarrow> nat option" where
  "digit_value c = (let n = of_char c :: nat in if 48 \<le> n \<and> n \<le> 57 then Some (n - 48) else None)"

fun show_nat :: "nat \<Rightarrow> string" where
  "show_nat n = (if n < 10 then [digit_char n] else show_nat (n div 10) @ [digit_char (n mod 10)])"

declare show_nat.simps [simp del]

definition show_int :: "int \<Rightarrow> string" where
  "show_int i = (if i < 0 then CHR ''-'' # show_nat (nat (- i)) else show_nat (nat i))"

fun parse_digits :: "nat \<Rightarrow> string \<Rightarrow> nat option" where
  "parse_digits acc [] = Some acc"
| "parse_digits acc (c # cs) =
     (case digit_value c of None \<Rightarrow> None | Some d \<Rightarrow> parse_digits (10 * acc + d) cs)"

text \<open>A number needs a digit; a value above the type's maximum is an error.\<close>

definition parse_magnitude :: "nat \<Rightarrow> string \<Rightarrow> nat option" where
  "parse_magnitude m s =
    (if s = [] then None
     else case parse_digits 0 s of None \<Rightarrow> None | Some n \<Rightarrow> if n \<le> m then Some n else None)"

definition parse_unsigned :: "nat \<Rightarrow> string \<Rightarrow> nat option" where
  "parse_unsigned m s =
    (case s of CHR ''+'' # r \<Rightarrow> parse_magnitude m r | _ \<Rightarrow> parse_magnitude m s)"

definition parse_u32 :: "string \<Rightarrow> u32 option" where
  "parse_u32 s = map_option word_of_nat (parse_unsigned (2 ^ 32 - 1) s)"

definition parse_i32 :: "string \<Rightarrow> int option" where
  "parse_i32 s =
    (case s of
       CHR ''-'' # r \<Rightarrow> map_option (\<lambda>n. - int n) (parse_magnitude (2 ^ 31) r)
     | _ \<Rightarrow> map_option int (parse_unsigned (2 ^ 31 - 1) s))"

section \<open>Splitting and joining\<close>

fun split_on :: "char \<Rightarrow> string \<Rightarrow> string list" where
  "split_on c [] = [[]]"
| "split_on c (x # xs) =
     (if x = c then [] # split_on c xs
      else case split_on c xs of [] \<Rightarrow> [[x]] | y # ys \<Rightarrow> (x # y) # ys)"

definition split_once :: "char \<Rightarrow> string \<Rightarrow> (string \<times> string) option" where
  "split_once c s =
    (if c \<in> set s then Some (takeWhile (\<lambda>x. x \<noteq> c) s, tl (dropWhile (\<lambda>x. x \<noteq> c) s)) else None)"

fun join_with :: "char \<Rightarrow> string list \<Rightarrow> string" where
  "join_with c [] = []"
| "join_with c [s] = s"
| "join_with c (s # ss) = s @ c # join_with c ss"

definition is_blank :: "char \<Rightarrow> bool" where
  "is_blank c \<longleftrightarrow> (let n = of_char c :: nat in n = 32 \<or> (9 \<le> n \<and> n \<le> 13))"

definition trim :: "string \<Rightarrow> string" where
  "trim s = rev (dropWhile is_blank (rev (dropWhile is_blank s)))"

definition strip_prefix :: "string \<Rightarrow> string \<Rightarrow> string option" where
  "strip_prefix p s = (if take (length p) s = p then Some (drop (length p) s) else None)"

section \<open>Lemmas\<close>

lemma digit_value_char [simp]: "d < 10 \<Longrightarrow> digit_value (digit_char d) = Some d"
  by (simp add: digit_value_def digit_char_def Let_def)

lemma show_nat_nonempty [simp]: "show_nat n \<noteq> []"
  by (subst show_nat.simps) simp

lemma parse_digits_append:
  "parse_digits acc (xs @ ys) = Option.bind (parse_digits acc xs) (\<lambda>a. parse_digits a ys)"
  by (induction xs arbitrary: acc) (auto split: option.splits)

lemma parse_digits_show: "parse_digits acc (show_nat n) = Some (acc * 10 ^ length (show_nat n) + n)"
proof (induction n arbitrary: acc rule: less_induct)
  case (less n)
  show ?case
  proof (cases "n < 10")
    case True
    then show ?thesis by (simp add: show_nat.simps [of n])
  next
    case False
    then have "parse_digits acc (show_nat (n div 10)) =
        Some (acc * 10 ^ length (show_nat (n div 10)) + n div 10)"
      by (intro less) simp
    then show ?thesis using False
      by (subst (1 2) show_nat.simps) (simp add: parse_digits_append algebra_simps)
  qed
qed

lemma parse_magnitude_show: "n \<le> m \<Longrightarrow> parse_magnitude m (show_nat n) = Some n"
  by (simp add: parse_magnitude_def parse_digits_show)

lemma show_nat_digits: "c \<in> set (show_nat n) \<Longrightarrow> \<exists>d<10. c = digit_char d"
proof (induction n rule: less_induct)
  case (less n)
  show ?case
  proof (cases "n < 10")
    case True
    then show ?thesis using less.prems by (auto simp: show_nat.simps [of n])
  next
    case False
    then have "c \<in> set (show_nat (n div 10)) \<or> c = digit_char (n mod 10)"
      using less.prems by (subst (asm) show_nat.simps) auto
    moreover have "n div 10 < n" using False by simp
    moreover have "n mod 10 < 10" by simp
    ultimately show ?thesis using less.IH by blast
  qed
qed

lemma digit_char_code: "d < 10 \<Longrightarrow> (of_char (digit_char d) :: nat) = 48 + d"
  by (simp add: digit_char_def)

lemma show_nat_code: "c \<in> set (show_nat n) \<Longrightarrow> 48 \<le> (of_char c :: nat) \<and> (of_char c :: nat) \<le> 57"
  using show_nat_digits [of c n] by (auto simp: digit_char_code)

lemma show_nat_free:
  assumes "(of_char c :: nat) < 48 \<or> 57 < (of_char c :: nat)"
  shows "c \<notin> set (show_nat n)"
proof
  assume "c \<in> set (show_nat n)"
  then show False using show_nat_code [of c n] assms by linarith
qed

lemma show_int_free:
  assumes "(of_char c :: nat) < 48 \<or> 57 < (of_char c :: nat)" "c \<noteq> CHR ''-''"
  shows "c \<notin> set (show_int i)"
  using assms show_nat_free [of c] by (simp add: show_int_def)

lemma show_nat_head:
  assumes "(of_char c :: nat) < 48 \<or> 57 < (of_char c :: nat)"
  shows "show_nat n \<noteq> c # r"
  using show_nat_free [OF assms, of n] by auto

lemma parse_unsigned_show: "n \<le> m \<Longrightarrow> parse_unsigned m (show_nat n) = Some n"
proof -
  assume m: "n \<le> m"
  obtain x xs where s: "show_nat n = x # xs" by (meson list.exhaust show_nat_nonempty)
  have "x \<noteq> CHR ''+''" using show_nat_head [of "CHR ''+''" n xs] s by auto
  then have "parse_unsigned m (x # xs) = parse_magnitude m (x # xs)"
    by (simp add: parse_unsigned_def split: char.splits bool.splits)
  then show ?thesis using parse_magnitude_show [OF m] s by simp
qed

lemma parse_u32_show [simp]: "parse_u32 (show_nat (unat w)) = Some w"
proof -
  have "unat w \<le> 2 ^ 32 - 1" using unsigned_less [of w, where ?'a = nat] by simp
  then show ?thesis by (simp only: parse_u32_def parse_unsigned_show) simp
qed

lemma parse_i32_show:
  assumes "- (2 ^ 31) \<le> i" "i < 2 ^ 31"
  shows "parse_i32 (show_int i) = Some i"
proof (cases "i < 0")
  case True
  have "nat (- i) \<le> 2 ^ 31" using assms True by simp
  then show ?thesis using True
    by (simp only: show_int_def if_True parse_i32_def list.simps char.simps parse_magnitude_show) simp
next
  case False
  obtain x xs where s: "show_nat (nat i) = x # xs" by (meson list.exhaust show_nat_nonempty)
  have "x \<noteq> CHR ''-''" using show_nat_head [of "CHR ''-''" "nat i" xs] s by auto
  then have "parse_i32 (x # xs) = map_option int (parse_unsigned (2 ^ 31 - 1) (x # xs))"
    by (simp add: parse_i32_def split: char.splits bool.splits)
  moreover have "nat i \<le> 2 ^ 31 - 1" using assms False by simp
  ultimately show ?thesis using False s parse_unsigned_show [of "nat i" "2 ^ 31 - 1"]
    by (simp add: show_int_def)
qed

lemma split_on_free: "c \<notin> set s \<Longrightarrow> split_on c s = [s]"
  by (induction s) auto

lemma split_on_append: "c \<notin> set s \<Longrightarrow> split_on c (s @ c # r) = s # split_on c r"
  by (induction s) auto

lemma split_on_join:
  assumes "ss \<noteq> []" "c \<notin> \<Union> (set ` set ss)"
  shows "split_on c (join_with c ss) = ss"
  using assms by (induction c ss rule: join_with.induct) (auto simp: split_on_free split_on_append)

lemma split_once_append: "c \<notin> set s \<Longrightarrow> split_once c (s @ c # r) = Some (s, r)"
proof -
  assume c: "c \<notin> set s"
  then have "takeWhile (\<lambda>x. x \<noteq> c) (s @ c # r) = s" "dropWhile (\<lambda>x. x \<noteq> c) (s @ c # r) = c # r"
    by (induction s) auto
  then show ?thesis by (simp add: split_once_def)
qed

lemma set_join_with: "set (join_with c ss) \<subseteq> insert c (\<Union> (set ` set ss))"
  by (induction c ss rule: join_with.induct) auto

lemma dropWhile_no_blank: "\<forall>c \<in> set s. \<not> is_blank c \<Longrightarrow> dropWhile is_blank s = s"
  by (cases s) auto

lemma trim_id: "\<forall>c \<in> set s. \<not> is_blank c \<Longrightarrow> trim s = s"
  by (simp add: trim_def dropWhile_no_blank)

lemma digit_not_blank: "48 \<le> (of_char c :: nat) \<Longrightarrow> \<not> is_blank c"
  by (simp add: is_blank_def Let_def)

lemma strip_prefix_append [simp]: "strip_prefix p (p @ s) = Some s"
  by (simp add: strip_prefix_def)

end
