(* ===== verification/Stratum_Source.thy ===== *)
theory Stratum_Source
  imports Text_Format Stratum_Messages Scheduler
begin

text \<open>
  The Stratum v1 job source, from \<open>mujina-miner/src/job_source/stratum_v1.rs\<close>: protocol
  state, conversion of notifications into job templates and of shares into submissions, the
  suggestion of difficulties with its deadband and cooldown, the connection loop and the
  exponential backoff. The client task is seen through the events it sends and the value it
  returns; doubles, the clock and the jitter are arguments.
\<close>

section \<open>Backoff\<close>

text \<open>Durations in nanoseconds; \<open>jitter\<close> gives the hash of a step as a factor on the nominal delay.\<close>

record backoff =
  bo_current :: nat
  bo_initial :: nat
  bo_max :: nat
  bo_jitter_step :: u64

definition backoff_new :: "nat \<Rightarrow> nat \<Rightarrow> backoff" where
  "backoff_new initial mx = \<lparr>bo_current = initial, bo_initial = initial, bo_max = mx, bo_jitter_step = 0\<rparr>"

definition next_delay :: "(u64 \<Rightarrow> nat \<Rightarrow> nat) \<Rightarrow> backoff \<Rightarrow> nat \<times> backoff" where
  "next_delay jitter b =
    (jitter (bo_jitter_step b) (bo_current b),
     b\<lparr>bo_current := min (bo_current b * 2) (bo_max b), bo_jitter_step := bo_jitter_step b + 1\<rparr>)"

definition backoff_reset :: "backoff \<Rightarrow> backoff" where
  "backoff_reset b = b\<lparr>bo_current := bo_initial b\<rparr>"

section \<open>State\<close>

record source_protocol =
  so_extranonce1 :: "u8 list"
  so_extranonce2_size :: nat
  so_share_difficulty :: "difficulty option"
  so_version_mask :: "u32 option"

text \<open>The pool counters are process-wide atomics; they wrap.\<close>

record 'f stratum_source =
  ss_state :: "source_protocol option"
  ss_first_share_logged :: bool
  ss_expected_hashrate :: hash_rate
  ss_last_suggested :: "'f option"
  ss_cooldown_until :: "nat option"
  ss_shares_accepted :: u64
  ss_shares_rejected :: u64

definition source_new :: "'f stratum_source" where
  "source_new = \<lparr>ss_state = None, ss_first_share_logged = False, ss_expected_hashrate = 0,
     ss_last_suggested = None, ss_cooldown_until = None, ss_shares_accepted = 0, ss_shares_rejected = 0\<rparr>"

record 'f source_env = "'f sched_env" +
  se_target_max :: u256
  se_le :: "'f \<Rightarrow> 'f \<Rightarrow> bool"
  se_lit :: "rat \<Rightarrow> 'f"
  se_username :: string

definition suggested_share_interval :: nat where
  "suggested_share_interval = of_secs 3"

definition suggest_min_interval :: nat where
  "suggest_min_interval = of_secs 5"

definition stable_connection_threshold :: nat where
  "stable_connection_threshold = of_secs 60"

text \<open>What the source sends: to the scheduler, to the client, and the delay it waits.\<close>

datatype 'f source_effect =
  EmitSource source_event
  | ToClient "'f client_command"
  | Wait nat

definition source_name :: "string \<Rightarrow> string" where
  "source_name url =
    (case strip_prefix ''stratum+tcp://'' url of Some s \<Rightarrow> s
     | None \<Rightarrow> (case strip_prefix ''stratum://'' url of Some s \<Rightarrow> s
     | None \<Rightarrow> (case strip_prefix ''tcp://'' url of Some s \<Rightarrow> s | None \<Rightarrow> url)))"

section \<open>Jobs\<close>

datatype source_error =
  NotSubscribed | RangeError extranonce2_error | VersionError version_template_error | SchedulerGone

text \<open>\<open>extranonce2_size as u8\<close> truncates; the outer option is the panic of the difficulty.\<close>

definition job_to_template ::
  "('f, 'm) source_env_scheme \<Rightarrow> 'f stratum_source \<Rightarrow> job_notification \<Rightarrow> (source_error + job_template) option" where
  "job_to_template E s job =
    (case ss_state s of
       None \<Rightarrow> Some (Inl NotSubscribed)
     | Some st \<Rightarrow>
         (case range_new (word_of_nat (so_extranonce2_size st)) of
            Inl e \<Rightarrow> Some (Inl (RangeError e))
          | Inr rng \<Rightarrow>
              (let msk = (case so_version_mask st of Some m \<Rightarrow> gp_from_mask_bytes (to_be 4 m) | None \<Rightarrow> gp_none)
               in case version_template_new (jn_version job) msk of
                    Inl e \<Rightarrow> Some (Inl (VersionError e))
                  | Inr vt \<Rightarrow>
                      map_option (\<lambda>d. Inr
                        \<lparr>job_id = jn_job_id job, job_prev_blockhash = jn_prev_hash job, job_version = vt,
                         job_bits = jn_nbits job, job_share_target = to_target d, job_time = jn_ntime job,
                         job_merkle_root = ComputedRoot
                           \<lparr>mt_coinbase1 = jn_coinbase1 job, mt_extranonce1 = so_extranonce1 st,
                            mt_extranonce2_range = rng, mt_coinbase2 = jn_coinbase2 job,
                            mt_merkle_branches = jn_merkle_branches job\<rparr>\<rparr>)
                      (case so_share_difficulty st of Some d \<Rightarrow> Some d | None \<Rightarrow> difficulty_from_u64 (se_target_max E) 1))))"

section \<open>Events of the client\<close>

text \<open>
  \<open>accepts\<close> tells whether the scheduler still takes events. An error is logged by the caller
  and has no other effect.
\<close>

definition handle_client_event ::
  "('f, 'm) source_env_scheme \<Rightarrow> bool \<Rightarrow> 'f client_event \<Rightarrow> 'f stratum_source
   \<Rightarrow> ((source_error + unit) \<times> 'f stratum_source \<times> 'f source_effect list) option" where
  "handle_client_event E accepts ev s =
    (case ev of
       VersionRollingConfigured authorized_mask \<Rightarrow>
         Some (Inr (), s\<lparr>ss_state := Some (case ss_state s of
             Some st \<Rightarrow> st\<lparr>so_version_mask := authorized_mask\<rparr>
           | None \<Rightarrow> \<lparr>so_extranonce1 = [], so_extranonce2_size = 0, so_share_difficulty = None,
                      so_version_mask = authorized_mask\<rparr>)\<rparr>, [])
     | Subscribed en1 size2 \<Rightarrow>
         Some (Inr (), s\<lparr>ss_state := Some (case ss_state s of
             Some st \<Rightarrow> st\<lparr>so_extranonce1 := en1, so_extranonce2_size := size2\<rparr>
           | None \<Rightarrow> \<lparr>so_extranonce1 = en1, so_extranonce2_size = size2, so_share_difficulty = None,
                      so_version_mask = None\<rparr>)\<rparr>, [])
     | NewJob job \<Rightarrow>
         map_option (\<lambda>r. case r of
             Inl e \<Rightarrow> (Inl e, s, [])
           | Inr template \<Rightarrow>
               if accepts then (Inr (), s, [EmitSource ((if jn_clean_jobs job then ReplaceJob else UpdateJob) template)])
               else (Inl SchedulerGone, s, []))
           (job_to_template E s job)
     | DifficultyChanged diff \<Rightarrow>
         map_option (\<lambda>d. (Inr (), s\<lparr>ss_state := map_option (\<lambda>st. st\<lparr>so_share_difficulty := Some d\<rparr>) (ss_state s)\<rparr>, []))
           (difficulty_from_f64 E (se_target_max E) diff)
     | VersionMaskSet m \<Rightarrow>
         Some (Inr (), s\<lparr>ss_state := map_option (\<lambda>st. st\<lparr>so_version_mask := Some m\<rparr>) (ss_state s)\<rparr>, [])
     | ShareAccepted jid nonce \<Rightarrow>
         Some (Inr (), s\<lparr>ss_shares_accepted := ss_shares_accepted s + 1, ss_first_share_logged := True\<rparr>, [])
     | ShareRejected jid reason \<Rightarrow>
         Some (Inr (), s\<lparr>ss_shares_rejected := ss_shares_rejected s + 1\<rparr>, [])
     | DisconnectedEvent \<Rightarrow> Some (Inr (), s, [])
     | ErrorEvent err \<Rightarrow> Some (Inr (), s, []))"

section \<open>Shares\<close>

definition swap_bytes :: "u32 \<Rightarrow> u32" where
  "swap_bytes w = from_be (to_le 4 w)"

definition share_to_submit_params ::
  "('f, 'm) source_env_scheme \<Rightarrow> 'f stratum_source \<Rightarrow> share \<Rightarrow> source_error + submit_params" where
  "share_to_submit_params E s sh =
    (case ss_state s of
       None \<Rightarrow> Inl NotSubscribed
     | Some st \<Rightarrow>
         Inr \<lparr>sp_username = se_username E, sp_job_id = share_job_id sh,
              sp_extranonce2 = (case share_extranonce2 sh of
                  Some e \<Rightarrow> en2_bytes e | None \<Rightarrow> replicate (so_extranonce2_size st) 0),
              sp_ntime = share_time sh, sp_nonce = swap_bytes (share_nonce sh),
              sp_version_bits = map_option (\<lambda>m. share_version sh AND m) (so_version_mask st)\<rparr>)"

section \<open>Suggested difficulty\<close>

text \<open>The outer option is the panic of the division.\<close>

definition compute_suggested_difficulty :: "('f, 'm) source_env_scheme \<Rightarrow> hash_rate \<Rightarrow> 'f option option" where
  "compute_suggested_difficulty E rate =
    (if rate = 0 then Some None
     else map_option (\<lambda>target. Some (f64_difficulty E target)) (rate_to_target E suggested_share_interval rate))"

definition is_material_change :: "('f, 'm) source_env_scheme \<Rightarrow> 'f \<Rightarrow> 'f option \<Rightarrow> bool" where
  "is_material_change E new_diff last_suggested =
    (case last_suggested of
       None \<Rightarrow> True
     | Some lst \<Rightarrow> se_le E new_diff (f64_div E lst (se_lit E (5 / 4))) \<or> se_le E (f64_mul E lst (se_lit E (3 / 2))) new_diff)"

definition in_cooldown :: "nat \<Rightarrow> 'f stratum_source \<Rightarrow> bool" where
  "in_cooldown now s = (case ss_cooldown_until s of None \<Rightarrow> False | Some until \<Rightarrow> now < until)"

definition send_suggest :: "nat \<Rightarrow> 'f \<Rightarrow> 'f stratum_source \<Rightarrow> 'f stratum_source \<times> 'f source_effect list" where
  "send_suggest now new_diff s =
    (s\<lparr>ss_last_suggested := Some new_diff, ss_cooldown_until := Some (now + suggest_min_interval)\<rparr>,
     [ToClient (SuggestDifficulty new_diff)])"

definition maybe_suggest_difficulty ::
  "('f, 'm) source_env_scheme \<Rightarrow> nat \<Rightarrow> 'f stratum_source \<Rightarrow> ('f stratum_source \<times> 'f source_effect list) option" where
  "maybe_suggest_difficulty E now s =
    map_option (\<lambda>d. case d of
        None \<Rightarrow> (s, [])
      | Some new_diff \<Rightarrow>
          if \<not> is_material_change E new_diff (ss_last_suggested s) then (s, [])
          else if in_cooldown now s then (s, [])
          else send_suggest now new_diff s)
      (compute_suggested_difficulty E (ss_expected_hashrate s))"

definition flush_suggest ::
  "('f, 'm) source_env_scheme \<Rightarrow> nat \<Rightarrow> 'f stratum_source \<Rightarrow> ('f stratum_source \<times> 'f source_effect list) option" where
  "flush_suggest E now s =
    map_option (\<lambda>d.
        case (case d of Some diff \<Rightarrow> if is_material_change E diff (ss_last_suggested s) then Some diff else None | None \<Rightarrow> None) of
          Some diff \<Rightarrow> send_suggest now diff s
        | None \<Rightarrow> (s\<lparr>ss_cooldown_until := None\<rparr>, []))
      (compute_suggested_difficulty E (ss_expected_hashrate s))"

section \<open>A connection\<close>

datatype 'n connect_outcome = OutShutdown | OutDisconnected | OutFatal "'n stratum_error option"

text \<open>
  What a connected source waits for; the cooldown timer can fire only at or after its instant.
  \<open>ClientGone\<close> is the end of the client task with its result, \<open>None\<close> a panic.
\<close>

datatype ('n, 'f) source_input =
  ClientEvent "'f client_event"
  | ClientGone "('n stratum_error + unit) option"
  | SchedulerCommand source_command
  | CooldownExpired
  | ShutdownCancelled

definition outcome_of_client :: "('n stratum_error + unit) option \<Rightarrow> 'n connect_outcome" where
  "outcome_of_client r =
    (case r of
       Some (Inr _) \<Rightarrow> OutShutdown
     | Some (Inl e) \<Rightarrow> if is_fatal e then OutFatal (Some e) else OutDisconnected
     | None \<Rightarrow> OutFatal None)"

text \<open>The start of \<open>connect_and_run\<close>: the difficulty the client suggests in its handshake.\<close>

definition connection_start ::
  "('f, 'm) source_env_scheme \<Rightarrow> 'f stratum_source \<Rightarrow> ('f stratum_source \<times> 'f option) option" where
  "connection_start E s =
    map_option (\<lambda>d. (s\<lparr>ss_last_suggested := d, ss_cooldown_until := None\<rparr>, d))
      (compute_suggested_difficulty E (ss_expected_hashrate s))"

text \<open>One turn of the loop of \<open>connect_and_run\<close>; an outcome ends the connection.\<close>

definition source_turn ::
  "('f, 'm) source_env_scheme \<Rightarrow> bool \<Rightarrow> nat \<Rightarrow> ('n, 'f) source_input \<Rightarrow> 'f stratum_source
   \<Rightarrow> ('n connect_outcome option \<times> 'f stratum_source \<times> 'f source_effect list) option" where
  "source_turn E accepts now inp s =
    (case inp of
       ClientEvent ev \<Rightarrow> map_option (\<lambda>(_, s', effs). (None, s', effs)) (handle_client_event E accepts ev s)
     | ClientGone r \<Rightarrow> Some (Some (outcome_of_client r), s, [])
     | SchedulerCommand (SubmitShare sh) \<Rightarrow>
         Some (None, s, case share_to_submit_params E s sh of Inl _ \<Rightarrow> [] | Inr p \<Rightarrow> [ToClient (SubmitShareCmd p)])
     | SchedulerCommand (UpdateHashRate rate) \<Rightarrow>
         map_option (Pair None) (maybe_suggest_difficulty E now (s\<lparr>ss_expected_hashrate := rate\<rparr>))
     | CooldownExpired \<Rightarrow>
         (if ss_cooldown_until s = None then Some (None, s, []) else map_option (Pair None) (flush_suggest E now s))
     | ShutdownCancelled \<Rightarrow> Some (Some OutShutdown, s, []))"

section \<open>The connection loop\<close>

text \<open>
  Phase one waits for a positive hash rate: \<open>None\<close> while the commands have none, else the rest
  of the commands.
\<close>

fun wait_for_hashrate :: "source_command list \<Rightarrow> 'f stratum_source \<Rightarrow> 'f stratum_source \<times> source_command list option" where
  "wait_for_hashrate [] s = (s, None)"
| "wait_for_hashrate (UpdateHashRate rate # cs) s =
     (let s' = s\<lparr>ss_expected_hashrate := rate\<rparr>
      in if rate \<noteq> 0 then (s', Some cs) else wait_for_hashrate cs s')"
| "wait_for_hashrate (SubmitShare _ # cs) s = wait_for_hashrate cs s"

text \<open>Waiting for the backoff drains the commands.\<close>

definition drain_command :: "source_command \<Rightarrow> 'f stratum_source \<Rightarrow> 'f stratum_source" where
  "drain_command c s =
    (case c of UpdateHashRate rate \<Rightarrow> s\<lparr>ss_expected_hashrate := rate\<rparr> | SubmitShare _ \<Rightarrow> s)"

definition connection_reset :: "'f stratum_source \<Rightarrow> 'f stratum_source" where
  "connection_reset s = s\<lparr>ss_state := None, ss_first_share_logged := False\<rparr>"

text \<open>
  What the loop does with the outcome of a connection that lasted \<open>elapsed\<close>: \<open>None\<close> if it
  returns, else the state for the next attempt.
\<close>

definition after_connection ::
  "(u64 \<Rightarrow> nat \<Rightarrow> nat) \<Rightarrow> bool \<Rightarrow> nat \<Rightarrow> 'n connect_outcome \<Rightarrow> backoff \<Rightarrow> 'f stratum_source
   \<Rightarrow> (backoff \<times> 'f stratum_source) option \<times> 'f source_effect list" where
  "after_connection jitter accepts elapsed out b s =
    (case out of
       OutShutdown \<Rightarrow> (None, [])
     | OutFatal _ \<Rightarrow> (None, [])
     | OutDisconnected \<Rightarrow>
         (let b1 = (if stable_connection_threshold \<le> elapsed then backoff_reset b else b);
              (delay, b2) = next_delay jitter b1
          in (Some (b2, connection_reset s),
              (if accepts then [EmitSource ClearJobs] else []) @ [Wait delay])))"

end
