(* ===== verification/Source_Properties.thy ===== *)
theory Source_Properties
  imports Stratum_Source
begin

text \<open>
  What the Stratum job source guarantees: which block header the pool rebuilds from a
  submitted share, which difficulty is in force after a handshake, how far apart suggestions
  are, and how the reconnection delays grow.
\<close>

section \<open>Bytes and versions\<close>

lemma to_le_swap_bytes: "to_le 4 (swap_bytes w) = to_be 4 w"
  by (simp add: swap_bytes_def from_be_def to_be_def to_le_from_le)

lemma swap_bytes_twice: "swap_bytes (swap_bytes w) = w"
  using from_be_to_be [of 4 w] by (simp add: swap_bytes_def [of "swap_bytes w"] to_le_swap_bytes)

lemma gp_u16_of_mask: "gp_u16 (gp_from_mask_bytes (to_be 4 m)) = gp_region m"
  using gp_of_u16 [of "gp_region m"] by (simp add: gp_from_mask_bytes_def Let_def from_be_to_be gp_region_def)

lemma bit_gp_region: "bit (gp_region m) k \<longleftrightarrow> k < 16 \<and> bit m (13 + k)"
  by (auto simp: gp_region_def bit_simps dest: bit_imp_le_length)

text \<open>
  How a pool rebuilds the version of a share (BIP310): the base outside the mask it authorized,
  the submitted bits inside; the base if it authorized none.
\<close>

definition pool_version :: "u32 \<Rightarrow> u32 option \<Rightarrow> u32 option \<Rightarrow> u32" where
  "pool_version base authorized bits =
    (case (authorized, bits) of (Some m, Some b) \<Rightarrow> (base AND NOT m) OR (b AND m) | _ \<Rightarrow> base)"

lemma rolled_outside_mask:
  assumes "gp_region base = 0"
  shows "apply_to_version g base AND NOT m = base AND NOT m \<longleftrightarrow> gp_u16 g AND NOT (gp_region m) = 0"
proof
  assume l: "apply_to_version g base AND NOT m = base AND NOT m"
  show "gp_u16 g AND NOT (gp_region m) = 0"
  proof (rule bit_word_eqI)
    fix k assume "k < LENGTH(16)"
    then have k: "k < 16" by simp
    have "\<not> bit base (13 + k)" using arg_cong [OF assms, of "\<lambda>w. bit w k"] k by (simp add: bit_gp_region)
    then show "bit (gp_u16 g AND NOT (gp_region m)) k = bit 0 k"
      using arg_cong [OF l, of "\<lambda>w. bit w (13 + k)"] k
      by (auto simp: bit_and_iff bit_not_iff bit_apply_to_version bit_gp_region possible_bit_word)
  qed
next
  assume r: "gp_u16 g AND NOT (gp_region m) = 0"
  show "apply_to_version g base AND NOT m = base AND NOT m"
  proof (rule bit_word_eqI)
    fix k assume "k < LENGTH(32)"
    then have k: "k < 32" by simp
    show "bit (apply_to_version g base AND NOT m) k = bit (base AND NOT m) k"
    proof (cases "13 \<le> k \<and> k < 29")
      case True
      then have "bit (gp_u16 g) (k - 13) \<longrightarrow> bit m k"
        using arg_cong [OF r, of "\<lambda>w. bit w (k - 13)"] by (auto simp: bit_simps bit_gp_region)
      then show ?thesis using k True by (auto simp: bit_and_iff bit_not_iff bit_apply_to_version)
    qed (auto simp: bit_and_iff bit_apply_to_version)
  qed
qed

lemma pool_version_some:
  "(base AND NOT m) OR ((v AND m) AND m) = v \<longleftrightarrow> v AND NOT m = base AND NOT (m :: u32)"
proof -
  have v: "v = (v AND NOT m) OR (v AND m)" by (rule bit_word_eqI) (auto simp: bit_simps)
  have p: "((a AND NOT m) OR ((v AND m) AND m)) AND NOT m = a AND NOT m" for a :: u32
    by (rule bit_word_eqI) (auto simp: bit_simps)
  show ?thesis
  proof
    assume "(base AND NOT m) OR ((v AND m) AND m) = v"
    then show "v AND NOT m = base AND NOT m" using p [of base] by simp
  next
    assume "v AND NOT m = base AND NOT m"
    then show "(base AND NOT m) OR ((v AND m) AND m) = v" using v by (simp add: and.assoc)
  qed
qed

section \<open>A world for the witnesses\<close>

text \<open>Numbers without content: every change is material and every difficulty is the least one.\<close>

definition plain_env :: "unit source_env" where
  "plain_env =
    \<lparr>f64_pos_finite = (\<lambda>_. False), f64_integer_decode = (\<lambda>_. (1, 0)), env_alloc = (\<lambda>ks. (length ks, 0)),
     f64_of_u64 = (\<lambda>_. ()), f64_as_secs = (\<lambda>_. ()), f64_mul = (\<lambda>_ _. ()), f64_div = (\<lambda>_ _. ()),
     f64_le_one = (\<lambda>_. True), f64_le_zero = (\<lambda>_. False), f64_one = (), f64_two32 = (), f64_difficulty = (\<lambda>_. ()),
     f64_to_duration = (\<lambda>_. None), se_target_max = 9, se_le = (\<lambda>_ _. True), se_lit = (\<lambda>_. ()), se_username = ''u''\<rparr>"

definition plain_source :: "unit stratum_source" where
  "plain_source = source_new\<lparr>ss_state := Some \<lparr>so_extranonce1 = [1], so_extranonce2_size = 4,
     so_share_difficulty = Some (Difficulty 7), so_version_mask = Some 0x1fffe000\<rparr>\<rparr>"

definition plain_job :: job_notification where
  "plain_job = \<lparr>jn_job_id = ''j'', jn_prev_hash = [], jn_coinbase1 = [], jn_coinbase2 = [], jn_merkle_branches = [],
     jn_version = 0x20000000, jn_nbits = 0, jn_ntime = 0, jn_clean_jobs = False\<rparr>"

definition plain_share :: share where
  "plain_share = \<lparr>share_job_id = ''j'', share_nonce = 0x01020304, share_time = 5, share_version = 0x20b44000, share_extranonce2 = None\<rparr>"

lemma plain_template: "\<exists>tpl. job_to_template plain_env plain_source plain_job = Some (Inr tpl) \<and> vt_base (job_version tpl) = 0x20000000"
proof -
  have "case job_to_template plain_env plain_source plain_job of
      Some (Inr tpl) \<Rightarrow> vt_base (job_version tpl) = 0x20000000 | _ \<Rightarrow> False" by code_simp
  then show ?thesis by (auto split: option.splits sum.splits)
qed

lemma plain_submit: "\<exists>p. share_to_submit_params plain_env plain_source plain_share = Inr p \<and>
    sp_nonce p = 0x04030201 \<and> sp_version_bits p = Some 0xb44000"
proof -
  have "case share_to_submit_params plain_env plain_source plain_share of
      Inr p \<Rightarrow> sp_nonce p = 0x04030201 \<and> sp_version_bits p = Some 0xb44000 | Inl _ \<Rightarrow> False" by code_simp
  then show ?thesis by (auto split: sum.splits)
qed

section \<open>Submitted shares\<close>

lemma job_to_template_version:
  assumes "job_to_template E s job = Some (Inr template)"
  obtains st where "ss_state s = Some st" "vt_base (job_version template) = jn_version job" "gp_region (jn_version job) = 0"
  using assms by (auto simp: job_to_template_def Let_def version_template_new_ok split: option.splits sum.splits)

text \<open>
  When the pool rebuilds the version that was hashed. For a job the source turned into a
  template, a share whose version carries the rolled bits g is rebuilt by the pool exactly
  when g lies inside the mask in force at submission; without an authorized mask, exactly
  when nothing was rolled. The chips are always told to roll all sixteen bits.
\<close>

theorem pool_rebuilds_version:
  assumes "job_to_template E s0 job = Some (Inr template)"
    and "share_version sh = apply_to_version g (vt_base (job_version template))"
    and "ss_state s = Some st" "share_to_submit_params E s sh = Inr p"
  shows "pool_version (jn_version job) (so_version_mask st) (sp_version_bits p) = share_version sh \<longleftrightarrow>
    (case so_version_mask st of
       Some m \<Rightarrow> gp_u16 g AND NOT (gp_region m) = 0
     | None \<Rightarrow> gp_u16 g = 0)"
proof -
  from job_to_template_version [OF assms(1)] have b: "vt_base (job_version template) = jn_version job"
    and z: "gp_region (jn_version job) = 0" by blast+
  have bits: "sp_version_bits p = map_option (\<lambda>m. share_version sh AND m) (so_version_mask st)"
    using assms(3,4) by (auto simp: share_to_submit_params_def)
  show ?thesis
  proof (cases "so_version_mask st")
    case None
    have "apply_to_version g (jn_version job) = jn_version job \<longleftrightarrow> gp_u16 g = 0"
      using rolled_outside_mask [OF z, of g 0] by (simp add: gp_region_def)
    with None show ?thesis by (auto simp: pool_version_def assms(2) b)
  next
    case (Some m)
    have "pool_version (jn_version job) (so_version_mask st) (sp_version_bits p) = share_version sh \<longleftrightarrow>
        share_version sh AND NOT m = jn_version job AND NOT m"
      unfolding pool_version_def bits Some by (simp add: pool_version_some [simplified and.assoc and.idem])
    also have "\<dots> \<longleftrightarrow> gp_u16 g AND NOT (gp_region m) = 0"
      unfolding assms(2) b by (rule rolled_outside_mask [OF z])
    finally show ?thesis using Some by simp
  qed
qed

theorem pool_rebuilds_version_witness:
  "pool_version 0x20000000 (Some 0x1fffe000) (Some 0xb44000) = 0x20b44000"
proof -
  obtain tpl where t: "job_to_template plain_env plain_source plain_job = Some (Inr tpl)" "vt_base (job_version tpl) = 0x20000000"
    using plain_template by blast
  obtain p where p: "share_to_submit_params plain_env plain_source plain_share = Inr p" "sp_version_bits p = Some 0xb44000"
    using plain_submit by blast
  have "share_version plain_share = apply_to_version (0x05, 0xa2) 0x20000000" by code_simp
  then have v: "share_version plain_share = apply_to_version (0x05, 0xa2) (vt_base (job_version tpl))" by (simp add: t)
  have st: "ss_state plain_source = Some (the (ss_state plain_source))" by (simp add: plain_source_def)
  have m: "so_version_mask (the (ss_state plain_source)) = Some 0x1fffe000" by (simp add: plain_source_def)
  have g: "gp_u16 (0x05, 0xa2) AND NOT (gp_region 0x1fffe000) = 0" by code_simp
  from pool_rebuilds_version [OF t(1) v st p(1)] show ?thesis
    using g by (simp add: m p(2) plain_job_def plain_share_def)
qed

text \<open>
  The nonce reaches the pool byte-swapped. Written as hexadecimal, parsed and put little
  endian into the header, as the source's comment describes the pool, the submitted nonce
  is the big-endian bytes of the nonce found; these are the little-endian bytes of a
  consensus header only if the nonce is its own byte swap. The submission carries the
  share's time, job and extranonce2 unchanged.
\<close>

theorem submitted_nonce_bytes:
  assumes "share_to_submit_params E s sh = Inr p"
  shows "to_le 4 (the (u32_from_hex (hex32 (sp_nonce p)))) = to_be 4 (share_nonce sh) \<and>
    (to_be 4 (share_nonce sh) = to_le 4 (share_nonce sh) \<longleftrightarrow> swap_bytes (share_nonce sh) = share_nonce sh) \<and>
    sp_job_id p = share_job_id sh \<and> sp_ntime p = share_time sh \<and>
    (\<forall>e. share_extranonce2 sh = Some e \<longrightarrow> sp_extranonce2 p = en2_bytes e)"
proof -
  have p: "sp_nonce p = swap_bytes (share_nonce sh)" "sp_job_id p = share_job_id sh" "sp_ntime p = share_time sh"
    "\<And>e. share_extranonce2 sh = Some e \<Longrightarrow> sp_extranonce2 p = en2_bytes e"
    using assms by (auto simp: share_to_submit_params_def split: option.splits)
  have "to_be 4 n = to_le 4 n \<longleftrightarrow> swap_bytes n = n" for n :: u32
    using to_le_swap_bytes [of n] from_le_to_le [of 4 "swap_bytes n"] from_le_to_le [of 4 n] by auto
  with p show ?thesis by (simp add: u32_from_hex32 to_le_swap_bytes)
qed

theorem submitted_nonce_bytes_witness:
  "\<exists>p. share_to_submit_params plain_env plain_source plain_share = Inr p \<and>
    to_le 4 (the (u32_from_hex (hex32 (sp_nonce p)))) = [1, 2, 3, 4]"
proof -
  obtain p where p: "share_to_submit_params plain_env plain_source plain_share = Inr p" using plain_submit by blast
  have "to_be 4 (share_nonce plain_share) = [1, 2, 3, 4]" by code_simp
  with submitted_nonce_bytes [OF p] p show ?thesis by auto
qed

section \<open>The difficulty after a handshake\<close>

definition feed_events ::
  "('f, 'm) source_env_scheme \<Rightarrow> 'f client_event list \<Rightarrow> 'f stratum_source \<Rightarrow> 'f stratum_source option" where
  "feed_events E evs s = foldl (\<lambda>r ev. Option.bind r (\<lambda>s. map_option (fst \<circ> snd) (handle_client_event E True ev s))) (Some s) evs"

fun last_difficulty :: "'f client_event list \<Rightarrow> 'f option" where
  "last_difficulty [] = None"
| "last_difficulty (ev # evs) =
     (case last_difficulty evs of Some d \<Rightarrow> Some d
      | None \<Rightarrow> (case ev of DifficultyChanged d \<Rightarrow> Some d | _ \<Rightarrow> None))"

text \<open>Events that create the protocol state.\<close>

fun opens_state :: "'f client_event \<Rightarrow> bool" where
  "opens_state (VersionRollingConfigured _) = True"
| "opens_state (Subscribed _ _) = True"
| "opens_state _ = False"

lemma feed_events_None: "foldl (\<lambda>r ev. Option.bind r (f ev)) None evs = None"
  by (induction evs) auto

lemma feed_events_Cons:
  "feed_events E (ev # evs) s = Option.bind (handle_client_event E True ev s) (\<lambda>(_, s', _). feed_events E evs s')"
  by (cases "handle_client_event E True ev s") (auto simp: feed_events_def feed_events_None)

lemma feed_events_append:
  "feed_events E (evs @ evs') s = Option.bind (feed_events E evs s) (feed_events E evs')"
  by (cases "feed_events E evs s") (auto simp: feed_events_def feed_events_None)

lemma new_job_keeps:
  assumes "handle_client_event E a (NewJob job) s = Some (r, s', effs)"
  shows "s' = s \<and> (effs = [] \<or> (\<exists>ev. effs = [EmitSource ev]))"
proof -
  obtain x where x: "job_to_template E s job = Some x" using assms by (auto simp: handle_client_event_def)
  with assms show ?thesis by (cases x) (auto simp: handle_client_event_def split: if_splits)
qed

lemma closed_events:
  "feed_events E evs s = Some s' \<Longrightarrow> \<forall>ev \<in> set evs. \<not> opens_state ev \<Longrightarrow> ss_state s = None \<Longrightarrow> ss_state s' = None"
proof (induction evs arbitrary: s)
  case (Cons ev evs)
  then obtain r s1 effs where h: "handle_client_event E True ev s = Some (r, s1, effs)" "feed_events E evs s1 = Some s'"
    by (auto simp: feed_events_Cons bind_eq_Some_conv)
  have "ss_state s1 = None" using h(1) Cons.prems(2,3)
    using new_job_keeps [of E True _ s r s1 effs] by (cases ev) (auto simp: handle_client_event_def)
  with Cons h(2) show ?case by simp
qed (simp add: feed_events_def)

lemma open_event:
  assumes "handle_client_event E True ev s = Some (r, s', effs)" "ss_state s = Some st"
  shows "\<exists>st'. ss_state s' = Some st' \<and>
    so_share_difficulty st' = (case ev of DifficultyChanged d \<Rightarrow> difficulty_from_f64 E (se_target_max E) d
      | _ \<Rightarrow> so_share_difficulty st)"
  using assms new_job_keeps [of E True _ s r s' effs] by (cases ev) (auto simp: handle_client_event_def)

lemma open_events:
  "feed_events E evs s = Some s' \<Longrightarrow> ss_state s = Some st \<Longrightarrow> \<exists>st'. ss_state s' = Some st' \<and>
    so_share_difficulty st' = (case last_difficulty evs of Some d \<Rightarrow> difficulty_from_f64 E (se_target_max E) d
      | None \<Rightarrow> so_share_difficulty st)"
proof (induction evs arbitrary: s st)
  case (Cons ev evs)
  then obtain r s1 effs where h: "handle_client_event E True ev s = Some (r, s1, effs)" "feed_events E evs s1 = Some s'"
    by (auto simp: feed_events_Cons bind_eq_Some_conv)
  from open_event [OF h(1) Cons.prems(2)] obtain st1 where st1: "ss_state s1 = Some st1"
    "so_share_difficulty st1 = (case ev of DifficultyChanged d \<Rightarrow> difficulty_from_f64 E (se_target_max E) d
      | _ \<Rightarrow> so_share_difficulty st)" by blast
  from Cons.IH [OF h(2) st1(1)] st1(2) show ?case by (auto split: option.splits client_event.splits)
qed (simp add: feed_events_def)

text \<open>
  The share difficulty in force after a handshake. A fresh connection keeps the last
  difficulty the pool sent after the version rolling was settled; with none it has no
  difficulty and uses one; a difficulty that arrived before that is forgotten.
\<close>

theorem difficulty_in_force:
  assumes "feed_events E (early @ VersionRollingConfigured m # later) (connection_reset s0) = Some s"
    and "\<forall>ev \<in> set early. \<not> opens_state ev"
  shows "\<exists>st. ss_state s = Some st \<and>
    so_share_difficulty st = (case last_difficulty later of Some d \<Rightarrow> difficulty_from_f64 E (se_target_max E) d | None \<Rightarrow> None)"
proof -
  from assms(1) obtain s1 where e: "feed_events E early (connection_reset s0) = Some s1"
    and l: "feed_events E (VersionRollingConfigured m # later) s1 = Some s"
    by (auto simp: feed_events_append bind_eq_Some_conv)
  have n: "ss_state s1 = None" using closed_events [OF e assms(2)] by (simp add: connection_reset_def)
  let ?st = "\<lparr>so_extranonce1 = [], so_extranonce2_size = 0, so_share_difficulty = None, so_version_mask = m\<rparr>"
  have "feed_events E later (s1\<lparr>ss_state := Some ?st\<rparr>) = Some s"
    using l n by (simp add: feed_events_Cons handle_client_event_def)
  from open_events [OF this, of ?st] show ?thesis by (auto split: option.splits)
qed

theorem difficulty_in_force_witness:
  "\<exists>s st. feed_events plain_env ([DifficultyChanged ()] @ VersionRollingConfigured None # [Subscribed [1] 4]) (connection_reset plain_source) = Some s \<and>
    ss_state s = Some st \<and> so_share_difficulty st = None"
proof -
  have "feed_events plain_env ([DifficultyChanged ()] @ VersionRollingConfigured None # [Subscribed [1] 4]) (connection_reset plain_source) \<noteq> None"
    by (simp add: feed_events_Cons handle_client_event_def feed_events_def difficulty_from_f64_def plain_env_def)
  then obtain s where s: "feed_events plain_env ([DifficultyChanged ()] @ VersionRollingConfigured None # [Subscribed [1] 4]) (connection_reset plain_source) = Some s"
    by blast
  from difficulty_in_force [OF s] s show ?thesis by simp
qed

section \<open>Suggestions\<close>

definition suggestions :: "nat \<Rightarrow> 'f source_effect list \<Rightarrow> (nat \<times> 'f) list" where
  "suggestions now effs = concat (map (\<lambda>e. case e of ToClient (SuggestDifficulty d) \<Rightarrow> [(now, d)] | _ \<Rightarrow> []) effs)"

text \<open>
  A connected source with the time of its last turn and the suggestions sent, newest first. The
  clock does not go back and the cooldown timer does not fire early.
\<close>

definition limiter_step ::
  "('f, 'm) source_env_scheme \<Rightarrow> 'f stratum_source \<times> nat \<times> (nat \<times> 'f) list \<Rightarrow> bool \<times> nat \<times> ('n, 'f) source_input
   \<Rightarrow> 'f stratum_source \<times> nat \<times> (nat \<times> 'f) list" where
  "limiter_step E = (\<lambda>(s, t, sent) (accepts, now, inp).
    case source_turn E accepts now inp s of
      Some (_, s', effs) \<Rightarrow> (s', now, suggestions now effs @ sent)
    | None \<Rightarrow> (s, t, sent))"

definition limiter_ok ::
  "('f, 'm) source_env_scheme \<Rightarrow> 'f stratum_source \<times> nat \<times> (nat \<times> 'f) list \<Rightarrow> bool \<times> nat \<times> ('n, 'f) source_input \<Rightarrow> bool" where
  "limiter_ok E = (\<lambda>(s, t, sent) (accepts, now, inp).
    t \<le> now \<and> source_turn E accepts now inp s \<noteq> None \<and>
    (inp = CooldownExpired \<longrightarrow> (case ss_cooldown_until s of Some u \<Rightarrow> u \<le> now | None \<Rightarrow> True)))"



lemma client_event_keeps:
  "handle_client_event E a ev s = Some (r, s', effs) \<Longrightarrow>
    ss_last_suggested s' = ss_last_suggested s \<and> ss_cooldown_until s' = ss_cooldown_until s \<and>
    ss_expected_hashrate s' = ss_expected_hashrate s \<and> suggestions now effs = []"
proof (cases ev)
  case (NewJob job)
  assume "handle_client_event E a ev s = Some (r, s', effs)"
  from new_job_keeps [OF this [unfolded NewJob]] show ?thesis by (auto simp: suggestions_def)
qed (auto simp: handle_client_event_def suggestions_def)







lemma plain_suggestion: "compute_suggested_difficulty plain_env 1 = Some (Some ())" "is_material_change plain_env () x"
  by (simp_all add: compute_suggested_difficulty_def rate_to_target_def share_rate_target_def plain_env_def
      is_material_change_def split: option.splits)




text \<open>
  C17: A change held back by the cooldown is not lost. If a new hash rate calls for a
  suggestion but the cooldown is active, nothing is sent at once; whatever events and shares
  come before the timer fires, the timer then sends it.
\<close>

theorem held_suggestion_sent:
  assumes "compute_suggested_difficulty E rate = Some (Some d)" "is_material_change E d (ss_last_suggested s)"
    and "ss_cooldown_until s = Some u" "now < u"
    and "run_ok (limiter_ok E) (limiter_step E) (s\<lparr>ss_expected_hashrate := rate\<rparr>, now, []) others"
    and "\<forall>(a, t, inp) \<in> set others. \<exists>ev sh. inp = ClientEvent ev \<or> inp = SchedulerCommand (SubmitShare sh)"
    and "foldl (limiter_step E) (s\<lparr>ss_expected_hashrate := rate\<rparr>, now, []) others = (s', t', sent)"
  shows "source_turn E accepts now (SchedulerCommand (UpdateHashRate rate)) s = Some (None, s\<lparr>ss_expected_hashrate := rate\<rparr>, []) \<and>
    sent = [] \<and>
    source_turn E accepts' u CooldownExpired s' = Some (None, s'\<lparr>ss_last_suggested := Some d, ss_cooldown_until := Some (u + suggest_min_interval)\<rparr>,
      [ToClient (SuggestDifficulty d)])"
proof -
  have keep: "ss_last_suggested s2 = ss_last_suggested s1 \<and> ss_cooldown_until s2 = ss_cooldown_until s1 \<and>
      ss_expected_hashrate s2 = ss_expected_hashrate s1 \<and> sent2 = sent1"
    if "run_ok (limiter_ok E) (limiter_step E) (s1, t1, sent1) es"
      "\<forall>(a, t, inp) \<in> set es. \<exists>ev sh. inp = ClientEvent ev \<or> inp = SchedulerCommand (SubmitShare sh)"
      "foldl (limiter_step E) (s1, t1, sent1) es = (s2, t2, sent2)" for s1 t1 sent1 es s2 t2 sent2
    using that
  proof (induction es arbitrary: s1 t1 sent1)
    case (Cons e es)
    obtain a now inp where e: "e = (a, now, inp)" by (cases e) auto
    from Cons.prems(1) obtain r s3 effs where st: "source_turn E a now inp s1 = Some (r, s3, effs)"
      by (auto simp: e limiter_ok_def)
    have "ss_last_suggested s3 = ss_last_suggested s1 \<and> ss_cooldown_until s3 = ss_cooldown_until s1 \<and>
      ss_expected_hashrate s3 = ss_expected_hashrate s1 \<and> suggestions now effs = []"
      using st Cons.prems(2) client_event_keeps by (fastforce simp: e source_turn_def suggestions_def split: sum.splits)
    moreover have "limiter_step E (s1, t1, sent1) e = (s3, now, suggestions now effs @ sent1)"
      by (simp add: e limiter_step_def st)
    ultimately show ?case using Cons by (auto simp: e)
  qed simp
  from keep [OF assms(5,6,7)] assms(1-4) show ?thesis
    by (simp add: source_turn_def maybe_suggest_difficulty_def in_cooldown_def flush_suggest_def send_suggest_def)
qed

theorem held_suggestion_sent_witness:
  "source_turn plain_env True 9 CooldownExpired (source_new\<lparr>ss_cooldown_until := Some 9, ss_expected_hashrate := 1\<rparr>)
    = Some (None :: unit connect_outcome option,
        source_new\<lparr>ss_expected_hashrate := 1, ss_last_suggested := Some (), ss_cooldown_until := Some (9 + suggest_min_interval)\<rparr>,
        [ToClient (SuggestDifficulty ())])"
proof -
  let ?s = "source_new\<lparr>ss_cooldown_until := Some 9\<rparr> :: unit stratum_source"
  let ?others = "[(True, 4, ClientEvent DisconnectedEvent)] :: (bool \<times> nat \<times> (unit, unit) source_input) list"
  have c: "ss_cooldown_until ?s = Some 9" by simp
  have r: "run_ok (limiter_ok plain_env) (limiter_step plain_env) (?s\<lparr>ss_expected_hashrate := 1\<rparr>, 3, []) ?others"
    by (simp add: limiter_ok_def source_turn_def handle_client_event_def)
  have o: "\<forall>(a, t, inp) \<in> set ?others. \<exists>ev sh. inp = ClientEvent ev \<or> inp = SchedulerCommand (SubmitShare sh)" by simp
  have f: "foldl (limiter_step plain_env) (?s\<lparr>ss_expected_hashrate := 1\<rparr>, 3, []) ?others = (?s\<lparr>ss_expected_hashrate := 1\<rparr>, 4, [])"
    by (simp add: limiter_step_def source_turn_def handle_client_event_def suggestions_def)
  show ?thesis
    using held_suggestion_sent [OF plain_suggestion(1) plain_suggestion(2) c _ r o f, of True True, THEN conjunct2, THEN conjunct2] by simp
qed

section \<open>Backoff\<close>

text \<open>The delays of n reconnections in a row, none of which was stable.\<close>

fun delays :: "(u64 \<Rightarrow> nat \<Rightarrow> nat) \<Rightarrow> nat \<Rightarrow> backoff \<Rightarrow> nat list" where
  "delays jitter 0 b = []"
| "delays jitter (Suc n) b = (let (d, b') = next_delay jitter b in d # delays jitter n b')"

lemma min_double: "min (min (c * 2) m * 2 ^ j) m = min (c * (2 * 2 ^ j)) (m :: nat)"
proof (cases "c * 2 \<le> m")
  case False
  have "m * 1 \<le> m * 2 ^ j" by (intro mult_le_mono2) simp
  moreover from this have "m \<le> c * 2 * 2 ^ j" using False mult_le_mono1 [of m "c * 2" "2 ^ j"] by linarith
  ultimately have "min (c * 2) m = m" "m \<le> m * 2 ^ j" "m \<le> c * (2 * 2 ^ j)" using False by (simp_all add: mult.assoc)
  then show ?thesis by simp
qed (simp add: mult.assoc)

lemma delays_nth:
  "k < n \<Longrightarrow> bo_current b \<le> bo_max b \<Longrightarrow>
    \<exists>step. delays jitter n b ! k = jitter step (min (bo_current b * 2 ^ k) (bo_max b))"
proof (induction n arbitrary: k b)
  case (Suc n)
  show ?case
  proof (cases k)
    case 0
    with Suc.prems(2) show ?thesis by (auto simp: next_delay_def)
  next
    case (Suc j)
    let ?b = "snd (next_delay jitter b)"
    have "bo_current ?b \<le> bo_max ?b" "bo_max ?b = bo_max b" "bo_current ?b = min (bo_current b * 2) (bo_max b)"
      by (simp_all add: next_delay_def)
    then show ?thesis using Suc.IH [of j ?b] Suc Suc.prems(1) min_double [of "bo_current b" "bo_max b" j]
      by (auto simp: next_delay_def)
  qed
qed simp

text \<open>
  Reconnection backs off exponentially and stays bounded. If the jitter keeps a delay
  between half and all of its nominal value, the k-th reconnection in a row waits between
  half and all of min(2^k, 60) seconds; after a stable connection the next delay is at
  most one second again.
\<close>

theorem backoff_bounds:
  assumes "\<And>step n. n \<le> 2 * jitter step n \<and> jitter step n \<le> n" "k < n"
  shows "of_secs (min (2 ^ k) 60) \<le> 2 * delays jitter n (backoff_new (of_secs 1) (of_secs 60)) ! k \<and>
    delays jitter n (backoff_new (of_secs 1) (of_secs 60)) ! k \<le> of_secs (min (2 ^ k) 60) \<and>
    (stable_connection_threshold \<le> elapsed \<longrightarrow>
      (\<exists>d b' s'. after_connection jitter True elapsed OutDisconnected (b\<lparr>bo_initial := of_secs 1\<rparr>) s
        = (Some (b', s'), [EmitSource ClearJobs, Wait d]) \<and> d \<le> of_secs 1 \<and> ss_state s' = None))"
proof -
  have "min (of_secs 1 * 2 ^ k) (of_secs 60) = of_secs (min (2 ^ k) 60)"
    by (simp add: of_secs_def min_def)
  with delays_nth [OF assms(2), of "backoff_new (of_secs 1) (of_secs 60)" jitter]
  obtain step where "delays jitter n (backoff_new (of_secs 1) (of_secs 60)) ! k = jitter step (of_secs (min (2 ^ k) 60))"
    by (auto simp: backoff_new_def of_secs_def)
  with assms(1) show ?thesis
    by (auto simp: after_connection_def Let_def next_delay_def backoff_reset_def connection_reset_def)
qed

theorem backoff_bounds_witness:
  "delays (\<lambda>_ n. n) 8 (backoff_new (of_secs 1) (of_secs 60)) ! 7 \<le> of_secs 60 \<and>
   of_secs 60 \<le> 2 * delays (\<lambda>_ n. n) 8 (backoff_new (of_secs 1) (of_secs 60)) ! 7"
proof -
  have j: "n \<le> 2 * (\<lambda>(_ :: u64) n. n) step n \<and> (\<lambda>(_ :: u64) n. n) step n \<le> n" for step and n :: nat by simp
  from backoff_bounds [of "\<lambda>_ n. n", OF j, of 7 8] show ?thesis by auto
qed

end
