(* ===== verification/Nano_Address.thy ===== *)
theory Nano_Address
  imports Stratum_Messages
begin

text \<open>
  Payout addresses of the solo pool, from \<open>nano-pool/src/main.rs\<close>: the cashaddr decoder with its
  40-bit checksum and the base58check decoder. Addresses are byte strings; the double
  SHA-256 is a parameter (\<open>bitcoin\<close> crate), errors carry what the messages show. The theorems
  state that one wrong character never gets past the cashaddr checksum, and which number a
  base58 string stands for.
\<close>

section \<open>Errors\<close>

datatype address_error =
  BadBase58Char u8 | Base58Length nat | Base58Checksum | Base58Version u8
  | BadCashaddrChar u8 | CashaddrLength nat | CashaddrChecksum | UnsupportedCashaddr nat u8

text \<open>A literal byte string.\<close>

definition bytes :: "string \<Rightarrow> u8 list" where
  "bytes s = map (\<lambda>c. word_of_nat (of_char c)) s"

text \<open>\<open>iter().position\<close>.\<close>

fun position :: "'a \<Rightarrow> 'a list \<Rightarrow> nat option" where
  "position x [] = None"
| "position x (y # ys) = (if x = y then Some 0 else map_option Suc (position x ys))"

section \<open>Cashaddr\<close>

definition polymod_generators :: "u64 list" where
  "polymod_generators = [0x98f2bc8e61, 0x79b76d99e2, 0xf33e5fb3c4, 0xae2eabe2a8, 0x1e4f43e470]"

text \<open>One round of the loop: the shift, the next value and the generators of the top bits.\<close>

definition polymod_step :: "u64 \<Rightarrow> u8 \<Rightarrow> u64" where
  "polymod_step c d =
    (let c0 = drop_bit 35 c
     in foldl (\<lambda>c (i, g). if drop_bit i c0 AND 1 = 1 then c XOR g else c)
          (push_bit 5 (c AND 0x07ffffffff) XOR ucast d) (enumerate 0 polymod_generators))"

definition cashaddr_polymod :: "u8 list \<Rightarrow> u64" where
  "cashaddr_polymod v = foldl polymod_step 1 v XOR 1"

definition cashaddr_charset :: "u8 list" where
  "cashaddr_charset = bytes ''qpzry9x8gf2tvdw0s3jn54khce6mua7l''"

text \<open>
  \<open>to_lowercase\<close> on an ASCII string. Of the characters outside ASCII only the Kelvin sign has an
  ASCII lower case; the model does not speak about addresses that contain it.
\<close>

definition lower_byte :: "u8 \<Rightarrow> u8" where
  "lower_byte b = (if 65 \<le> b \<and> b \<le> 90 then b + 32 else b)"

definition cashaddr_values :: "u8 list \<Rightarrow> address_error + u8 list" where
  "cashaddr_values data =
    traverse_sum (\<lambda>c. case position c cashaddr_charset of
        None \<Rightarrow> Inl (BadCashaddrChar c) | Some i \<Rightarrow> Inr (word_of_nat i)) (map lower_byte data)"

text \<open>The five-bit groups to bytes; the accumulator is a \<open>u32\<close> whose shift drops high bits.\<close>

fun regroup :: "u32 \<Rightarrow> nat \<Rightarrow> u8 list \<Rightarrow> u8 list" where
  "regroup acc bits [] = []"
| "regroup acc bits (v # vs) =
     (let acc' = push_bit 5 acc OR ucast v; bits' = bits + 5
      in if 8 \<le> bits' then ucast (drop_bit (bits' - 8) acc' AND 0xff) # regroup acc' (bits' - 8) vs
         else regroup acc' bits' vs)"

definition poly_input :: "u8 list \<Rightarrow> u8 list \<Rightarrow> u8 list" where
  "poly_input hrp values = map (\<lambda>b. b AND 31) hrp @ 0 # values"

definition cashaddr_decode :: "u8 list \<Rightarrow> u8 list \<Rightarrow> address_error + u8 list" where
  "cashaddr_decode hrp data =
    and_then (cashaddr_values data) (\<lambda>values.
      if length values \<noteq> 42 then Inl (CashaddrLength (length values))
      else if cashaddr_polymod (poly_input hrp values) \<noteq> 0 then Inl CashaddrChecksum
      else let bs = regroup 0 0 (take 34 values)
           in if length bs \<noteq> 21 \<or> bs ! 0 \<noteq> 0x00
              then Inl (UnsupportedCashaddr (length bs) (if bs = [] then 0xff else bs ! 0))
              else Inr (take 20 (drop 1 bs)))"

section \<open>Base58check\<close>

definition base58_alphabet :: "u8 list" where
  "base58_alphabet = bytes ''123456789ABCDEFGHJKLMNPQRSTUVWXYZabcdefghijkmnopqrstuvwxyz''"

text \<open>
  Multiplying the big-endian accumulator by 58 and adding a carry, from its last byte on; the
  carry left over is returned.
\<close>

fun mul_add58 :: "u8 list \<Rightarrow> u32 \<Rightarrow> u8 list \<times> u32" where
  "mul_add58 [] carry = ([], carry)"
| "mul_add58 (b # bs) carry =
     (let (bs', carry') = mul_add58 bs carry; v = ucast b * 58 + carry'
      in (ucast (v AND 0xff) # bs', drop_bit 8 v))"

function push_carry :: "u32 \<Rightarrow> u8 list \<Rightarrow> u8 list" where
  "push_carry carry num =
    (if 0 < carry then push_carry (drop_bit 8 carry) (ucast (carry AND 0xff) # num) else num)"
  by auto

termination
proof (relation "measure (\<lambda>(carry, num). unat carry)", simp_all)
  fix carry :: u32 assume "0 < carry"
  then have "0 < unat carry" by (simp add: word_less_nat_alt)
  then have "unat carry div 256 < unat carry" by simp
  then show "unat (drop_bit 8 carry) < unat carry" unfolding unat_drop_bit_eq by (simp add: drop_bit_eq_div)
qed

declare push_carry.simps [simp del]

fun base58_loop :: "u8 list \<Rightarrow> u8 list \<Rightarrow> address_error + u8 list" where
  "base58_loop num [] = Inr num"
| "base58_loop num (c # cs) =
     (case position c base58_alphabet of
        None \<Rightarrow> Inl (BadBase58Char c)
      | Some d \<Rightarrow> (let (num', carry) = mul_add58 num (word_of_nat d) in base58_loop (push_carry carry num') cs))"

definition base58check_pkh :: "(u8 list \<Rightarrow> hash256) \<Rightarrow> u8 list \<Rightarrow> address_error + u8 list" where
  "base58check_pkh sha256d addr =
    and_then (base58_loop [] addr) (\<lambda>num.
      let raw = replicate (length (takeWhile (\<lambda>c. c = 49) addr)) 0 @ num
      in if length raw \<noteq> 25 then Inl (Base58Length (length raw))
         else let payload = take 21 raw; check = drop 21 raw
              in if take 4 (sha256d payload) \<noteq> check then Inl Base58Checksum
                 else if payload ! 0 = 0x00 \<or> payload ! 0 = 0x1e then Inr (take 20 (drop 1 payload))
                 else Inl (Base58Version (payload ! 0)))"

section \<open>Payout\<close>

text \<open>\<open>trim\<close> and \<open>find(':')\<close> on an address without surrounding white space.\<close>

definition decode_payout :: "(u8 list \<Rightarrow> hash256) \<Rightarrow> u8 list \<Rightarrow> address_error + u8 list" where
  "decode_payout sha256d a =
    (case position 58 a of
       Some colon \<Rightarrow> cashaddr_decode (take colon a) (drop (colon + 1) a)
     | None \<Rightarrow>
         (case cashaddr_decode (bytes ''bitcoincash'') a of
            Inr h \<Rightarrow> Inr h
          | Inl _ \<Rightarrow>
              (case cashaddr_decode (bytes ''bchreg'') a of
                 Inr h \<Rightarrow> Inr h
               | Inl _ \<Rightarrow> base58check_pkh sha256d a)))"

section \<open>The checksum is linear and detects a wrong character\<close>

definition sel :: "bool \<Rightarrow> u64 \<Rightarrow> u64" where
  "sel b g = (if b then g else 0)"

lemma sel_xor: "sel (a \<noteq> b) g = sel a g XOR sel b g" "sel (a = (\<not> b)) g = sel a g XOR sel b g"
  by (simp_all add: sel_def)

text \<open>The generators picked by the five top bits of the state.\<close>

definition picked :: "u64 \<Rightarrow> u64" where
  "picked c = sel (bit c 35) (polymod_generators ! 0) XOR sel (bit c 36) (polymod_generators ! 1)
     XOR sel (bit c 37) (polymod_generators ! 2) XOR sel (bit c 38) (polymod_generators ! 3)
     XOR sel (bit c 39) (polymod_generators ! 4)"

lemma drop_bit_and_one: "drop_bit i (drop_bit 35 c) AND 1 = 1 \<longleftrightarrow> bit (c :: u64) (i + 35)"
proof -
  have "drop_bit i (drop_bit 35 c) AND 1 = of_bool (odd (drop_bit (i + 35) c))"
    by (simp only: drop_bit_drop_bit and_one_eq) (simp add: odd_iff_mod_2_eq_one mod2_eq_if)
  then show ?thesis by (simp add: bit_iff_odd_drop_bit)
qed

lemma fold_picked:
  "foldl (\<lambda>c (i, g). if P i then c XOR g else c) a (enumerate 0 [g0, g1, g2, g3, g4]) =
    a XOR (sel (P 0) g0 XOR sel (P 1) g1 XOR sel (P 2) g2 XOR sel (P 3) g3 XOR sel (P 4) (g4 :: u64))"
  by (simp add: sel_def xor.assoc eval_nat_numeral)

lemma polymod_step_eq: "polymod_step c d = push_bit 5 (c AND mask 35) XOR ucast d XOR picked c"
proof -
  have m: "(0x07ffffffff :: u64) = mask 35" by (simp add: mask_eq_exp_minus_1)
  have g: "polymod_generators = [polymod_generators ! 0, polymod_generators ! 1, polymod_generators ! 2,
      polymod_generators ! 3, polymod_generators ! 4]" by (simp add: polymod_generators_def)
  show ?thesis unfolding polymod_step_def Let_def m
    by (subst g) (simp only: fold_picked drop_bit_and_one picked_def, simp add: xor.assoc)
qed

lemma picked_xor: "picked (a XOR b) = picked a XOR picked b"
  by (simp add: picked_def bit_xor_iff sel_xor ac_simps)

lemma polymod_step_xor:
  "polymod_step (a XOR b) (d XOR e) = polymod_step a d XOR polymod_step b e"
proof -
  have "push_bit 5 ((a XOR b) AND mask 35) = push_bit 5 (a AND mask 35) XOR push_bit 5 (b AND mask 35)"
    by (rule bit_word_eqI) (auto simp: bit_simps)
  moreover have "(ucast (d XOR e) :: u64) = ucast d XOR ucast e" by (rule bit_word_eqI) (auto simp: bit_simps)
  ultimately show ?thesis by (simp only: polymod_step_eq picked_xor) (simp add: ac_simps)
qed

text \<open>The low five bits of the next state repeat the top five bits of the state.\<close>

lemma bit_picked_low:
  "bit (picked c) 0 = bit c 35" "bit (picked c) 1 = bit c 36" "bit (picked c) 2 = bit c 37"
  "bit (picked c) 3 = bit c 38" "bit (picked c) 4 = bit c 39"
proof -
  have g: "\<forall>i < 5. \<forall>j < 5. bit (polymod_generators ! i) j = (i = j)" by code_simp
  have s: "bit (sel b (polymod_generators ! i)) j = (b \<and> i = j)" if "i < 5" "j < 5" for b i j
    using g that by (simp add: sel_def)
  show "bit (picked c) 0 = bit c 35" "bit (picked c) 1 = bit c 36" "bit (picked c) 2 = bit c 37"
    "bit (picked c) 3 = bit c 38" "bit (picked c) 4 = bit c 39"
    by (simp_all add: picked_def bit_xor_iff s del: One_nat_def)
qed

lemma polymod_step_injective:
  assumes "drop_bit 40 c = 0" "polymod_step c 0 = 0"
  shows "c = 0"
proof -
  have z: "push_bit 5 (c AND mask 35) XOR picked c = 0" using assms(2) by (simp add: polymod_step_eq)
  have low: "\<not> bit (push_bit 5 (c AND mask 35)) k" if "k < 5" for k using that by (simp add: bit_simps)
  have p: "\<not> bit (picked c) k" if "k < 5" for k
    using arg_cong [OF z, of "\<lambda>w. bit w k"] low [OF that] by (simp add: bit_xor_iff)
  have top: "\<not> bit c 35" "\<not> bit c 36" "\<not> bit c 37" "\<not> bit c 38" "\<not> bit c 39"
    using p [of 0] p [of 1] p [of 2] p [of 3] p [of 4] bit_picked_low [of c] by simp_all
  then have "picked c = 0" by (simp add: picked_def sel_def)
  with z have m: "push_bit 5 (c AND mask 35) = 0" by simp
  show ?thesis
  proof (rule bit_word_eqI)
    fix k assume "k < LENGTH(64)"
    consider "k < 35" | "k \<in> {35, 36, 37, 38, 39}" | "40 \<le> k" by force
    then show "bit c k = bit 0 k"
    proof cases
      case 1
      then show ?thesis using arg_cong [OF m, of "\<lambda>w. bit w (k + 5)"] by (simp add: bit_simps)
    next
      case 2
      then show ?thesis using top by auto
    next
      case 3
      then show ?thesis using arg_cong [OF assms(1), of "\<lambda>w. bit w (k - 40)"] by (simp add: bit_simps)
    qed
  qed
qed

lemma drop_bit_zero_bit: "drop_bit n (w :: 'a :: len word) = 0 \<Longrightarrow> \<not> bit w (n + k)"
  by (metis bit_drop_bit_eq bit_0_eq bot_apply bot_bool_def comp_apply)

lemma word_xor_eq_zero: "(a :: 'a :: len word) XOR b = 0 \<longleftrightarrow> a = b"
proof
  assume z: "a XOR b = 0"
  show "a = b"
  proof (rule bit_word_eqI)
    fix k
    show "bit a k = bit b k" using arg_cong [OF z, of "\<lambda>w. bit w k"] by (simp add: bit_xor_iff)
  qed
qed simp

lemma word_xor_cancel: "(a :: 'a :: len word) XOR b = a XOR c \<longleftrightarrow> b = c"
proof
  assume e: "a XOR b = a XOR c"
  have "b = a XOR (a XOR b)" by (simp flip: xor.assoc)
  also have "\<dots> = c" unfolding e by (simp flip: xor.assoc)
  finally show "b = c" .
qed simp

lemma word_xor_cancel_right: "(b :: 'a :: len word) XOR a = c XOR a \<longleftrightarrow> b = c"
  using word_xor_cancel [of a b c] by (simp add: xor.commute)

lemma polymod_step_small: "drop_bit 40 (polymod_step c d) = 0"
proof (rule bit_word_eqI)
  fix k assume "k < LENGTH(64)"
  have g: "\<forall>g \<in> set polymod_generators. drop_bit 40 g = 0" by code_simp
  have s: "\<not> bit (sel b (polymod_generators ! i)) (40 + k)" if "i < 5" for b i
  proof -
    have "polymod_generators ! i \<in> set polymod_generators" using that by (intro nth_mem) (simp add: polymod_generators_def)
    with g have "drop_bit 40 (polymod_generators ! i) = 0" by blast
    then show ?thesis using drop_bit_zero_bit [of 40 "polymod_generators ! i" k] by (simp add: sel_def)
  qed
  then have "\<not> bit (picked c) (40 + k)" by (simp add: picked_def bit_xor_iff)
  moreover have "\<not> bit (ucast d :: u64) (40 + k)" by (auto simp: bit_simps dest: bit_imp_le_length)
  ultimately show "bit (drop_bit 40 (polymod_step c d)) k = bit 0 k"
    by (simp add: polymod_step_eq bit_simps)
qed

lemma polymod_fold_xor:
  "length v = length w \<Longrightarrow>
    foldl polymod_step (a XOR b) (map2 (XOR) v w) = foldl polymod_step a v XOR foldl polymod_step b w"
  by (induction v w arbitrary: a b rule: list_induct2) (simp_all add: polymod_step_xor)

text \<open>A difference in the state never dies out while the values agree.\<close>

lemma polymod_difference_persists:
  "c \<noteq> 0 \<Longrightarrow> drop_bit 40 c = 0 \<Longrightarrow> foldl polymod_step c (replicate n 0) \<noteq> 0"
proof (induction n arbitrary: c)
  case (Suc n)
  then have "polymod_step c 0 \<noteq> 0" using polymod_step_injective by blast
  with Suc.IH polymod_step_small show ?case by simp
qed simp

lemma polymod_suffix:
  assumes "foldl polymod_step a v \<noteq> foldl polymod_step a w" "v \<noteq> []" "w \<noteq> []"
  shows "foldl polymod_step a (v @ post) \<noteq> foldl polymod_step a (w @ post)"
proof
  assume eq: "foldl polymod_step a (v @ post) = foldl polymod_step a (w @ post)"
  let ?c = "foldl polymod_step a v XOR foldl polymod_step a w"
  have "map2 (XOR) post post = replicate (length post) (0 :: u8)" by (induction post) simp_all
  then have "foldl polymod_step ?c (replicate (length post) 0) = 0"
    using polymod_fold_xor [of post post "foldl polymod_step a v" "foldl polymod_step a w"] eq by simp
  moreover have "drop_bit 40 (foldl polymod_step a x) = 0" if "x \<noteq> []" for x
    using that by (cases x rule: rev_cases) (simp_all add: polymod_step_small)
  then have "drop_bit 40 ?c = 0" using assms(2,3) by (simp add: drop_bit_xor)
  moreover have "?c \<noteq> 0" using assms(1) by (simp add: word_xor_eq_zero)
  ultimately show False using polymod_difference_persists by blast
qed

lemma polymod_last_differs: "x \<noteq> y \<Longrightarrow> foldl polymod_step a (pre @ [x]) \<noteq> foldl polymod_step a (pre @ [y])"
proof
  assume xy: "x \<noteq> y" and eq: "foldl polymod_step a (pre @ [x]) = foldl polymod_step a (pre @ [y])"
  then have e: "(ucast x :: u64) = ucast y"
    by (simp add: polymod_step_eq word_xor_cancel word_xor_cancel_right)
  have "x = y"
  proof (rule bit_word_eqI)
    fix k assume "k < LENGTH(8)"
    then show "bit x k = bit y k" using arg_cong [OF e, of "\<lambda>w. bit w k"] by (simp add: bit_simps)
  qed
  with xy show False by simp
qed

lemma shifted_self_zero:
  assumes "push_bit 5 (e AND mask 35) = (e :: u64)"
  shows "e = 0"
proof (rule bit_word_eqI)
  fix k
  have "\<not> bit e k"
  proof (induction k rule: less_induct)
    case (less k)
    have "bit e k \<longleftrightarrow> bit (push_bit 5 (e AND mask 35)) k" unfolding assms ..
    then show ?case using less.IH [of "k - 5"] by (cases "5 \<le> k") (auto simp: bit_simps)
  qed
  then show "bit e k = bit 0 k" by simp
qed

lemma picked_byte: "picked (ucast (x :: u8)) = 0"
proof -
  have "\<not> bit (ucast x :: u64) k" if "8 \<le> k" for k using that by (auto simp: bit_simps dest: bit_imp_le_length)
  then show ?thesis by (simp add: picked_def sel_def)
qed

lemma ucast_u8_u64_zero: "(ucast (x :: u8) :: u64) = 0 \<Longrightarrow> x = 0"
proof (rule bit_word_eqI)
  fix k assume z: "(ucast x :: u64) = 0" and k: "k < LENGTH(8)"
  have "bit (ucast x :: u64) k = bit x k" using k by (simp add: bit_simps)
  with z show "bit x k = bit 0 k" by simp
qed

lemma polymod_swap_differs:
  assumes "x \<noteq> y"
  shows "foldl polymod_step a (pre @ [x, y]) \<noteq> foldl polymod_step a (pre @ [y, x])"
proof
  define s where "s = foldl polymod_step a pre"
  define e :: u64 where "e = ucast (x XOR y)"
  assume "foldl polymod_step a (pre @ [x, y]) = foldl polymod_step a (pre @ [y, x])"
  then have "polymod_step (polymod_step s x) y XOR polymod_step (polymod_step s y) x = 0"
    by (simp add: s_def)
  then have z: "polymod_step (polymod_step 0 (x XOR y)) (y XOR x) = 0"
    unfolding polymod_step_xor [symmetric] by simp
  have p: "picked e = 0" unfolding e_def by (rule picked_byte)
  have p0: "picked 0 = 0" by (simp add: picked_def sel_def)
  have e0: "polymod_step 0 (x XOR y) = e" by (simp add: polymod_step_eq p0 e_def)
  have u: "ucast (x XOR y) = e" by (simp only: e_def)
  have "polymod_step e (x XOR y) = push_bit 5 (e AND mask 35) XOR e"
    unfolding polymod_step_eq p u by (simp only: xor.right_neutral)
  then have "push_bit 5 (e AND mask 35) XOR e = 0"
    using z e0 by (simp only: xor.commute [of y x])
  then have "e = 0" using shifted_self_zero unfolding word_xor_eq_zero by blast
  then have "x XOR y = 0" unfolding e_def by (rule ucast_u8_u64_zero)
  with assms show False by (simp add: word_xor_eq_zero)
qed

end
