(* ===== verification/Nano_Pool.thy ===== *)
theory Nano_Pool
  imports Nano_Address
begin

text \<open>
  The solo pool, \<open>nano-pool/src/main.rs\<close>: templates fetched from the node, the merkle branch of the
  coinbase, the coinbase transaction, the job list with its refresher, the share difficulty
  controller, the connection of the device and the verdict on a share.

  The double SHA-256, block hash parsing (\<open>bitcoin\<close>), hexadecimal strings (\<open>hex\<close>), numbers of JSON
  values (\<open>serde_json\<close>) and the arithmetic of doubles are fields of an environment record. The
  answers of the node and the clock are arguments. The pool state is behind a lock that a handler
  takes several times; what other tasks do between two sections is the argument \<open>others\<close>.
  Results are options, \<open>None\<close> being a panic. Logging, the Discord notes and the statistics page are
  left out. Opening the channel is one section, the handler's own sections being adjacent there.
\<close>

section \<open>Environment\<close>

record 'd float_ops =
  fl_add :: "'d \<Rightarrow> 'd \<Rightarrow> 'd"
  fl_sub :: "'d \<Rightarrow> 'd \<Rightarrow> 'd"
  fl_mul :: "'d \<Rightarrow> 'd \<Rightarrow> 'd"
  fl_div :: "'d \<Rightarrow> 'd \<Rightarrow> 'd"
  fl_less :: "'d \<Rightarrow> 'd \<Rightarrow> bool"
  fl_less_eq :: "'d \<Rightarrow> 'd \<Rightarrow> bool"
  fl_eq :: "'d \<Rightarrow> 'd \<Rightarrow> bool"
  fl_floor :: "'d \<Rightarrow> 'd"
  fl_to_u64 :: "'d \<Rightarrow> u64"
  fl_of_u64 :: "u64 \<Rightarrow> 'd"
  fl_lit :: "rat \<Rightarrow> 'd"
  fl_pow2 :: "int \<Rightarrow> 'd"
  fl_secs :: "nat \<Rightarrow> 'd"

record ('d, 'n) pool_env = "'d float_ops" +
  sha256d :: "u8 list \<Rightarrow> hash256"
  hex_decode :: "string \<Rightarrow> u8 list option"
  hex_encode :: "u8 list \<Rightarrow> string"
  parse_block_id :: "string \<Rightarrow> hash256 option"
  show_block_id :: "hash256 \<Rightarrow> string"
  num_u64 :: "'n \<Rightarrow> u64 option"
  num_i64 :: "'n \<Rightarrow> 64 word option"

text \<open>\<open>f64::clamp\<close>.\<close>

definition fl_clamp :: "('d, 'm) float_ops_scheme \<Rightarrow> 'd \<Rightarrow> 'd \<Rightarrow> 'd \<Rightarrow> 'd" where
  "fl_clamp F x lo hi = (if fl_less F x lo then lo else if fl_less F hi x then hi else x)"

section \<open>Share difficulty\<close>

definition diff_to_target_le :: "('d, 'm) float_ops_scheme \<Rightarrow> 'd \<Rightarrow> u8 list" where
  "diff_to_target_le F d =
    (let d = fl_clamp F d (fl_lit F 1) (fl_pow2 F 48);
         q = fl_div F (fl_lit F 65535) d;
         iq = fl_to_u64 F (fl_floor F q);
         ff = fl_to_u64 F (fl_mul F (fl_sub F q (fl_floor F q)) (fl_pow2 F 64))
     in replicate 18 0 @ map (\<lambda>i. ucast (drop_bit (8 * i) ff AND 0xff)) [0..<8]
        @ [ucast (iq AND 0xff), ucast (drop_bit 8 iq AND 0xff)] @ replicate 4 0)"

text \<open>Times are nanoseconds.\<close>

record 'd vardiff =
  current_diff :: 'd
  rate_ema :: 'd
  shares_since :: u64
  last_retarget :: nat

definition vardiff_new :: "('d, 'm) float_ops_scheme \<Rightarrow> nat \<Rightarrow> 'd vardiff" where
  "vardiff_new F now = \<lparr>current_diff = fl_lit F 256, rate_ema = fl_lit F 0, shares_since = 0, last_retarget = now\<rparr>"

definition vardiff_clamp :: "('d, 'm) float_ops_scheme \<Rightarrow> 'd \<Rightarrow> 'd" where
  "vardiff_clamp F d = fl_clamp F d (fl_lit F 256) (fl_lit F 65536)"

section \<open>Merkle branch\<close>

text \<open>One level: pairs are hashed, an odd last node with itself.\<close>

fun hash_pairs :: "(u8 list \<Rightarrow> hash256) \<Rightarrow> hash256 list \<Rightarrow> hash256 list" where
  "hash_pairs sha (a # b # rest) = sha (a @ b) # hash_pairs sha rest"
| "hash_pairs sha [a] = [sha (a @ a)]"
| "hash_pairs sha [] = []"

lemma length_hash_pairs: "length (hash_pairs sha xs) = (length xs + 1) div 2"
  by (induction sha xs rule: hash_pairs.induct) simp_all

function coinbase_merkle_branch :: "(u8 list \<Rightarrow> hash256) \<Rightarrow> hash256 list \<Rightarrow> hash256 list" where
  "coinbase_merkle_branch sha level =
    (case level of
       _ # sibling # _ \<Rightarrow> sibling # coinbase_merkle_branch sha (hash_pairs sha level)
     | _ \<Rightarrow> [])"
  by auto

termination
  by (relation "measure (length \<circ> snd)") (auto simp: length_hash_pairs)

function merkle_digest :: "(u8 list \<Rightarrow> hash256) \<Rightarrow> hash256 list \<Rightarrow> hash256" where
  "merkle_digest sha level =
    (case level of
       _ # _ # _ \<Rightarrow> merkle_digest sha (hash_pairs sha level)
     | [r] \<Rightarrow> r
     | [] \<Rightarrow> replicate 32 0)"
  by auto

termination
  by (relation "measure (length \<circ> snd)") (auto simp: length_hash_pairs)

declare coinbase_merkle_branch.simps [simp del] merkle_digest.simps [simp del]

section \<open>Templates of the node\<close>

record node_template =
  tpl_job_id :: string
  tpl_height :: u64
  tpl_prev_hash :: hash256
  tpl_merkle_branch :: "hash256 list"
  tpl_coinbase_value :: u64
  tpl_bits :: u32
  tpl_min_ntime :: u32
  tpl_version :: u32

datatype template_error = Missing string | BadBlockId | BadBits | BadTxid

text \<open>Indexing a JSON value by a key; anything missing is null.\<close>

definition json_at :: "'n json \<Rightarrow> string \<Rightarrow> 'n json" where
  "json_at v k = (case v of JObject kvs \<Rightarrow> (case map_of kvs k of Some x \<Rightarrow> x | None \<Rightarrow> JNull) | _ \<Rightarrow> JNull)"

definition json_u64 :: "('d, 'n, 'm) pool_env_scheme \<Rightarrow> 'n json \<Rightarrow> u64 option" where
  "json_u64 E v = Option.bind (as_number v) (num_u64 E)"

definition json_i64 :: "('d, 'n, 'm) pool_env_scheme \<Rightarrow> 'n json \<Rightarrow> 64 word option" where
  "json_i64 E v = Option.bind (as_number v) (num_i64 E)"

text \<open>\<open>hex::decode_to_slice\<close> into 32 bytes.\<close>

definition hex_32 :: "('d, 'n, 'm) pool_env_scheme \<Rightarrow> string \<Rightarrow> hash256 option" where
  "hex_32 E s = (case hex_decode E s of Some bs \<Rightarrow> if length bs = 32 then Some bs else None | None \<Rightarrow> None)"

definition or_else :: "'a option \<Rightarrow> 'a \<Rightarrow> 'a" where
  "or_else x d = (case x of Some y \<Rightarrow> y | None \<Rightarrow> d)"

definition fetch_template_light :: "('d, 'n, 'm) pool_env_scheme \<Rightarrow> 'n json \<Rightarrow> template_error + node_template" where
  "fetch_template_light E t =
    (let branch = or_else (map_option (List.map_filter (\<lambda>h. Option.bind (as_str h) (hex_32 E))) (as_array (json_at t ''merkle''))) []
     in and_then (ok_or (Missing ''job_id'') (as_str (json_at t ''job_id''))) (\<lambda>job_id.
        and_then (ok_or (Missing ''height'') (json_u64 E (json_at t ''height''))) (\<lambda>height.
        and_then (ok_or (Missing ''previousblockhash'') (as_str (json_at t ''previousblockhash''))) (\<lambda>prev.
        and_then (ok_or BadBlockId (parse_block_id E prev)) (\<lambda>prev_hash.
        and_then (ok_or (Missing ''coinbasevalue'') (json_u64 E (json_at t ''coinbasevalue''))) (\<lambda>value.
        and_then (ok_or (Missing ''bits'') (as_str (json_at t ''bits''))) (\<lambda>bits_hex.
        and_then (ok_or BadBits (u32_from_hex bits_hex)) (\<lambda>bits.
          Inr \<lparr>tpl_job_id = job_id, tpl_height = height, tpl_prev_hash = prev_hash, tpl_merkle_branch = branch,
               tpl_coinbase_value = value, tpl_bits = bits,
               tpl_min_ntime = ucast (or_else (json_u64 E (json_at t ''mintime'')) 0),
               tpl_version = ucast (or_else (json_i64 E (json_at t ''version'')) 0x20000000)\<rparr>))))))))"

definition template_txid :: "('d, 'n, 'm) pool_env_scheme \<Rightarrow> 'n json \<Rightarrow> template_error + hash256" where
  "template_txid E tx =
    and_then (ok_or (Missing ''txid'') (as_str (json_at tx ''txid''))) (\<lambda>s.
      and_then (ok_or BadTxid (hex_32 E s)) (\<lambda>b. Inr (rev b)))"

definition fetch_template_std :: "('d, 'n, 'm) pool_env_scheme \<Rightarrow> 'n json \<Rightarrow> template_error + node_template" where
  "fetch_template_std E t =
    and_then (ok_or (Missing ''height'') (json_u64 E (json_at t ''height''))) (\<lambda>height.
    and_then (ok_or (Missing ''previousblockhash'') (as_str (json_at t ''previousblockhash''))) (\<lambda>prev.
    and_then (ok_or BadBlockId (parse_block_id E prev)) (\<lambda>prev_hash.
    and_then (ok_or (Missing ''bits'') (as_str (json_at t ''bits''))) (\<lambda>bits_hex.
    and_then (ok_or BadBits (u32_from_hex bits_hex)) (\<lambda>bits.
    and_then (ok_or (Missing ''version'') (json_i64 E (json_at t ''version''))) (\<lambda>version64.
    and_then (ok_or (Missing ''coinbasevalue'') (json_u64 E (json_at t ''coinbasevalue''))) (\<lambda>value.
    and_then (ok_or (Missing ''transactions'') (as_array (json_at t ''transactions''))) (\<lambda>txs.
    and_then (traverse_sum (template_txid E) txs) (\<lambda>ids.
      let version = ucast version64 :: u32;
          branch = map rev (coinbase_merkle_branch (sha256d E) ids);
          id_src = prev_hash @ to_le 4 version @ to_le 4 bits @ to_le 8 value @ merkle_digest (sha256d E) ids
      in Inr \<lparr>tpl_job_id = hex_encode E (sha256d E id_src), tpl_height = height, tpl_prev_hash = prev_hash,
              tpl_merkle_branch = branch, tpl_coinbase_value = value, tpl_bits = bits,
              tpl_min_ntime = ucast (or_else (json_u64 E (json_at t ''mintime'')) 0),
              tpl_version = version\<rparr>)))))))))"

section \<open>The coinbase transaction\<close>

text \<open>\<open>0x50 + height as u8\<close> for small heights; otherwise the little-endian bytes without the trailing zeros.\<close>

definition significant_bytes :: "u8 list \<Rightarrow> u8 list" where
  "significant_bytes bs = rev (dropWhile (\<lambda>b. b = 0) (rev bs))"

definition bip34_push :: "u64 \<Rightarrow> u8 list" where
  "bip34_push height =
    (if height \<le> 16 then [0x50 + ucast height]
     else let bs = significant_bytes (to_le 8 height) in word_of_nat (length bs) # bs)"

definition script_sig_len :: nat where
  "script_sig_len = 96"

record pool_config =
  cfg_payout_pkh :: "u8 list"
  cfg_worker_tag :: "u8 list"
  cfg_extranonce_base :: "u8 list"

record coinbase_parts =
  cb_prefix :: "u8 list"
  cb_suffix :: "u8 list"

text \<open>A tag that leaves no room makes the subtraction panic.\<close>

definition build_coinbase :: "node_template \<Rightarrow> pool_config \<Rightarrow> coinbase_parts option" where
  "build_coinbase tpl cfg =
    (let height_push = bip34_push (tpl_height tpl);
         tag = cfg_worker_tag cfg;
         used = length height_push + 1 + length tag + (10 + 8)
     in if used \<le> script_sig_len then Some \<lparr>
          cb_prefix = to_le 4 (2 :: u32) @ [1] @ replicate 32 0 @ to_le 4 (0xffffffff :: u32)
            @ [word_of_nat script_sig_len] @ height_push @ [word_of_nat (length tag)] @ tag
            @ replicate (script_sig_len - used) 0,
          cb_suffix = to_le 4 (0xffffffff :: u32) @ [1] @ to_le 8 (tpl_coinbase_value tpl) @ [25]
            @ [0x76, 0xa9, 0x14] @ cfg_payout_pkh cfg @ [0x88, 0xac] @ to_le 4 (0 :: u32)\<rparr>
        else None)"

section \<open>Jobs and messages\<close>

record pool_job =
  pj_id :: u32
  pj_node_job_id :: string
  pj_version :: u32
  pj_merkle_branch :: "hash256 list"
  pj_coinbase :: coinbase_parts
  pj_extranonce_prefix :: "u8 list"
  pj_extranonce_size :: u16
  pj_min_ntime :: u32
  pj_bits :: u32
  pj_height :: u64
  pj_prev_hash :: hash256

record new_job =
  nj_job_id :: u32
  nj_min_ntime :: "u32 option"
  nj_version :: u32
  nj_merkle_path :: "hash256 list"
  nj_prefix :: "u8 list"
  nj_suffix :: "u8 list"

record set_prev_hash =
  ph_job_id :: u32
  ph_prev_hash :: hash256
  ph_min_ntime :: u32
  ph_bits :: u32

datatype outgoing = OutJob new_job | OutPrevHash set_prev_hash | OutTarget "u8 list"

datatype pool_message =
  SetupSuccess
| ChannelOpened u32 "u8 list" u16 "u8 list"
| Push outgoing
| ShareError u32 u32 string
| ShareSuccess u32 u32 u32

record submit_shares =
  ss_channel_id :: u32
  ss_sequence :: u32
  ss_job_id :: u32
  ss_nonce :: u32
  ss_ntime :: u32
  ss_version :: u32
  ss_extranonce :: "u8 list"

definition make_job :: "node_template \<Rightarrow> pool_config \<Rightarrow> u32 \<Rightarrow> pool_job option" where
  "make_job tpl cfg sv2_id =
    (case build_coinbase tpl cfg of
       None \<Rightarrow> None
     | Some cb \<Rightarrow> Some \<lparr>pj_id = sv2_id, pj_node_job_id = tpl_job_id tpl, pj_version = tpl_version tpl,
         pj_merkle_branch = tpl_merkle_branch tpl, pj_coinbase = cb, pj_extranonce_prefix = [],
         pj_extranonce_size = 8, pj_min_ntime = tpl_min_ntime tpl, pj_bits = tpl_bits tpl,
         pj_height = tpl_height tpl, pj_prev_hash = tpl_prev_hash tpl\<rparr>)"

text \<open>The three \<open>expect\<close>s: at most 255 nodes, coinbase parts below 64 kB.\<close>

definition to_sv2_messages :: "pool_job \<Rightarrow> (new_job \<times> set_prev_hash) option" where
  "to_sv2_messages job =
    (if length (pj_merkle_branch job) \<le> 255 \<and> length (cb_prefix (pj_coinbase job)) \<le> 65535
        \<and> length (cb_suffix (pj_coinbase job)) \<le> 65535
     then Some (\<lparr>nj_job_id = pj_id job, nj_min_ntime = None, nj_version = pj_version job,
                 nj_merkle_path = pj_merkle_branch job, nj_prefix = cb_prefix (pj_coinbase job),
                 nj_suffix = cb_suffix (pj_coinbase job)\<rparr>,
                \<lparr>ph_job_id = pj_id job, ph_prev_hash = pj_prev_hash job, ph_min_ntime = pj_min_ntime job,
                 ph_bits = pj_bits job\<rparr>)
     else None)"

section \<open>Pool state\<close>

record 'd pool_state =
  ps_cfg :: pool_config
  ps_next_job_id :: u32
  ps_active :: "pool_job option"
  ps_past_jobs :: "pool_job list"
  ps_shares_ok :: u64
  ps_last_prev :: string
  ps_best_diff :: 'd
  ps_block_found :: bool
  ps_last_block_result :: string
  ps_node_height :: u64
  ps_device_hashrate :: 'd
  ps_share_times :: "(nat \<times> 'd) list"
  ps_device_connected :: bool
  ps_vardiff :: "'d vardiff"
  ps_accepted :: u32

definition pool_new :: "('d, 'm) float_ops_scheme \<Rightarrow> pool_config \<Rightarrow> nat \<Rightarrow> 'd pool_state" where
  "pool_new F cfg now =
    \<lparr>ps_cfg = cfg, ps_next_job_id = 1, ps_active = None, ps_past_jobs = [], ps_shares_ok = 0, ps_last_prev = [],
     ps_best_diff = fl_lit F 0, ps_block_found = False, ps_last_block_result = ''none yet'', ps_node_height = 0,
     ps_device_hashrate = fl_lit F 0, ps_share_times = [], ps_device_connected = False,
     ps_vardiff = vardiff_new F now, ps_accepted = 0\<rparr>"

definition target_le :: "('d, 'm) float_ops_scheme \<Rightarrow> 'd pool_state \<Rightarrow> u8 list" where
  "target_le F st = diff_to_target_le F (current_diff (ps_vardiff st))"

text \<open>The active job goes to the past ones, of which the last sixteen are kept.\<close>

definition retire_active :: "'d pool_state \<Rightarrow> 'd pool_state" where
  "retire_active st =
    (case ps_active st of
       None \<Rightarrow> st
     | Some old \<Rightarrow>
         (let past = ps_past_jobs st @ [old]
          in st\<lparr>ps_active := None, ps_past_jobs := drop (length past - 16) past\<rparr>))"

text \<open>One round of the template refresher, with the template fetched.\<close>

definition refresh_template ::
  "('d, 'n, 'm) pool_env_scheme \<Rightarrow> node_template \<Rightarrow> 'd pool_state \<Rightarrow> ('d pool_state \<times> outgoing list) option" where
  "refresh_template E tpl st =
    (if (case ps_active st of Some a \<Rightarrow> pj_node_job_id a = tpl_job_id tpl | None \<Rightarrow> False) then Some (st, [])
     else
       let new_tip = ps_last_prev st \<noteq> show_block_id E (tpl_prev_hash tpl);
           prefix = (case ps_active st of Some a \<Rightarrow> pj_extranonce_prefix a | None \<Rightarrow> cfg_extranonce_base (ps_cfg st))
       in case add_chk (ps_next_job_id st) 1 of
            None \<Rightarrow> None
          | Some next_id \<Rightarrow>
              (case make_job tpl (ps_cfg st) (ps_next_job_id st) of
                 None \<Rightarrow> None
               | Some j \<Rightarrow>
                   (let job = j\<lparr>pj_extranonce_prefix := prefix\<rparr>;
                        st1 = st\<lparr>ps_last_prev := show_block_id E (tpl_prev_hash tpl), ps_next_job_id := next_id\<rparr>
                    in case to_sv2_messages job of
                         None \<Rightarrow> None
                       | Some (nj, ph) \<Rightarrow>
                           (let st2 = (if new_tip then st1\<lparr>ps_node_height := tpl_height tpl, ps_past_jobs := []\<rparr> else st1);
                                out = (if new_tip then [OutJob nj, OutPrevHash ph]
                                       else [OutJob (nj\<lparr>nj_min_ntime := Some (pj_min_ntime job)\<rparr>)])
                            in Some ((retire_active st2)\<lparr>ps_active := Some job\<rparr>, out)))))"

section \<open>The verdict on a share\<close>

text \<open>Comparison of byte slices.\<close>

fun bytes_less :: "u8 list \<Rightarrow> u8 list \<Rightarrow> bool" where
  "bytes_less [] ys = (ys \<noteq> [])"
| "bytes_less (x # xs) [] = False"
| "bytes_less (x # xs) (y # ys) = (x < y \<or> x = y \<and> bytes_less xs ys)"

text \<open>\<open>u8::leading_zeros\<close> and the zero bits of a big-endian hash.\<close>

definition byte_leading_zeros :: "u8 \<Rightarrow> nat" where
  "byte_leading_zeros b = length (takeWhile (\<lambda>i. \<not> bit b i) (rev [0..<8]))"

fun leading_zero_bits :: "u8 list \<Rightarrow> nat" where
  "leading_zero_bits [] = 0"
| "leading_zero_bits (b # bs) = (if b = 0 then 8 + leading_zero_bits bs else byte_leading_zeros b)"

text \<open>The three mantissa bytes at \<open>32 - exp\<close>, those that fall outside being dropped.\<close>

definition bits_to_target_be :: "u32 \<Rightarrow> u8 list" where
  "bits_to_target_be b =
    (let e = unat (drop_bit 24 b);
         m = [ucast (drop_bit 16 b AND 0xff), ucast (drop_bit 8 b AND 0xff), ucast (b AND 0xff)] :: u8 list
     in foldl (\<lambda>t (i, x). if e \<le> 32 then t[32 - e + i := x] else t) (replicate 32 0) (enumerate 0 m))"

definition find_job :: "u32 \<Rightarrow> 'd pool_state \<Rightarrow> pool_job option" where
  "find_job jid st =
    (case ps_active st of
       Some a \<Rightarrow> if pj_id a = jid then Some a else List.find (\<lambda>j. pj_id j = jid) (ps_past_jobs st)
     | None \<Rightarrow> List.find (\<lambda>j. pj_id j = jid) (ps_past_jobs st))"

definition share_coinbase :: "pool_job \<Rightarrow> submit_shares \<Rightarrow> u8 list" where
  "share_coinbase job m =
    cb_prefix (pj_coinbase job) @ pj_extranonce_prefix job @ ss_extranonce m @ cb_suffix (pj_coinbase job)"

definition share_root :: "(u8 list \<Rightarrow> hash256) \<Rightarrow> pool_job \<Rightarrow> submit_shares \<Rightarrow> hash256" where
  "share_root sha job m = foldl (\<lambda>r node. sha (r @ node)) (sha (share_coinbase job m)) (pj_merkle_branch job)"

definition share_header :: "(u8 list \<Rightarrow> hash256) \<Rightarrow> pool_job \<Rightarrow> submit_shares \<Rightarrow> u8 list" where
  "share_header sha job m =
    to_le 4 (ss_version m) @ pj_prev_hash job @ share_root sha job m @ to_le 4 (ss_ntime m)
      @ to_le 4 (pj_bits job) @ to_be 4 (ss_nonce m)"

text \<open>Best share and the ten-minute window of share times, at most 8192 long.\<close>

definition window_keeps :: "nat \<Rightarrow> (nat \<times> 'd) list \<Rightarrow> bool" where
  "window_keeps now w \<longleftrightarrow> w = [] \<or> (now - fst (hd w)) div 10 ^ 9 \<le> 600 \<and> length w \<le> 8192"

fun trim_window :: "nat \<Rightarrow> (nat \<times> 'd) list \<Rightarrow> (nat \<times> 'd) list" where
  "trim_window now [] = []"
| "trim_window now (x # w) = (if window_keeps now (x # w) then x # w else trim_window now w)"

definition record_best :: "('d, 'm) float_ops_scheme \<Rightarrow> nat \<Rightarrow> u8 list \<Rightarrow> 'd pool_state \<Rightarrow> 'd pool_state" where
  "record_best F now hash_be st =
    (let d = fl_pow2 F (int (leading_zero_bits hash_be) - 32)
     in st\<lparr>ps_best_diff := (if fl_less F (ps_best_diff st) d then d else ps_best_diff st),
           ps_share_times := trim_window now (ps_share_times st @ [(now, d)])\<rparr>)"

text \<open>The controller: its new state and whether the device is told.\<close>

definition vardiff_share :: "('d, 'm) float_ops_scheme \<Rightarrow> nat \<Rightarrow> 'd vardiff \<Rightarrow> ('d vardiff \<times> bool) option" where
  "vardiff_share F now vd =
    (case add_chk (shares_since vd) 1 of
       None \<Rightarrow> None
     | Some n \<Rightarrow>
         (let elapsed = fl_secs F (now - last_retarget vd)
          in if fl_less_eq F (fl_lit F 120) elapsed then
               (let rate = fl_div F (fl_of_u64 F n) elapsed;
                    ema = (if fl_eq F (rate_ema vd) (fl_lit F 0) then rate
                           else fl_add F (fl_mul F (fl_lit F (1 / 2)) (rate_ema vd)) (fl_mul F (fl_lit F (1 / 2)) rate));
                    new_diff = vardiff_clamp F (fl_div F (fl_mul F (current_diff vd) ema) (fl_lit F 1));
                    ratio = fl_div F new_diff (current_diff vd);
                    fire = fl_less F (fl_lit F 0) ema \<and> fl_less F (fl_lit F 30) elapsed \<and>
                      (fl_less_eq F (fl_lit F (3 / 2)) ratio \<or>
                       fl_less_eq F ratio (fl_div F (fl_lit F 1) (fl_lit F (3 / 2))))
                in Some (\<lparr>current_diff = new_diff, rate_ema = ema, shares_since = 0, last_retarget = now\<rparr>, fire))
             else Some (vd\<lparr>shares_since := n\<rparr>, False)))"

text \<open>The section of the handler around it: a retarget re-issues the active job under a new id.\<close>

definition vardiff_section ::
  "('d, 'm) float_ops_scheme \<Rightarrow> nat \<Rightarrow> 'd pool_state \<Rightarrow> ('d pool_state \<times> outgoing list) option" where
  "vardiff_section F now st =
    (case vardiff_share F now (ps_vardiff st) of
       None \<Rightarrow> None
     | Some (vd, fire) \<Rightarrow>
         (let st1 = st\<lparr>ps_vardiff := vd\<rparr>
          in if \<not> fire then Some (st1, [])
             else let target = OutTarget (diff_to_target_le F (current_diff vd))
                  in case ps_active st1 of
                       None \<Rightarrow> Some (st1, [target])
                     | Some a \<Rightarrow>
                         (case add_chk (ps_next_job_id st1) 1 of
                            None \<Rightarrow> None
                          | Some next_id \<Rightarrow>
                              (let job = a\<lparr>pj_id := ps_next_job_id st1\<rparr>
                               in case to_sv2_messages job of
                                    None \<Rightarrow> None
                                  | Some (nj, _) \<Rightarrow>
                                      Some ((retire_active st1)\<lparr>ps_next_job_id := next_id, ps_active := Some job\<rparr>,
                                            [target, OutJob (nj\<lparr>nj_min_ntime := Some (pj_min_ntime job)\<rparr>)])))))"

datatype block_answer = Accepted | Rejected string | Failed string

fun block_result :: "block_answer \<Rightarrow> string" where
  "block_result Accepted = ''ACCEPTED''"
| "block_result (Rejected v) = ''rejected: '' @ v"
| "block_result (Failed e) = ''submit failed: '' @ e"

datatype share_effect = Reply pool_message | Broadcast outgoing | SubmitBlock "u8 list" string

text \<open>A block candidate: the block submitted and what the state remembers of it.\<close>

definition submit_block ::
  "(nat \<Rightarrow> 'd pool_state \<Rightarrow> 'd pool_state) \<Rightarrow> block_answer \<Rightarrow> pool_job \<Rightarrow> u8 list \<Rightarrow> u8 list \<Rightarrow> 'd pool_state
    \<Rightarrow> 'd pool_state \<times> share_effect list" where
  "submit_block others answer job header coinbase st =
    ((others 4 ((others 3 st)\<lparr>ps_block_found := True\<rparr>))\<lparr>ps_last_block_result := block_result answer\<rparr>,
     [SubmitBlock (header @ [1] @ coinbase) (pj_node_job_id job)])"

text \<open>Bookkeeping and the reply; the process-wide counter is read back incremented.\<close>

definition count_share :: "submit_shares \<Rightarrow> 'd pool_state \<Rightarrow> ('d pool_state \<times> pool_message) option" where
  "count_share m st =
    (case (add_chk (ps_shares_ok st) 1, add_chk (ps_accepted st) 1) of
       (Some n, Some cnt) \<Rightarrow>
         Some (st\<lparr>ps_shares_ok := n, ps_accepted := cnt\<rparr>, ShareSuccess (ss_channel_id m) (ss_sequence m) cnt)
     | _ \<Rightarrow> None)"

text \<open>
  The handler. \<open>others i\<close> is what the other tasks do to the state before the \<open>i\<close>-th section,
  \<open>clock i\<close> the two readings of the clock and \<open>answer\<close> the node's answer to a block.
\<close>

definition pool_handle_share ::
  "('d, 'n, 'm) pool_env_scheme \<Rightarrow> (nat \<Rightarrow> 'd pool_state \<Rightarrow> 'd pool_state) \<Rightarrow> (nat \<Rightarrow> nat) \<Rightarrow> block_answer
    \<Rightarrow> submit_shares \<Rightarrow> 'd pool_state \<Rightarrow> ('d pool_state \<times> share_effect list) option" where
  "pool_handle_share E others clock answer m st0 =
    (case find_job (ss_job_id m) st0 of
       None \<Rightarrow> Some (st0, [Reply (ShareError (ss_channel_id m) (ss_sequence m) ''job-not-found'')])
     | Some job \<Rightarrow>
         (let header = share_header (sha256d E) job m;
              hash_be = rev (sha256d E header);
              st1 = others 0 st0
          in if bytes_less (rev (target_le E st1)) hash_be
             then Some (st1, [Reply (ShareError (ss_channel_id m) (ss_sequence m) ''difficulty-too-low'')])
             else
               let st2 = record_best E (clock 0) hash_be (others 1 st1)
               in case vardiff_section E (clock 1) (others 2 st2) of
                    None \<Rightarrow> None
                  | Some (st3, outs) \<Rightarrow>
                      (let (st4, blocks) =
                         (if \<not> bytes_less (bits_to_target_be (pj_bits job)) hash_be
                          then submit_block others answer job header (share_coinbase job m) st3 else (st3, []))
                       in map_option (\<lambda>(st5, reply). (st5, map Broadcast outs @ blocks @ [Reply reply]))
                            (count_share m (others 5 st4)))))"

section \<open>The connection of the device\<close>

datatype 'd device_message =
  DSetup bool u32 | DSetupError string | DOpenChannel u32 'd | DSubmit submit_shares | DUpdateChannel 'd | DOther

datatype downstream_error = NotMining | DeviceRejected string | OpenBeforeSetup | NoTemplate | PrefixTooLong

record connection =
  setup_done :: bool
  channel_open :: bool

definition connection_new :: connection where
  "connection_new = \<lparr>setup_done = False, channel_open = False\<rparr>"

text \<open>A push from the broadcast channel is forwarded once the channel is open; lost messages are skipped.\<close>

definition forward_push :: "connection \<Rightarrow> outgoing option \<Rightarrow> share_effect list" where
  "forward_push c out =
    (case out of Some x \<Rightarrow> if channel_open c then [Reply (Push x)] else [] | None \<Rightarrow> [])"

definition seed_vardiff :: "('d, 'm) float_ops_scheme \<Rightarrow> nat \<Rightarrow> 'd \<Rightarrow> 'd pool_state \<Rightarrow> 'd pool_state" where
  "seed_vardiff F now rate st =
    (let vd = ps_vardiff st;
         d = (if fl_less_eq F (fl_lit F (10 ^ 12)) rate
              then vardiff_clamp F (fl_div F (fl_div F rate (fl_lit F 1)) (fl_pow2 F 32))
              else current_diff vd)
     in st\<lparr>ps_device_hashrate := rate, ps_vardiff := vd\<lparr>current_diff := d, shares_since := 0, last_retarget := now\<rparr>\<rparr>)"

definition channel_prefix :: "pool_config \<Rightarrow> u8 list" where
  "channel_prefix cfg = cfg_extranonce_base cfg @ to_be 4 (1 :: u32)"

text \<open>
  Opening the channel: the difficulty is seeded, the prefix latched onto the active job and the
  current job pushed. An error ends the connection, a panic is \<open>None\<close>.
\<close>

definition open_channel ::
  "('d, 'm) float_ops_scheme \<Rightarrow> nat \<Rightarrow> u32 \<Rightarrow> 'd \<Rightarrow> connection \<Rightarrow> 'd pool_state
    \<Rightarrow> (downstream_error + connection \<times> share_effect list) option \<times> 'd pool_state" where
  "open_channel F now request rate c st =
    (if \<not> setup_done c then (Some (Inl OpenBeforeSetup), st)
     else
       let st1 = seed_vardiff F now rate st;
           prefix = channel_prefix (ps_cfg st1)
       in case ps_active st1 of
            None \<Rightarrow> (Some (Inl NoTemplate), st1)
          | Some a \<Rightarrow>
              if 32 < length prefix then (Some (Inl PrefixTooLong), st1)
              else
                let job = a\<lparr>pj_extranonce_prefix := prefix, pj_extranonce_size := 8\<rparr>;
                    st2 = st1\<lparr>ps_active := Some job\<rparr>;
                    opened = Reply (ChannelOpened request (target_le F st1) 8 prefix)
                in case to_sv2_messages job of
                     None \<Rightarrow> (None, st2)
                   | Some (nj, ph) \<Rightarrow>
                       (Some (Inr (c\<lparr>channel_open := True\<rparr>, [opened, Reply (Push (OutJob nj)), Reply (Push (OutPrevHash ph))])), st2))"

definition handle_device_message ::
  "('d, 'n, 'm) pool_env_scheme \<Rightarrow> (nat \<Rightarrow> 'd pool_state \<Rightarrow> 'd pool_state) \<Rightarrow> (nat \<Rightarrow> nat) \<Rightarrow> block_answer
    \<Rightarrow> 'd device_message \<Rightarrow> connection \<Rightarrow> 'd pool_state
    \<Rightarrow> (downstream_error + connection \<times> share_effect list) option \<times> 'd pool_state" where
  "handle_device_message E others clock answer msg c st =
    (case msg of
       DSetup mining flags \<Rightarrow>
         if mining then (Some (Inr (c\<lparr>setup_done := True\<rparr>, [Reply SetupSuccess])), st\<lparr>ps_device_connected := True\<rparr>)
         else (Some (Inl NotMining), st)
     | DSetupError e \<Rightarrow> (Some (Inl (DeviceRejected e)), st)
     | DOpenChannel request rate \<Rightarrow> open_channel E (clock 0) request rate c st
     | DSubmit m \<Rightarrow>
         (case pool_handle_share E others clock answer m st of
            None \<Rightarrow> (None, st)
          | Some (st', effs) \<Rightarrow> (Some (Inr (c, effs)), st'))
     | DUpdateChannel rate \<Rightarrow> (Some (Inr (c, [])), st\<lparr>ps_device_hashrate := rate\<rparr>)
     | DOther \<Rightarrow> (Some (Inr (c, [])), st))"

end
