(* ===== verification/Nano_Address_Properties.thy ===== *)
theory Nano_Address_Properties
  imports Nano_Address
begin

text \<open>
  What the two address decoders of the solo pool guarantee: the cashaddr checksum catches every
  single wrong or swapped character, and the base58check decoder accepts exactly the standard
  encodings. The witness of the first is the golden address of the program's own tests.
\<close>

section \<open>Wrong characters\<close>

lemma position_Some: "position x xs = Some i \<Longrightarrow> i < length xs \<and> xs ! i = x"
  by (induction xs arbitrary: i) (auto split: if_splits)

lemma position_inject: "position x xs = Some i \<Longrightarrow> position y xs = Some i \<Longrightarrow> x = y"
  using position_Some by metis

abbreviation charset_value :: "u8 \<Rightarrow> address_error + u8" where
  "charset_value c \<equiv>
    (case position c cashaddr_charset of None \<Rightarrow> Inl (BadCashaddrChar c) | Some i \<Rightarrow> Inr (word_of_nat i))"

lemma charset_value_inject:
  assumes "charset_value c = Inr v" "charset_value d = Inr v"
  shows "c = d"
proof -
  obtain i j where ij: "position c cashaddr_charset = Some i" "position d cashaddr_charset = Some j"
      "(word_of_nat i :: u8) = word_of_nat j"
    using assms by (auto split: option.splits)
  have len: "length cashaddr_charset = 32" by (simp add: cashaddr_charset_def bytes_def)
  have "i < 32" "j < 32" using position_Some [OF ij(1)] position_Some [OF ij(2)] len by simp_all
  then have "i = j" using ij(3) by (simp add: word_of_nat_eq_iff take_bit_nat_eq_self)
  then show ?thesis using position_inject [of c cashaddr_charset i d] ij by simp
qed

lemma traverse_sum_append_Cons:
  "traverse_sum f (xs @ x # ys) = Inr vs \<longleftrightarrow>
    (\<exists>us v ws. vs = us @ v # ws \<and> traverse_sum f xs = Inr us \<and> f x = Inr v \<and> traverse_sum f ys = Inr ws)"
proof (induction xs arbitrary: vs)
  case Nil
  then show ?case by (auto simp: and_then_def split: sum.splits)
next
  case (Cons z zs)
  show ?case
  proof
    assume "traverse_sum f ((z # zs) @ x # ys) = Inr vs"
    then obtain y vs' where y: "f z = Inr y" "vs = y # vs'" "traverse_sum f (zs @ x # ys) = Inr vs'"
      by (auto simp: and_then_def split: sum.splits)
    then obtain us v ws where "vs' = us @ v # ws" "traverse_sum f zs = Inr us" "f x = Inr v"
        "traverse_sum f ys = Inr ws"
      using Cons.IH by blast
    with y have "vs = (y # us) @ v # ws \<and> traverse_sum f (z # zs) = Inr (y # us) \<and> f x = Inr v \<and>
        traverse_sum f ys = Inr ws"
      by (simp add: and_then_def)
    then show "\<exists>us v ws. vs = us @ v # ws \<and> traverse_sum f (z # zs) = Inr us \<and> f x = Inr v \<and>
        traverse_sum f ys = Inr ws"
      by blast
  next
    assume "\<exists>us v ws. vs = us @ v # ws \<and> traverse_sum f (z # zs) = Inr us \<and> f x = Inr v \<and>
        traverse_sum f ys = Inr ws"
    then obtain y us v ws where "vs = y # us @ v # ws" "f z = Inr y" "traverse_sum f zs = Inr us"
        "f x = Inr v" "traverse_sum f ys = Inr ws"
      by (auto simp: and_then_def split: sum.splits)
    moreover from this have "traverse_sum f (zs @ x # ys) = Inr (us @ v # ws)" using Cons.IH by blast
    ultimately show "traverse_sum f ((z # zs) @ x # ys) = Inr vs" by (simp add: and_then_def)
  qed
qed

lemma cashaddr_accepted:
  "cashaddr_decode hrp data = Inr h \<Longrightarrow>
    \<exists>vs. cashaddr_values data = Inr vs \<and> cashaddr_polymod (poly_input hrp vs) = 0"
  by (auto simp: cashaddr_decode_def and_then_def Let_def split: sum.splits if_splits)

text \<open>Two value strings that agree after a first difference cannot both have checksum zero.\<close>

lemma checksums_differ:
  assumes "cashaddr_polymod (poly_input hrp (pre @ v @ post)) = 0"
    and "\<And>a. foldl polymod_step a v \<noteq> foldl polymod_step a w" "v \<noteq> []" "w \<noteq> []"
  shows "cashaddr_polymod (poly_input hrp (pre @ w @ post)) \<noteq> 0"
proof
  assume z: "cashaddr_polymod (poly_input hrp (pre @ w @ post)) = 0"
  define a where "a = foldl polymod_step 1 (poly_input hrp pre)"
  have split: "cashaddr_polymod (poly_input hrp (pre @ u @ post)) = foldl polymod_step a (u @ post) XOR 1" for u
    by (simp add: cashaddr_polymod_def poly_input_def a_def)
  from assms(1) z have "foldl polymod_step a (v @ post) = foldl polymod_step a (w @ post)"
    unfolding split by (simp add: word_xor_eq_zero)
  with polymod_suffix [OF assms(2-4)] show False by blast
qed

text \<open>
  C18: The checksum catches every single typing error. If the pool accepts a cashaddr payout
  address, then it refuses the address with one character replaced by another (upper and lower case
  of a letter being the same character), and with two different neighbouring characters swapped.
\<close>

theorem cashaddr_detects_typo:
  assumes "cashaddr_decode hrp (pre @ a # post) = Inr h" and "lower_byte b \<noteq> lower_byte a"
  shows "isl (cashaddr_decode hrp (pre @ b # post)) \<and>
    (\<forall>rest. post = b # rest \<longrightarrow> isl (cashaddr_decode hrp (pre @ b # a # rest)))"
proof (intro conjI allI impI)
  obtain us v ws where old: "traverse_sum charset_value (map lower_byte pre) = Inr us"
      "charset_value (lower_byte a) = Inr v" "traverse_sum charset_value (map lower_byte post) = Inr ws"
      "cashaddr_polymod (poly_input hrp (us @ [v] @ ws)) = 0"
    using cashaddr_accepted [OF assms(1)] by (auto simp: cashaddr_values_def traverse_sum_append_Cons)
  have new: "v \<noteq> w" if "charset_value (lower_byte b) = Inr w" for w
    using that old(2) assms(2) charset_value_inject by blast
  show "isl (cashaddr_decode hrp (pre @ b # post))"
  proof (cases "cashaddr_decode hrp (pre @ b # post)")
    case (Inr h')
    from cashaddr_accepted [OF this] old(1,3) obtain w where
        w: "charset_value (lower_byte b) = Inr w" "cashaddr_polymod (poly_input hrp (us @ [w] @ ws)) = 0"
      by (auto simp: cashaddr_values_def traverse_sum_append_Cons)
    from checksums_differ [OF old(4), of "[w]"] polymod_last_differs [OF new [OF w(1)], where pre = "[]"] w(2)
    show ?thesis by simp
  qed simp
  fix rest assume post: "post = b # rest"
  obtain w xs where ws: "ws = w # xs" "charset_value (lower_byte b) = Inr w"
      "traverse_sum charset_value (map lower_byte rest) = Inr xs"
    using old(3) traverse_sum_append_Cons [of charset_value "[]"] unfolding post by auto
  show "isl (cashaddr_decode hrp (pre @ b # a # rest))"
  proof (cases "cashaddr_decode hrp (pre @ b # a # rest)")
    case (Inr h')
    from cashaddr_accepted [OF this] old(1,2) ws(2,3) have
        "cashaddr_polymod (poly_input hrp (us @ [w, v] @ xs)) = 0"
      using traverse_sum_append_Cons [of charset_value "[]"]
      by (auto simp: cashaddr_values_def traverse_sum_append_Cons)
    moreover have "cashaddr_polymod (poly_input hrp (us @ [v, w] @ xs)) = 0" using old(4) ws(1) by simp
    ultimately show ?thesis
      using checksums_differ [of hrp us "[v, w]" xs "[w, v]"] polymod_swap_differs [OF new [OF ws(2)], where pre = "[]"]
      by simp
  qed simp
qed
theorem cashaddr_detects_typo_witness:
  "lower_byte 99 \<noteq> lower_byte 114 \<and>
   isl (cashaddr_decode (bytes ''bchreg'') (bytes ''q'' @ 99 # bytes ''cek9wqa9qwudcsnaffx3x9zcypsq07tgr6nylczg'')) \<and>
   isl (cashaddr_decode (bytes ''bchreg'') (bytes ''q'' @ 99 # 114 # bytes ''ek9wqa9qwudcsnaffx3x9zcypsq07tgr6nylczg''))"
proof -
  have ok: "cashaddr_decode (bytes ''bchreg'') (bytes ''q'' @ 114 # bytes ''cek9wqa9qwudcsnaffx3x9zcypsq07tgr6nylczg'') =
      Inr [0xf1, 0x9b, 0x15, 0xc0, 0xe9, 0x40, 0xee, 0x37, 0x10, 0x9f, 0x52, 0x93, 0x44, 0xc5, 0x16, 0x08,
        0x18, 0x01, 0xfe, 0x5a]"
    by code_simp
  have b: "lower_byte 99 \<noteq> lower_byte 114" by code_simp
  have "bytes ''cek9wqa9qwudcsnaffx3x9zcypsq07tgr6nylczg'' =
      99 # bytes ''ek9wqa9qwudcsnaffx3x9zcypsq07tgr6nylczg''"
    by (simp add: bytes_def)
  with cashaddr_detects_typo [OF ok b] b show ?thesis by simp
qed

section \<open>Numbers in base 58\<close>

text \<open>The numbers a digit string and a byte string stand for, most significant first.\<close>

definition digits_number :: "nat \<Rightarrow> nat list \<Rightarrow> nat" where
  "digits_number b ds = foldl (\<lambda>a d. a * b + d) 0 ds"

definition be_number :: "u8 list \<Rightarrow> nat" where
  "be_number bs = digits_number 256 (map unat bs)"

definition base58_digits :: "u8 list \<Rightarrow> nat list" where
  "base58_digits cs = map (\<lambda>c. the (position c base58_alphabet)) cs"

lemma digits_number_simps [simp]:
  "digits_number b [] = 0" "digits_number b (ds @ [d]) = digits_number b ds * b + d"
  by (simp_all add: digits_number_def)

lemma digits_number_append:
  "digits_number b (xs @ ys) = digits_number b xs * b ^ length ys + digits_number b ys"
proof (induction ys rule: rev_induct)
  case (snoc y ys)
  then show ?case using digits_number_simps(2) [of b "xs @ ys" y] by (simp add: algebra_simps)
qed simp

lemma digits_number_Cons: "digits_number b (d # ds) = d * b ^ length ds + digits_number b ds"
proof -
  have "digits_number b [d] = d" using digits_number_simps(2) [of b "[]" d] by simp
  then show ?thesis using digits_number_append [of b "[d]" ds] by simp
qed

lemma digits_number_pos: "ds \<noteq> [] \<Longrightarrow> hd ds \<noteq> 0 \<Longrightarrow> 0 < b \<Longrightarrow> 0 < digits_number b ds"
  by (cases ds) (simp_all add: digits_number_Cons)

lemma digits_number_unique:
  assumes "digits_number b ds = digits_number b es" "\<forall>d \<in> set (ds @ es). d < b"
    and "ds = [] \<or> hd ds \<noteq> 0" "es = [] \<or> hd es \<noteq> 0"
  shows "ds = es"
  using assms
proof (induction ds arbitrary: es rule: rev_induct)
  case Nil
  then show ?case by (metis digits_number_pos digits_number_simps(1) gr_zeroI less_zeroE list.set_sel(1) append_Nil)
next
  case (snoc d ds)
  show ?case
  proof (cases es rule: rev_exhaust)
    case Nil
    with snoc.prems show ?thesis
      by (metis digits_number_pos digits_number_simps(1) gr_zeroI less_zeroE list.set_sel(1) append_Nil2)
  next
    case (snoc es' e)
    have lt: "d < b" "e < b" using snoc.prems(2) snoc by auto
    have eq: "digits_number b ds * b + d = digits_number b es' * b + e" using snoc.prems(1) snoc by simp
    then have "d = e" using lt by (metis mod_less mod_mult_self3)
    moreover from this eq lt have "digits_number b ds = digits_number b es'" by simp
    then have "ds = es'"
      using snoc.prems(2-4) snoc by (intro snoc.IH) (auto simp: hd_append split: if_splits)
    ultimately show ?thesis using snoc by simp
  qed
qed

lemma digits_number_bound: "\<forall>d \<in> set ds. d < b \<Longrightarrow> digits_number b ds < b ^ length ds"
proof (induction ds rule: rev_induct)
  case (snoc d ds)
  then have "Suc (digits_number b ds) \<le> b ^ length ds" "d < b" by auto
  then have "Suc (digits_number b ds) * b \<le> b ^ length ds * b" by (intro mult_right_mono) auto
  with \<open>d < b\<close> show ?case by (simp add: mult.commute)
qed simp

lemma be_number_simps [simp]: "be_number [] = 0" "be_number (x # xs) = unat x * 256 ^ length xs + be_number xs"
  by (simp_all add: be_number_def digits_number_Cons)

lemma be_number_bound: "be_number bs < 256 ^ length bs"
  using digits_number_bound [of "map unat bs" 256] unsigned_less [where ?'a = nat and ?'b = 8]
  by (simp add: be_number_def)

abbreviation canonical :: "u8 list \<Rightarrow> bool" where
  "canonical bs \<equiv> bs = [] \<or> hd bs \<noteq> 0"

lemma canonical_number: "bs \<noteq> [] \<Longrightarrow> canonical bs \<longleftrightarrow> 256 ^ (length bs - 1) \<le> be_number bs"
proof (cases bs)
  case (Cons x xs)
  show ?thesis
  proof (cases "x = 0")
    case True
    then show ?thesis using be_number_bound [of xs] Cons by simp
  next
    case False
    then have "1 \<le> unat x" by (simp add: unat_gt_0 Suc_leI)
    then have "256 ^ length xs \<le> unat x * 256 ^ length xs" by (cases "unat x") simp_all
    then have "256 ^ length xs \<le> unat x * 256 ^ length xs + be_number xs" by (rule trans_le_add1)
    then show ?thesis using Cons False by simp
  qed
qed simp

lemma carry_shift: "q * 256 + r = v \<Longrightarrow> q * (256 * p) + r * p = v * (p :: nat)"
  by (auto simp: algebra_simps)

lemma low_byte_u32: "(ucast ((v :: u32) AND 0xff) :: u8) = ucast v"
proof -
  have "v AND 0xff = take_bit 8 v" by (simp add: take_bit_eq_mask mask_eq_exp_minus_1)
  then show ?thesis by (intro bit_word_eqI) (auto simp: bit_simps)
qed

lemma mul_add58_number:
  assumes "unat carry < 58"
  shows "mul_add58 bs carry = (bs', carry') \<Longrightarrow>
    unat carry' * 256 ^ length bs + be_number bs' = be_number bs * 58 + unat carry
      \<and> unat carry' < 58 \<and> length bs' = length bs"
proof (induction bs arbitrary: bs' carry')
  case Nil
  with assms show ?case by simp
next
  case (Cons b bs)
  obtain xs c where r: "mul_add58 bs carry = (xs, c)" by fastforce
  have IH: "unat c * 256 ^ length bs + be_number xs = be_number bs * 58 + unat carry" "unat c < 58"
      "length xs = length bs"
    using Cons.IH [OF r] by simp_all
  define v where "v = ucast b * 58 + c"
  have b: "unat b < 256" using unsigned_less [of b, where ?'a = nat] by simp
  have ub: "unat (ucast b :: u32) = unat b" by (simp add: unsigned_ucast_eq take_bit_nat_eq_self order_less_trans [OF b])
  have v: "unat v = unat b * 58 + unat c"
    unfolding v_def using b IH(2) ub by (simp add: unat_word_ariths)
  have out: "bs' = ucast (v AND 0xff) # xs" "carry' = drop_bit 8 v"
    using Cons.prems r by (simp_all add: v_def Let_def)
  have lo: "unat (ucast (v AND 0xff) :: u8) = unat v mod 256"
    by (simp add: low_byte_u32 unsigned_ucast_eq take_bit_eq_mod)
  have hi: "unat carry' = unat v div 256"
    unfolding out unat_drop_bit_eq by (simp add: drop_bit_eq_div)
  have "unat carry' * 256 ^ Suc (length bs) + (unat v mod 256) * 256 ^ length bs = unat v * 256 ^ length bs"
    unfolding hi power_Suc by (rule carry_shift) simp
  moreover have "unat v * 256 ^ length bs = unat b * 256 ^ length bs * 58 + unat c * 256 ^ length bs"
    unfolding v by (simp add: algebra_simps)
  ultimately have "unat carry' * 256 ^ length (b # bs) + be_number bs' = be_number (b # bs) * 58 + unat carry"
    using IH(1,3) by (simp add: out(1) lo)
  moreover have "unat carry' < 58" unfolding hi v using b IH(2) by linarith
  ultimately show ?case using out(1) IH(3) by simp
qed

lemma push_carry_small:
  assumes "unat carry < 58"
  shows "push_carry carry num = (if carry = 0 then num else ucast carry # num)"
proof -
  have "unat (drop_bit 8 carry) = 0"
    unfolding unat_drop_bit_eq using assms by (simp add: drop_bit_eq_div)
  then have "drop_bit 8 carry = 0" by (simp only: unat_eq_zero)
  then show ?thesis
    by (simp add: low_byte_u32 push_carry.simps [of carry] push_carry.simps [of 0] word_gt_0)
qed

lemma position_bound: "position c base58_alphabet = Some d \<Longrightarrow> d < 58"
  using position_Some [of c base58_alphabet d] by (simp add: base58_alphabet_def bytes_def)

text \<open>One character: the accumulator goes from \<open>n\<close> to \<open>58 n + d\<close> and stays without leading zeros.\<close>

lemma base58_round:
  assumes "mul_add58 num (word_of_nat d) = (num', carry)" "d < 58" "canonical num"
  shows "be_number (push_carry carry num') = be_number num * 58 + d \<and> canonical (push_carry carry num')"
proof -
  have d: "unat (word_of_nat d :: u32) = d" using assms(2) by (simp add: unsigned_of_nat take_bit_nat_eq_self)
  have m: "unat carry * 256 ^ length num + be_number num' = be_number num * 58 + d" "unat carry < 58"
      "length num' = length num"
    using mul_add58_number [of "word_of_nat d", OF _ assms(1)] assms(2) unfolding d by simp_all
  show ?thesis
  proof (cases "carry = 0")
    case True
    then have n: "be_number num' = be_number num * 58 + d" using m(1) by simp
    have "canonical num'"
    proof (cases "num = []")
      case False
      then have "256 ^ (length num - 1) \<le> be_number num" using canonical_number assms(3) by blast
      with n have "256 ^ (length num' - 1) \<le> be_number num'" unfolding m(3) by linarith
      moreover have "num' \<noteq> []" using False m(3) by auto
      ultimately show ?thesis using canonical_number by blast
    qed (use m(3) in simp)
    with n show ?thesis using True m(2) by (simp add: push_carry_small)
  next
    case False
    have "unat (ucast carry :: u8) = unat carry"
      using m(2) by (simp add: unsigned_ucast_eq take_bit_nat_eq_self)
    moreover from this False have "(ucast carry :: u8) \<noteq> 0" by (metis unat_0 unat_eq_zero)
    ultimately show ?thesis using False m by (simp add: push_carry_small)
  qed
qed

lemma base58_loop_number:
  "base58_loop num cs = Inr num' \<Longrightarrow> canonical num \<Longrightarrow>
    be_number num' = foldl (\<lambda>a d. a * 58 + d) (be_number num) (base58_digits cs) \<and> canonical num'"
proof (induction num cs rule: base58_loop.induct)
  case (2 num c cs)
  obtain d where d: "position c base58_alphabet = Some d"
    using "2.prems"(1) by (cases "position c base58_alphabet") simp_all
  obtain n k where r: "mul_add58 num (word_of_nat d) = (n, k)" by fastforce
  from base58_round [OF r position_bound [OF d] "2.prems"(2)] "2.prems"(1) "2.IH" [OF d r [symmetric]] show ?case
    by (simp add: d r base58_digits_def)
qed (simp add: base58_digits_def)

lemma base58_loop_characters: "base58_loop num cs = Inr num' \<Longrightarrow> \<forall>c \<in> set cs. position c base58_alphabet \<noteq> None"
  by (induction num cs rule: base58_loop.induct) (auto split: option.splits prod.splits)

lemma leading_digits:
  assumes "\<forall>c \<in> set cs. position c base58_alphabet \<noteq> None"
  shows "digits_number 58 (base58_digits cs) = digits_number 58 (base58_digits (dropWhile (\<lambda>c. c = 49) cs))"
    and "base58_digits (dropWhile (\<lambda>c. c = 49) cs) = [] \<or> hd (base58_digits (dropWhile (\<lambda>c. c = 49) cs)) \<noteq> 0"
proof -
  have one: "position 49 base58_alphabet = Some 0" by code_simp
  show "digits_number 58 (base58_digits cs) = digits_number 58 (base58_digits (dropWhile (\<lambda>c. c = 49) cs))"
    by (induction cs) (simp_all add: base58_digits_def digits_number_Cons one)
  show "base58_digits (dropWhile (\<lambda>c. c = 49) cs) = [] \<or> hd (base58_digits (dropWhile (\<lambda>c. c = 49) cs)) \<noteq> 0"
  proof (cases "dropWhile (\<lambda>c. c = 49) cs")
    case (Cons c rest)
    have "c \<noteq> 49" using Cons unfolding dropWhile_eq_Cons_conv by blast
    have "c \<in> set cs" using set_dropWhileD [of c "\<lambda>c. c = 49" cs] Cons by simp
    from \<open>c \<noteq> 49\<close> have "position c base58_alphabet \<noteq> Some 0" using position_inject [OF one] by blast
    then show ?thesis using assms \<open>c \<in> set cs\<close> Cons by (auto simp: base58_digits_def)
  qed (simp add: base58_digits_def)
qed

lemma base58_digits_inject:
  assumes "base58_digits cs = base58_digits ds"
    and "\<forall>c \<in> set cs. position c base58_alphabet \<noteq> None" "\<forall>c \<in> set ds. position c base58_alphabet \<noteq> None"
  shows "cs = ds"
  using assms
proof (induction cs arbitrary: ds)
  case (Cons c cs)
  then show ?case by (cases ds) (auto simp: base58_digits_def dest: position_inject)
qed (simp add: base58_digits_def)

section \<open>The encoding\<close>

text \<open>
  What a base58 string says: the same number in base 58 and in base 256, with a leading \<open>1\<close> for
  every leading zero byte.
\<close>

abbreviation ones :: "u8 list \<Rightarrow> u8 list" where
  "ones \<equiv> takeWhile (\<lambda>c. c = 49)"

definition base58_encodes :: "u8 list \<Rightarrow> u8 list \<Rightarrow> bool" where
  "base58_encodes raw a \<longleftrightarrow>
    (\<forall>c \<in> set a. position c base58_alphabet \<noteq> None) \<and>
    be_number raw = digits_number 58 (base58_digits a) \<and>
    length (takeWhile (\<lambda>b. b = 0) raw) = length (ones a)"

lemma base58_loop_total: "\<forall>c \<in> set a. position c base58_alphabet \<noteq> None \<Longrightarrow> \<exists>num'. base58_loop num a = Inr num'"
  by (induction num a rule: base58_loop.induct) (auto split: option.splits prod.splits)

lemma be_number_zeros: "be_number (replicate n 0 @ num) = be_number num"
  by (induction n) simp_all

lemma takeWhile_zeros: "canonical num \<Longrightarrow> takeWhile (\<lambda>b. b = 0) (replicate n 0 @ num) = replicate n 0"
  by (induction n) (cases num, auto)

lemma zeros_split: "\<exists>num. raw = replicate (length (takeWhile (\<lambda>b. b = (0 :: u8)) raw)) 0 @ num \<and> canonical num"
  by (induction raw) auto

lemma canonical_unat: "canonical xs \<Longrightarrow> map unat xs = [] \<or> hd (map unat xs) \<noteq> 0"
  by (cases xs) (auto simp: unat_eq_zero)

lemma canonical_unique:
  assumes "be_number xs = be_number ys" "canonical xs" "canonical ys"
  shows "xs = ys"
proof -
  have "map unat xs = map unat ys"
    using assms(1) unsigned_less [where ?'a = nat and ?'b = 8] canonical_unat [OF assms(2)]
      canonical_unat [OF assms(3)]
    by (intro digits_number_unique [of 256]) (auto simp: be_number_def)
  then show ?thesis by (rule map_injective) (simp add: inj_def word_unat_eq_iff)
qed

lemma base58_encodes_iff:
  "base58_encodes raw a \<longleftrightarrow> (\<exists>num. base58_loop [] a = Inr num \<and> raw = replicate (length (ones a)) 0 @ num)"
proof
  assume e: "base58_encodes raw a"
  then obtain num where num: "base58_loop [] a = Inr num"
    using base58_loop_total unfolding base58_encodes_def by blast
  from base58_loop_number [OF num] have n: "be_number num = digits_number 58 (base58_digits a)" "canonical num"
    by (simp_all add: digits_number_def)
  obtain num' where raw: "raw = replicate (length (ones a)) 0 @ num'" "canonical num'"
    using e zeros_split [of raw] unfolding base58_encodes_def by metis
  then have "be_number num' = be_number num" using e n by (simp add: base58_encodes_def be_number_zeros)
  then have "num' = num" using canonical_unique raw(2) n(2) by blast
  with num raw show "\<exists>num. base58_loop [] a = Inr num \<and> raw = replicate (length (ones a)) 0 @ num" by blast
next
  assume "\<exists>num. base58_loop [] a = Inr num \<and> raw = replicate (length (ones a)) 0 @ num"
  then obtain num where num: "base58_loop [] a = Inr num" "raw = replicate (length (ones a)) 0 @ num" by blast
  from base58_loop_number [OF num(1)] have "be_number num = digits_number 58 (base58_digits a)" "canonical num"
    by (simp_all add: digits_number_def)
  then show "base58_encodes raw a"
    using base58_loop_characters [OF num(1)] unfolding base58_encodes_def num(2)
    by (simp add: be_number_zeros takeWhile_zeros)
qed

lemma base58_encodes_unique:
  assumes "base58_encodes raw a" "base58_encodes raw b"
  shows "a = b"
proof -
  let ?drop = "dropWhile (\<lambda>c. c = 49)"
  have good: "\<forall>c \<in> set a. position c base58_alphabet \<noteq> None" "\<forall>c \<in> set b. position c base58_alphabet \<noteq> None"
    using assms by (simp_all add: base58_encodes_def)
  have "d < 58" if "d \<in> set (base58_digits (?drop x))" "\<forall>c \<in> set x. position c base58_alphabet \<noteq> None" for d x
    using that position_bound by (auto simp: base58_digits_def dest!: set_dropWhileD)
  then have "base58_digits (?drop a) = base58_digits (?drop b)"
    using assms leading_digits [OF good(1)] leading_digits [OF good(2)] good
    by (intro digits_number_unique [of 58]) (auto simp: base58_encodes_def)
  then have "?drop a = ?drop b" using good by (intro base58_digits_inject) (auto dest: set_dropWhileD)
  moreover have "ones x = replicate (length (ones x)) 49" for x by (induction x) auto
  then have "ones a = ones b" using assms unfolding base58_encodes_def by metis
  ultimately show ?thesis by (metis takeWhile_dropWhile_id)
qed

text \<open>
  The base58check decoder accepts exactly the standard encodings. A string is accepted with
  the hash \<open>h\<close> if and only if it is the base58 notation of a version byte \<open>0x00\<close> or \<open>0x1e\<close>, the 20
  bytes of \<open>h\<close> and the first four bytes of the double SHA-256 of both; and for each of the two versions no
  second string has that notation.
\<close>

theorem base58check_decodes:
  "(base58check_pkh sha256d a = Inr h \<longleftrightarrow>
     (\<exists>v. (v = 0x00 \<or> v = 0x1e) \<and> length h = 20 \<and> length (v # h @ take 4 (sha256d (v # h))) = 25 \<and>
        base58_encodes (v # h @ take 4 (sha256d (v # h))) a)) \<and>
   (base58_encodes raw a \<and> base58_encodes raw b \<longrightarrow> a = b)"
proof (intro conjI impI)
  show "base58check_pkh sha256d a = Inr h \<longleftrightarrow>
     (\<exists>v. (v = 0x00 \<or> v = 0x1e) \<and> length h = 20 \<and> length (v # h @ take 4 (sha256d (v # h))) = 25 \<and>
        base58_encodes (v # h @ take 4 (sha256d (v # h))) a)" (is "_ \<longleftrightarrow> ?r")
  proof
    assume ok: "base58check_pkh sha256d a = Inr h"
    then obtain num where num: "base58_loop [] a = Inr num" unfolding base58check_pkh_def by auto
    define raw where "raw = replicate (length (ones a)) 0 @ num"
    have r: "length raw = 25" "take 4 (sha256d (take 21 raw)) = drop 21 raw"
        "take 21 raw ! 0 = 0x00 \<or> take 21 raw ! 0 = 0x1e" "h = take 20 (drop 1 (take 21 raw))"
      using ok unfolding base58check_pkh_def num and_then_simps raw_def [symmetric] Let_def
      by (simp_all split: if_splits)
    obtain v rest where raw: "raw = v # rest" using r(1) by (cases raw) simp_all
    then have h: "h = take 20 rest" "take 21 raw = v # h" using r(4) by simp_all
    have "raw = v # h @ take 4 (sha256d (v # h))" using r(2) unfolding h(2) by (metis append_Cons append_take_drop_id h(2))
    moreover have "base58_encodes raw a" using num base58_encodes_iff raw_def by blast
    moreover have "length h = 20" using h(1) r(1) raw by simp
    ultimately show ?r using r(1,3) unfolding h(2) by (intro exI [of _ v]) simp
  next
    assume ?r
    then obtain v where v: "v = 0x00 \<or> v = 0x1e" "length h = 20" "length (v # h @ take 4 (sha256d (v # h))) = 25"
        "base58_encodes (v # h @ take 4 (sha256d (v # h))) a"
      by blast
    then obtain num where num: "base58_loop [] a = Inr num"
        "replicate (length (ones a)) 0 @ num = v # h @ take 4 (sha256d (v # h))"
      using base58_encodes_iff by metis
    show "base58check_pkh sha256d a = Inr h"
      unfolding base58check_pkh_def num and_then_simps Let_def using v by auto
  qed
qed (use base58_encodes_unique in blast)

theorem base58check_decodes_witness:
  "base58_encodes (replicate 25 0) (replicate 25 49) \<and>
   base58check_pkh (\<lambda>_. replicate 32 0) (replicate 25 49) = Inr (replicate 20 0) \<and>
   \<not> base58_encodes (replicate 25 0) (replicate 24 49)"
proof -
  have e: "base58_encodes (replicate 25 0) (replicate 25 49)" by code_simp
  have raw: "(0 :: u8) # replicate 20 0 @ take 4 (replicate 32 0) = replicate 25 0" by code_simp
  have "\<exists>v :: u8. (v = 0x00 \<or> v = 0x1e) \<and> length (replicate 20 (0 :: u8)) = 20 \<and>
      length (v # replicate 20 0 @ take 4 (replicate 32 (0 :: u8))) = 25 \<and>
      base58_encodes (v # replicate 20 0 @ take 4 (replicate 32 0)) (replicate 25 49)"
    by (rule exI [of _ 0]) (simp only: raw e, simp)
  then have "base58check_pkh (\<lambda>_. replicate 32 0) (replicate 25 49) = Inr (replicate 20 0)"
    using base58check_decodes [of "\<lambda>_. replicate 32 0" "replicate 25 49" "replicate 20 0"] by blast
  moreover have "base58_encodes (replicate 25 0) (replicate 24 49) \<Longrightarrow> replicate 24 (49 :: u8) = replicate 25 49"
    using base58check_decodes [where raw = "replicate 25 0" and a = "replicate 24 49" and b = "replicate 25 49"] e by blast
  then have "\<not> base58_encodes (replicate 25 0) (replicate 24 49)" by (auto simp: replicate_eq_replicate)
  ultimately show ?thesis using e by blast
qed
end
