(* ===== verification/Nano_Pool_Properties.thy ===== *)
theory Nano_Pool_Properties
  imports Nano_Pool Nano_Address_Properties
begin

text \<open>
  What the solo pool guarantees: the branch of the node's template leads to the root of the block,
  byte comparisons are comparisons of numbers, the verdict on every share, the job list under any
  sequence of its lock sections, the value of the target sent to the device and the shape of the
  coinbase. Witnesses run the pool with exact arithmetic and a constant hash.
\<close>

section \<open>Byte strings as numbers\<close>

definition le_number :: "u8 list \<Rightarrow> nat" where
  "le_number bs = be_number (rev bs)"

lemma be_number_append: "be_number (xs @ ys) = be_number xs * 256 ^ length ys + be_number ys"
  by (induction xs) (simp_all add: algebra_simps power_add)

lemma le_number_simps [simp]: "le_number [] = 0" "le_number (x # xs) = unat x + 256 * le_number xs"
  by (simp_all add: le_number_def be_number_append)

lemma le_number_append: "le_number (xs @ ys) = le_number xs + 256 ^ length xs * le_number ys"
  by (simp add: le_number_def be_number_append)

lemma bytes_less_number:
  "length xs = length ys \<Longrightarrow> bytes_less xs ys \<longleftrightarrow> be_number xs < be_number ys"
proof (induction xs ys rule: bytes_less.induct)
  case (3 x xs y ys)
  then have len: "length xs = length ys" and IH: "bytes_less xs ys \<longleftrightarrow> be_number xs < be_number ys" by simp_all
  let ?b = "256 ^ length ys :: nat"
  have lt: "be_number xs < ?b" "be_number ys < ?b" using be_number_bound [of xs] be_number_bound [of ys] len by simp_all
  consider "unat x < unat y" | "unat x = unat y" | "unat y < unat x" by linarith
  then show ?case
  proof cases
    case 1
    then have "Suc (unat x) * ?b \<le> unat y * ?b" by (intro mult_right_mono) simp_all
    with lt(1) 1 len show ?thesis by (simp add: word_less_nat_alt)
  next
    case 2
    then have "x = y" by (simp add: word_unat_eq_iff)
    with IH len show ?thesis by simp
  next
    case 3
    then have "Suc (unat y) * ?b \<le> unat x * ?b" by (intro mult_right_mono) simp_all
    with lt(2) 3 len show ?thesis by (auto simp: word_less_nat_alt)
  qed
qed simp_all

section \<open>Merkle branch\<close>

lemma branch_steps [simp]:
  "coinbase_merkle_branch sha [] = []" "coinbase_merkle_branch sha [a] = []"
  "coinbase_merkle_branch sha (a # b # rest) = b # coinbase_merkle_branch sha (sha (a @ b) # hash_pairs sha rest)"
  "merkle_digest sha [] = replicate 32 0" "merkle_digest sha [a] = a"
  "merkle_digest sha (a # b # rest) = merkle_digest sha (sha (a @ b) # hash_pairs sha rest)"
  by (subst coinbase_merkle_branch.simps merkle_digest.simps, simp)+


text \<open>
  The standard template leaves the coinbase out of the list, so with one transaction the branch is
  empty and a share's root is the hash of the coinbase alone.
\<close>

lemma std_single_transaction:
  assumes "fetch_template_std E t = Inr tpl" "as_array (json_at t ''transactions'') = Some [tx]"
  shows "tpl_merkle_branch tpl = []"
proof -
  obtain ids where "traverse_sum (template_txid E) [tx] = Inr ids"
      "tpl_merkle_branch tpl = map rev (coinbase_merkle_branch (sha256d E) ids)"
    using assms unfolding fetch_template_std_def and_then_Inr ok_or_Inr Let_def by fastforce
  then show ?thesis by auto
qed

section \<open>Targets\<close>

text \<open>The target that compact bits stand for, rounded down; beyond exponent 32 the code gives zero.\<close>

definition compact_target :: "u32 \<Rightarrow> nat" where
  "compact_target b =
    (let e = unat b div 2 ^ 24; mant = unat b mod 2 ^ 24
     in if e \<le> 32 then mant * 256 ^ e div 256 ^ 3 else 0)"

lemma bits_to_target_list:
  fixes b :: u32
  defines "x \<equiv> ucast (drop_bit 16 b AND 0xff) :: u8" and "y \<equiv> ucast (drop_bit 8 b AND 0xff)"
    and "z \<equiv> ucast (b AND 0xff)" and "e \<equiv> unat b div 2 ^ 24"
  shows "bits_to_target_be b =
    (if 32 < e then replicate 32 0 else if e = 0 then replicate 32 0 else if e = 1 then replicate 31 0 @ [x]
     else if e = 2 then replicate 30 0 @ [x, y] else replicate (32 - e) 0 @ [x, y, z] @ replicate (e - 3) 0)"
proof -
  have e: "unat (drop_bit 24 b) = e" by (simp add: e_def unat_drop_bit_eq drop_bit_eq_div [where ?'a = nat])
  have l: "bits_to_target_be b = (if e \<le> 32 then (replicate 32 0)[32 - e := x, 32 - e + 1 := y, 32 - e + 2 := z] else replicate 32 0)"
    by (simp add: bits_to_target_be_def e Let_def x_def y_def z_def)
  consider "32 < e" | "e = 0" | "e = 1" | "e = 2" | "3 \<le> e" "e \<le> 32" by linarith
  then show ?thesis
  proof cases
    case 5
    then have "(replicate 32 0)[32 - e := x, 32 - e + 1 := y, 32 - e + 2 := z] =
        replicate (32 - e) 0 @ [x, y, z] @ replicate (e - 3) 0"
      by (intro nth_equalityI) (auto simp: nth_append nth_Cons nth_list_update split: nat.splits)
    then show ?thesis unfolding l using 5 by simp
  qed (simp_all add: l numeral_eq_Suc)
qed

lemma length_bits_to_target [simp]: "length (bits_to_target_be b) = 32"
  unfolding bits_to_target_list by auto

lemma be_number_replicate_zero [simp]: "be_number (replicate n 0) = 0"
  using be_number_zeros [of n "[]"] by simp

lemma mantissa_split: "(n :: nat) div 65536 mod 256 * 65536 + n div 256 mod 256 * 256 + n mod 256 = n mod 2 ^ 24"
proof -
  have "n mod (256 * 65536) = 256 * (n div 256 mod 65536) + n mod 256" by (rule mod_mult2_eq)
  moreover have "n div 256 mod (256 * 256) = 256 * (n div 256 div 256 mod 256) + n div 256 mod 256"
    by (rule mod_mult2_eq)
  moreover have "n div 256 div 256 = n div 65536" by (simp flip: div_mult2_eq)
  ultimately show ?thesis by simp
qed

lemma mantissa_drop:
  assumes "y < 256" "z < (256 :: nat)"
  shows "(x * 65536 + y * 256 + z) * 256 div 256 ^ 3 = x"
    and "(x * 65536 + y * 256 + z) * 256 ^ 2 div 256 ^ 3 = x * 256 + y"
  using assms by (auto intro!: div_nat_eqI)

lemma mantissa_top: "n mod 2 ^ 24 * 256 div 256 ^ 3 = (n :: nat) div 65536 mod 256"
    "n mod 2 ^ 24 * 256 ^ 2 div 256 ^ 3 = (n :: nat) div 65536 mod 256 * 256 + n div 256 mod 256"
  unfolding mantissa_split [symmetric] by (rule mantissa_drop; simp)+

lemma div_exact: "x = y * z \<Longrightarrow> 0 < z \<Longrightarrow> x div z = (y :: nat)"
  by simp

lemma bits_to_target_number: "be_number (bits_to_target_be b) = compact_target b"
proof -
  define e where "e = unat b div 2 ^ 24"
  define n where "n = unat b"
  have c: "compact_target b = (if e \<le> 32 then n mod 2 ^ 24 * 256 ^ e div 256 ^ 3 else 0)"
    by (simp add: compact_target_def Let_def e_def n_def)
  have l: "be_number (bits_to_target_be b) =
    (if 32 < e \<or> e = 0 then 0 else if e = 1 then n div 65536 mod 256
     else if e = 2 then n div 65536 mod 256 * 256 + n div 256 mod 256
     else (n div 65536 mod 256 * 65536 + n div 256 mod 256 * 256 + n mod 256) * 256 ^ (e - 3))"
    unfolding bits_to_target_list e_def [symmetric]
    by (simp add: be_number_zeros be_number_append unsigned_ucast_eq low_byte_u32 take_bit_eq_mod unat_drop_bit_eq
        drop_bit_eq_div [where ?'a = nat] n_def power_add algebra_simps)
  consider "32 < e" | "e = 0" | "e = 1" | "e = 2" | "3 \<le> e" "e \<le> 32" by linarith
  then show ?thesis
  proof cases
    case 5
    have "(256 :: nat) ^ e = 256 ^ (e - 3) * 256 ^ 3" using 5(1) by (metis le_add_diff_inverse2 power_add)
    then have "n mod 2 ^ 24 * 256 ^ e = n mod 2 ^ 24 * 256 ^ (e - 3) * 256 ^ 3" by (simp only: mult.assoc)
    then have "n mod 2 ^ 24 * 256 ^ e div 256 ^ 3 = n mod 2 ^ 24 * 256 ^ (e - 3)" by (rule div_exact) simp
    then show ?thesis unfolding l c mantissa_split using 5 by (simp only:) simp
  next
    case 2
    have "n mod 2 ^ 24 < 256 ^ 3" by simp
    then show ?thesis unfolding l c using 2 by simp
  next
    case 3
    then show ?thesis unfolding l c using mantissa_top(1) [of n] by simp
  next
    case 4
    then show ?thesis unfolding l c using mantissa_top(2) [of n] by simp
  qed (simp add: l c)
qed


section \<open>The verdict\<close>

lemma length_target_le [simp]: "length (target_le F st) = 32"
  by (simp add: target_le_def diff_to_target_le_def Let_def)

lemma count_share_reply:
  "count_share m st = Some (st', reply) \<Longrightarrow> reply = ShareSuccess (ss_channel_id m) (ss_sequence m) (ps_accepted st')"
  by (auto simp: count_share_def split: option.splits)

text \<open>
  C19: What the pool answers to a share, whatever other tasks do meanwhile and as long as no counter
  overflows. A share of a job that is neither active nor among the past ones is refused as
  \<open>job-not-found\<close>. Otherwise the header is rebuilt from the job and the share and its hash is read as a
  little-endian number: above the difficulty target in force the share is refused as
  \<open>difficulty-too-low\<close> and nothing else happens, in particular no block is submitted, even if the hash
  meets the target of the network. At or below it the share is accepted, and the block (header, one
  transaction, the coinbase) is submitted exactly if the hash also meets the compact target of the job.
\<close>

theorem handle_share_verdict:
  assumes "pool_handle_share E others clock answer m st = Some (st', effs)" and "\<And>x. length (sha256d E x) = 32"
  shows "case find_job (ss_job_id m) st of
      None \<Rightarrow> st' = st \<and> effs = [Reply (ShareError (ss_channel_id m) (ss_sequence m) ''job-not-found'')]
    | Some job \<Rightarrow>
        (let header = share_header (sha256d E) job m; h = le_number (sha256d E header)
         in if le_number (target_le E (others 0 st)) < h
            then st' = others 0 st \<and>
              effs = [Reply (ShareError (ss_channel_id m) (ss_sequence m) ''difficulty-too-low'')]
            else \<exists>outs. effs = map Broadcast outs
              @ (if h \<le> compact_target (pj_bits job)
                 then [SubmitBlock (header @ [1] @ share_coinbase job m) (pj_node_job_id job)] else [])
              @ [Reply (ShareSuccess (ss_channel_id m) (ss_sequence m) (ps_accepted st'))])"
proof (cases "find_job (ss_job_id m) st")
  case None
  with assms(1) show ?thesis by (simp add: pool_handle_share_def)
next
  case (Some job)
  define header where "header = share_header (sha256d E) job m"
  define h where "h = le_number (sha256d E header)"
  have low: "bytes_less (rev (target_le E s)) (rev (sha256d E header)) \<longleftrightarrow> le_number (target_le E s) < h" for s
    by (simp add: bytes_less_number assms(2) le_number_def h_def)
  have block: "bytes_less (bits_to_target_be b) (rev (sha256d E header)) \<longleftrightarrow> compact_target b < h" for b
    by (simp add: bytes_less_number assms(2) le_number_def h_def bits_to_target_number)
  show ?thesis
  proof (cases "le_number (target_le E (others 0 st)) < h")
    case True
    then show ?thesis using assms(1) Some
      by (simp add: pool_handle_share_def Let_def low flip: header_def h_def)
  next
    case False
    note r = assms(1) [unfolded pool_handle_share_def Some option.case Let_def, folded header_def,
        unfolded low if_not_P [OF False] block]
    obtain st3 outs where v: "vardiff_section E (clock 1)
        (others 2 (record_best E (clock 0) (rev (sha256d E header)) (others 1 (others 0 st)))) = Some (st3, outs)"
      using r by (cases "vardiff_section E (clock 1)
        (others 2 (record_best E (clock 0) (rev (sha256d E header)) (others 1 (others 0 st))))") auto
    have "effs = map Broadcast outs
              @ (if h \<le> compact_target (pj_bits job)
                 then [SubmitBlock (header @ [1] @ share_coinbase job m) (pj_node_job_id job)] else [])
              @ [Reply (ShareSuccess (ss_channel_id m) (ss_sequence m) (ps_accepted st'))]"
      using r unfolding v by (auto simp: submit_block_def not_less dest: count_share_reply)
    then show ?thesis using Some False by (auto simp: Let_def simp flip: header_def h_def)
  qed
qed

section \<open>Job list\<close>

text \<open>The sections of the code that run under the lock, as events.\<close>

datatype 'd pool_event =
  PRefresh node_template
| POpen nat u32 'd connection
| PBest nat "u8 list"
| PVardiff nat
| PBlockFound
| PBlockResult string
| PCount
| PRate 'd
| PSetup

definition pool_section ::
  "('d, 'n, 'm) pool_env_scheme \<Rightarrow> 'd pool_state \<Rightarrow> 'd pool_event \<Rightarrow> 'd pool_state option" where
  "pool_section E st e =
    (case e of
       PRefresh tpl \<Rightarrow> map_option fst (refresh_template E tpl st)
     | POpen now request rate c \<Rightarrow> Some (snd (open_channel E now request rate c st))
     | PBest now hash_be \<Rightarrow> Some (record_best E now hash_be st)
     | PVardiff now \<Rightarrow> map_option fst (vardiff_section E now st)
     | PBlockFound \<Rightarrow> Some (st\<lparr>ps_block_found := True\<rparr>)
     | PBlockResult r \<Rightarrow> Some (st\<lparr>ps_last_block_result := r\<rparr>)
     | PCount \<Rightarrow> map_option (\<lambda>n. st\<lparr>ps_shares_ok := n, ps_accepted := ps_accepted st + 1\<rparr>) (add_chk (ps_shares_ok st) 1)
     | PRate rate \<Rightarrow> Some (st\<lparr>ps_device_hashrate := rate\<rparr>)
     | PSetup \<Rightarrow> Some (st\<lparr>ps_device_connected := True\<rparr>))"

definition pool_ok :: "('d, 'n, 'm) pool_env_scheme \<Rightarrow> 'd pool_state \<Rightarrow> 'd pool_event \<Rightarrow> bool" where
  "pool_ok E st e \<longleftrightarrow> pool_section E st e \<noteq> None"

definition pool_step :: "('d, 'n, 'm) pool_env_scheme \<Rightarrow> 'd pool_state \<Rightarrow> 'd pool_event \<Rightarrow> 'd pool_state" where
  "pool_step E st e = the (pool_section E st e)"

definition known_jobs :: "'d pool_state \<Rightarrow> pool_job list" where
  "known_jobs st = ps_past_jobs st @ (case ps_active st of Some a \<Rightarrow> [a] | None \<Rightarrow> [])"

definition jobs_inv :: "'d pool_state \<Rightarrow> bool" where
  "jobs_inv st \<longleftrightarrow> distinct (map pj_id (known_jobs st)) \<and> (\<forall>j \<in> set (known_jobs st). pj_id j < ps_next_job_id st)
     \<and> length (ps_past_jobs st) \<le> 16"

lemma jobs_inv_new: "jobs_inv (pool_new F cfg now)"
  by (simp add: jobs_inv_def known_jobs_def pool_new_def)

lemma known_jobs_retire:
  "known_jobs (retire_active st) = drop (length (known_jobs st) - 16) (known_jobs st) \<or> ps_active st = None \<and> retire_active st = st"
  by (auto simp: retire_active_def known_jobs_def Let_def split: option.splits)

text \<open>A new active job with the next id.\<close>

lemma jobs_inv_fresh:
  assumes "jobs_inv st" "add_chk (ps_next_job_id st) 1 = Some n"
    and "ps_past_jobs st' = drop k (known_jobs st)" "length (ps_past_jobs st') \<le> 16"
    and "ps_active st' = Some job" "pj_id job = ps_next_job_id st" "ps_next_job_id st' = n"
  shows "jobs_inv st'"
proof -
  have lt: "ps_next_job_id st < n"
    using assms(2) by (auto simp: add_chk_Some word_less_nat_alt unat_word_ariths)
  have old: "pj_id j < ps_next_job_id st" if "j \<in> set (known_jobs st)" for j
    using assms(1) that by (simp add: jobs_inv_def)
  have d: "distinct (map pj_id (drop k (known_jobs st)))"
    using assms(1) by (simp add: jobs_inv_def distinct_drop flip: drop_map)
  have k: "known_jobs st' = drop k (known_jobs st) @ [job]" using assms(3,5) by (simp add: known_jobs_def)
  have "pj_id j < n" if "j \<in> set (drop k (known_jobs st))" for j
    using old [OF in_set_dropD [OF that]] lt by (rule less_trans)
  moreover have "ps_next_job_id st \<notin> pj_id ` set (drop k (known_jobs st))"
    using old in_set_dropD by (metis image_iff less_irrefl)
  ultimately show ?thesis using assms(4,6,7) lt d by (simp add: jobs_inv_def k)
qed

lemma retire_past:
  "ps_past_jobs (retire_active st) = drop (length (known_jobs st) - 16) (known_jobs st)" if "ps_active st \<noteq> None"
  using that by (auto simp: retire_active_def known_jobs_def Let_def)

lemma retire_past_None: "ps_active st = None \<Longrightarrow> ps_past_jobs (retire_active st) = known_jobs st"
  by (simp add: retire_active_def known_jobs_def)

lemma retire_next [simp]: "ps_next_job_id (retire_active st) = ps_next_job_id st"
  by (simp add: retire_active_def Let_def split: option.splits)

lemma jobs_inv_cong:
  "jobs_inv st \<Longrightarrow> ps_past_jobs st' = ps_past_jobs st \<Longrightarrow> ps_next_job_id st' = ps_next_job_id st \<Longrightarrow>
    map_option pj_id (ps_active st') = map_option pj_id (ps_active st) \<Longrightarrow> jobs_inv st'"
  by (auto simp: jobs_inv_def known_jobs_def split: option.splits)

lemma jobs_inv_retired:
  assumes "jobs_inv st" "add_chk (ps_next_job_id st) 1 = Some n"
    and "ps_past_jobs st1 = ps_past_jobs st \<or> ps_past_jobs st1 = []" "ps_active st1 = ps_active st"
    and "ps_past_jobs st' = ps_past_jobs (retire_active st1)"
    and "ps_active st' = Some job" "pj_id job = ps_next_job_id st" "ps_next_job_id st' = n"
  shows "jobs_inv st'"
proof -
  have len: "length (ps_past_jobs st) \<le> 16" using assms(1) by (simp add: jobs_inv_def)
  have "\<exists>k. known_jobs st1 = drop k (known_jobs st)"
    using assms(3,4) by (auto simp: known_jobs_def intro: exI [of _ 0] exI [of _ "length (ps_past_jobs st)"])
  then obtain k where k: "known_jobs st1 = drop k (known_jobs st)" ..
  show ?thesis
  proof (cases "ps_active st1")
    case None
    then have "ps_past_jobs st' = drop k (known_jobs st)" using retire_past_None assms(5) k by metis
    moreover have "length (ps_past_jobs st') \<le> 16"
      using None assms(3,4,5) len by (auto simp: retire_past_None known_jobs_def)
    ultimately show ?thesis using jobs_inv_fresh assms(1,2,6-8) by blast
  next
    case (Some a)
    then have "ps_past_jobs st' = drop (length (known_jobs st1) - 16 + k) (known_jobs st)"
      using retire_past assms(5) k by (metis drop_drop option.distinct(1))
    moreover have "length (ps_past_jobs st') \<le> 16" using Some assms(5) by (simp add: retire_past)
    ultimately show ?thesis using jobs_inv_fresh assms(1,2,6-8) by blast
  qed
qed

lemma make_job_id: "make_job tpl cfg jid = Some j \<Longrightarrow> pj_id j = jid \<and> pj_node_job_id j = tpl_job_id tpl"
  by (auto simp: make_job_def split: option.splits)

definition new_tip :: "('d, 'n, 'm) pool_env_scheme \<Rightarrow> node_template \<Rightarrow> 'd pool_state \<Rightarrow> bool" where
  "new_tip E tpl st \<longleftrightarrow> ps_last_prev st \<noteq> show_block_id E (tpl_prev_hash tpl)"

lemma refresh_template_cases:
  assumes "refresh_template E tpl st = Some (st', outs)"
  obtains (unchanged) "st' = st" "outs = []"
  | (rotated) n job st1 where "add_chk (ps_next_job_id st) 1 = Some n"
      "ps_past_jobs st1 = (if new_tip E tpl st then [] else ps_past_jobs st)"
      "ps_active st1 = ps_active st" "ps_next_job_id st1 = n" "pj_id job = ps_next_job_id st"
      "pj_node_job_id job = tpl_job_id tpl"
      "st' = (retire_active st1)\<lparr>ps_active := Some job\<rparr>" "outs \<noteq> []"
proof (cases "case ps_active st of Some a \<Rightarrow> pj_node_job_id a = tpl_job_id tpl | None \<Rightarrow> False")
  case True
  then show ?thesis using assms unchanged by (simp add: refresh_template_def)
next
  case False
  define prefix where "prefix = (case ps_active st of Some a \<Rightarrow> pj_extranonce_prefix a | None \<Rightarrow> cfg_extranonce_base (ps_cfg st))"
  note r = assms [unfolded refresh_template_def if_not_P [OF False] Let_def, folded prefix_def]
  obtain n where n: "add_chk (ps_next_job_id st) 1 = Some n" using r by (cases "add_chk (ps_next_job_id st) 1") simp_all
  obtain j where j: "make_job tpl (ps_cfg st) (ps_next_job_id st) = Some j"
    using r n by (cases "make_job tpl (ps_cfg st) (ps_next_job_id st)") simp_all
  define job where "job = j\<lparr>pj_extranonce_prefix := prefix\<rparr>"
  obtain nj ph where m: "to_sv2_messages job = Some (nj, ph)"
    using r n j by (cases "to_sv2_messages job") (auto simp: job_def)
  define st1 where "st1 = (let s = st\<lparr>ps_last_prev := show_block_id E (tpl_prev_hash tpl), ps_next_job_id := n\<rparr>
      in if new_tip E tpl st then s\<lparr>ps_node_height := tpl_height tpl, ps_past_jobs := []\<rparr> else s)"
  have "st' = (retire_active st1)\<lparr>ps_active := Some job\<rparr>" "outs \<noteq> []"
    using r n j m by (auto simp: job_def [symmetric] st1_def new_tip_def Let_def split: if_splits)
  moreover have "pj_id job = ps_next_job_id st" "pj_node_job_id job = tpl_job_id tpl"
    using make_job_id [OF j] by (simp_all add: job_def)
  ultimately show ?thesis using rotated [of n st1 job] n by (simp add: st1_def Let_def)
qed

lemma jobs_inv_refresh:
  assumes "refresh_template E tpl st = Some (st', outs)" "jobs_inv st"
  shows "jobs_inv st'"
  using assms(1)
proof (cases rule: refresh_template_cases)
  case unchanged
  with assms(2) show ?thesis by simp
next
  case (rotated n job st1)
  then show ?thesis using assms(2) by (intro jobs_inv_retired [of st n st1 st' job]) simp_all
qed

lemma jobs_inv_vardiff:
  assumes "vardiff_section F now st = Some (st', outs)" "jobs_inv st"
  shows "jobs_inv st'"
proof -
  obtain vd fire where v: "vardiff_share F now (ps_vardiff st) = Some (vd, fire)"
    using assms(1) by (cases "vardiff_share F now (ps_vardiff st)") (auto simp: vardiff_section_def)
  let ?st1 = "st\<lparr>ps_vardiff := vd\<rparr>"
  show ?thesis
  proof (cases "fire \<and> ps_active st \<noteq> None")
    case False
    then have "st' = ?st1" using assms(1) v by (auto simp: vardiff_section_def Let_def split: if_splits)
    then show ?thesis using assms(2) by (auto intro: jobs_inv_cong)
  next
    case True
    then obtain a where a: "ps_active st = Some a" by blast
    obtain n where n: "add_chk (ps_next_job_id st) 1 = Some n"
      using assms(1) v True a by (cases "add_chk (ps_next_job_id st) 1") (auto simp: vardiff_section_def Let_def)
    obtain m where m: "to_sv2_messages (a\<lparr>pj_id := ps_next_job_id st\<rparr>) = Some m"
      using assms(1) v True a n
      by (cases "to_sv2_messages (a\<lparr>pj_id := ps_next_job_id st\<rparr>)") (auto simp: vardiff_section_def Let_def)
    have "st' = (retire_active ?st1)\<lparr>ps_next_job_id := n, ps_active := Some (a\<lparr>pj_id := ps_next_job_id st\<rparr>)\<rparr>"
      using assms(1) v True a n m by (auto simp: vardiff_section_def Let_def split: prod.splits)
    then show ?thesis using assms(2) n by (intro jobs_inv_retired [of st n ?st1 st' "a\<lparr>pj_id := ps_next_job_id st\<rparr>"]) simp_all
  qed
qed

lemma open_channel_jobs:
  "ps_past_jobs (snd (open_channel F now request rate c st)) = ps_past_jobs st"
  "ps_next_job_id (snd (open_channel F now request rate c st)) = ps_next_job_id st"
  "map_option pj_id (ps_active (snd (open_channel F now request rate c st))) = map_option pj_id (ps_active st)"
  by (simp_all add: open_channel_def seed_vardiff_def Let_def split: option.split)

interpretation pool: step_system "pool_new E cfg now" "pool_step E" "pool_ok E" jobs_inv
  for E :: "('d, 'n) pool_env" and cfg now
proof
  show "jobs_inv (pool_new E cfg now)" by (rule jobs_inv_new)
next
  fix st :: "'d pool_state" and e
  assume inv: "jobs_inv st" and ok: "pool_ok E st e"
  then obtain st' where s: "pool_section E st e = Some st'" by (auto simp: pool_ok_def)
  have "jobs_inv st'"
  proof (cases e)
    case (PRefresh tpl)
    then show ?thesis using s inv jobs_inv_refresh by (auto simp: pool_section_def)
  next
    case (PVardiff now)
    then show ?thesis using s inv jobs_inv_vardiff by (auto simp: pool_section_def)
  next
    case (POpen now request rate c)
    then have "st' = snd (open_channel E now request rate c st)" using s by (simp add: pool_section_def)
    then show ?thesis using jobs_inv_cong [OF inv] open_channel_jobs by metis
  qed (use s inv in \<open>auto simp: pool_section_def record_best_def Let_def intro: jobs_inv_cong\<close>)
  then show "jobs_inv (pool_step E st e)" by (simp add: pool_step_def s)
qed

lemma find_job_known:
  assumes "distinct (map pj_id (known_jobs st))"
  shows "find_job jid st = Some j \<longleftrightarrow> j \<in> set (known_jobs st) \<and> pj_id j = jid"
proof -
  have find: "List.find (\<lambda>j. pj_id j = jid) xs = Some j \<longleftrightarrow> j \<in> set xs \<and> pj_id j = jid"
    if "distinct (map pj_id xs)" for xs
    using that by (induction xs) (auto simp: rev_image_eqI)
  show ?thesis
  proof (cases "ps_active st")
    case None
    then show ?thesis using assms find by (simp add: find_job_def known_jobs_def)
  next
    case (Some a)
    then have d: "distinct (map pj_id (ps_past_jobs st))" "pj_id a \<notin> pj_id ` set (ps_past_jobs st)"
      using assms by (simp_all add: known_jobs_def)
    then show ?thesis using Some find [OF d(1)] by (auto simp: find_job_def known_jobs_def)
  qed
qed

text \<open>
  C21: Job ids identify jobs. After any sequence of the pool's sections (templates, channel openings,
  shares with their retargets, bookkeeping), at most seventeen jobs can be answered, no two of them
  have the same id, every id is below the next one to be given out, and looking an id up finds the job
  that has it, whenever there is one.
\<close>

theorem pool_job_ids:
  fixes E :: "('d, 'n) pool_env"
  assumes "run_ok (pool_ok E) (pool_step E) (pool_new E cfg now) es"
  shows "let st = foldl (pool_step E) (pool_new E cfg now) es
    in length (known_jobs st) \<le> 17 \<and> distinct (map pj_id (known_jobs st)) \<and>
       (\<forall>j \<in> set (known_jobs st). pj_id j < ps_next_job_id st) \<and>
       (\<forall>jid j. find_job jid st = Some j \<longleftrightarrow> j \<in> set (known_jobs st) \<and> pj_id j = jid)"
proof -
  define st where "st = foldl (pool_step E) (pool_new E cfg now) es"
  have inv: "jobs_inv st" unfolding st_def by (rule pool.inv_run [OF assms])
  moreover from inv have "length (known_jobs st) \<le> 17"
    by (auto simp: jobs_inv_def known_jobs_def split: option.splits)
  ultimately show ?thesis using find_job_known unfolding Let_def st_def [symmetric] jobs_inv_def by blast
qed

text \<open>
  C22: A superseded job stays answerable. When the refresher rotates the job, the new active job has
  an id nobody had, and shares of the job it replaces still find it. This also holds when the tip of the chain
  changed: the older jobs are forgotten then, but the job of the old tip is kept.
\<close>

theorem superseded_job_kept:
  fixes E :: "('d, 'n) pool_env"
  assumes "run_ok (pool_ok E) (pool_step E) (pool_new E cfg now) es"
    and "st = foldl (pool_step E) (pool_new E cfg now) es"
    and "refresh_template E tpl st = Some (st', outs)" "outs \<noteq> []" "ps_active st = Some a"
  shows "find_job (pj_id a) st' = Some a \<and>
    (\<exists>job. ps_active st' = Some job \<and> find_job (pj_id job) st = None \<and> pj_node_job_id job = tpl_job_id tpl) \<and>
    (ps_last_prev st \<noteq> show_block_id E (tpl_prev_hash tpl) \<longrightarrow> ps_past_jobs st' = [a])"
proof -
  have inv: "jobs_inv st" unfolding assms(2) by (rule pool.inv_run [OF assms(1)])
  have inv': "jobs_inv st'" by (rule jobs_inv_refresh [OF assms(3) inv])
  from assms(3) show ?thesis
  proof (cases rule: refresh_template_cases)
    case unchanged
    with assms(4) show ?thesis by simp
  next
    case (rotated n job st1)
    have past: "ps_past_jobs st' = drop (length (known_jobs st1) - 16) (known_jobs st1)"
      using rotated(3,7) assms(5) by (simp add: retire_past)
    have k1: "known_jobs st1 = ps_past_jobs st1 @ [a]" using rotated(3) assms(5) by (simp add: known_jobs_def)
    have "a \<in> set (ps_past_jobs st')" unfolding past k1 by (simp add: drop_append)
    then have "a \<in> set (known_jobs st')" by (simp add: known_jobs_def)
    then have "find_job (pj_id a) st' = Some a" using find_job_known inv' unfolding jobs_inv_def by blast
    moreover have "find_job (pj_id job) st = None"
    proof (rule ccontr)
      assume "find_job (pj_id job) st \<noteq> None"
      then obtain j where "find_job (pj_id job) st = Some j" by blast
      then have "j \<in> set (known_jobs st)" "pj_id j = ps_next_job_id st"
        using find_job_known inv rotated(5) unfolding jobs_inv_def by metis+
      with inv show False unfolding jobs_inv_def by (metis less_irrefl)
    qed
    moreover have "ps_active st' = Some job" using rotated(7) by simp
    moreover have "ps_past_jobs st' = [a]" if "ps_last_prev st \<noteq> show_block_id E (tpl_prev_hash tpl)"
      using that rotated(2) unfolding past k1 by (simp add: new_tip_def)
    ultimately show ?thesis using rotated(6) by blast
  qed
qed

section \<open>The share target\<close>

lemma unat_ucast_drop: "unat (ucast (drop_bit k (w :: 'a :: len word)) :: u8) = unat w div 2 ^ k mod 256"
  by (simp add: unsigned_ucast_eq take_bit_eq_mod unat_drop_bit_eq drop_bit_eq_div [where ?'a = nat])

lemma le_number_to_le: "le_number (to_le n w) = unat w mod 256 ^ n"
proof (induction n)
  case (Suc n)
  have "to_le (Suc n) w = to_le n w @ [ucast (drop_bit (8 * n) w)]" by (simp add: to_le_def)
  then have "le_number (to_le (Suc n) w) = unat w mod 256 ^ n + 256 ^ n * (unat w div 256 ^ n mod 256)"
    by (simp add: le_number_append Suc.IH unat_ucast_drop power_mult)
  also have "\<dots> = unat w mod (256 ^ n * 256)" by (simp add: mod_mult2_eq)
  finally show ?case by (simp add: mult.commute)
qed (simp add: to_le_def)

lemma le_number_zeros [simp]: "le_number (replicate n 0) = 0"
  by (induction n) simp_all

lemma low_byte_u64: "(ucast ((v :: u64) AND 0xff) :: u8) = ucast v"
proof -
  have "v AND 0xff = take_bit 8 v" by (simp add: take_bit_eq_mask mask_eq_exp_minus_1)
  then show ?thesis by (intro bit_word_eqI) (auto simp: bit_simps)
qed

text \<open>What the code relies on of doubles, \<open>val\<close> being the number a finite one stands for.\<close>

definition float_law :: "('d, 'm) float_ops_scheme \<Rightarrow> ('d \<Rightarrow> bool) \<Rightarrow> ('d \<Rightarrow> rat) \<Rightarrow> bool" where
  "float_law F fin val \<longleftrightarrow>
    (\<forall>x y. fin x \<and> fin y \<longrightarrow> (fl_less F x y \<longleftrightarrow> val x < val y)) \<and>
    (\<forall>n :: nat. n < 2 ^ 53 \<longrightarrow> fin (fl_lit F (of_nat n)) \<and> val (fl_lit F (of_nat n)) = of_nat n) \<and>
    (\<forall>k :: nat. k \<le> 1023 \<longrightarrow> fin (fl_pow2 F (int k)) \<and> val (fl_pow2 F (int k)) = 2 ^ k) \<and>
    (\<forall>x y. fin x \<and> fin y \<and> 0 \<le> val x \<and> 1 \<le> val y \<longrightarrow>
      fin (fl_div F x y) \<and> 0 \<le> val (fl_div F x y) \<and> val (fl_div F x y) \<le> val x) \<and>
    (\<forall>x. fin x \<longrightarrow> fin (fl_floor F x) \<and> val (fl_floor F x) = of_int \<lfloor>val x\<rfloor>) \<and>
    (\<forall>x. fin x \<and> 0 \<le> val x \<longrightarrow>
      fin (fl_sub F x (fl_floor F x)) \<and> val (fl_sub F x (fl_floor F x)) = val x - of_int \<lfloor>val x\<rfloor>) \<and>
    (\<forall>x. fin x \<and> 0 \<le> val x \<and> val x < 1 \<longrightarrow>
      fin (fl_mul F x (fl_pow2 F 64)) \<and> val (fl_mul F x (fl_pow2 F 64)) = val x * 2 ^ 64) \<and>
    (\<forall>x. fin x \<and> 0 \<le> val x \<and> val x < 2 ^ 64 \<longrightarrow> int (unat (fl_to_u64 F x)) = \<lfloor>val x\<rfloor>)"

lemma float_facts:
  assumes "float_law F fin val"
  shows float_less: "fin x \<Longrightarrow> fin y \<Longrightarrow> fl_less F x y \<longleftrightarrow> val x < val y"
    and float_lit: "n < 2 ^ 53 \<Longrightarrow> fin (fl_lit F (of_nat n)) \<and> val (fl_lit F (of_nat n)) = of_nat n"
    and float_pow2: "k \<le> 1023 \<Longrightarrow> fin (fl_pow2 F (int k)) \<and> val (fl_pow2 F (int k)) = 2 ^ k"
    and float_div: "fin x \<Longrightarrow> fin y \<Longrightarrow> 0 \<le> val x \<Longrightarrow> 1 \<le> val y \<Longrightarrow>
      fin (fl_div F x y) \<and> 0 \<le> val (fl_div F x y) \<and> val (fl_div F x y) \<le> val x"
    and float_floor: "fin x \<Longrightarrow> fin (fl_floor F x) \<and> val (fl_floor F x) = of_int \<lfloor>val x\<rfloor>"
    and float_frac: "fin x \<Longrightarrow> 0 \<le> val x \<Longrightarrow>
      fin (fl_sub F x (fl_floor F x)) \<and> val (fl_sub F x (fl_floor F x)) = val x - of_int \<lfloor>val x\<rfloor>"
    and float_scale: "fin x \<Longrightarrow> 0 \<le> val x \<Longrightarrow> val x < 1 \<Longrightarrow>
      fin (fl_mul F x (fl_pow2 F 64)) \<and> val (fl_mul F x (fl_pow2 F 64)) = val x * 2 ^ 64"
    and float_to_u64: "fin x \<Longrightarrow> 0 \<le> val x \<Longrightarrow> val x < 2 ^ 64 \<Longrightarrow> int (unat (fl_to_u64 F x)) = \<lfloor>val x\<rfloor>"
  using assms unfolding float_law_def by (elim conjE; simp)+

lemma floor_scale:
  fixes c :: rat
  assumes "0 < c"
  shows "of_int \<lfloor>w\<rfloor> * c \<le> w * c \<and> w * c < of_int \<lfloor>w\<rfloor> * c + c"
proof -
  have "w < of_int \<lfloor>w\<rfloor> + 1" by linarith
  then have "w * c < (of_int \<lfloor>w\<rfloor> + 1) * c" using assms by (rule mult_strict_right_mono)
  moreover have "of_int \<lfloor>w\<rfloor> * c \<le> w * c" using assms by (intro mult_right_mono) simp_all
  ultimately show ?thesis by (simp add: algebra_simps)
qed

lemma clamp_law:
  assumes "float_law F fin val" "fin d"
  shows "fin (fl_clamp F d (fl_lit F 1) (fl_pow2 F 48)) \<and> 1 \<le> val (fl_clamp F d (fl_lit F 1) (fl_pow2 F 48))"
  using float_lit [OF assms(1), of 1] float_pow2 [OF assms(1), of 48] float_less [OF assms(1)] assms(2)
  by (simp add: fl_clamp_def)

text \<open>
  C29: The target sent to the device is the quotient, truncated. Read as a little-endian number the
  32 bytes are the double \<open>65535 / d\<close> (for the difficulty clamped to at least one) times \<open>2 ^ 208\<close>,
  rounded down to a multiple of \<open>2 ^ 144\<close>. So the target is never above that product, less than \<open>2 ^ 144\<close>
  below it, and never above the difficulty-one target.
\<close>

theorem share_target_value:
  assumes "float_law F fin val" "fin d"
  shows "let q = val (fl_div F (fl_lit F 65535) (fl_clamp F d (fl_lit F 1) (fl_pow2 F 48)));
             t = le_number (diff_to_target_le F d)
         in 0 \<le> q \<and> q \<le> 65535 \<and> int t = \<lfloor>q * 2 ^ 64\<rfloor> * 2 ^ 144 \<and> t \<le> 65535 * 2 ^ 208 \<and>
            of_nat t \<le> q * 2 ^ 208 \<and> q * 2 ^ 208 < of_nat t + 2 ^ 144"
proof -
  define q where "q = fl_div F (fl_lit F 65535) (fl_clamp F d (fl_lit F 1) (fl_pow2 F 48))"
  define iq where "iq = fl_to_u64 F (fl_floor F q)"
  define ff where "ff = fl_to_u64 F (fl_mul F (fl_sub F q (fl_floor F q)) (fl_pow2 F 64))"
  have q: "fin q" "0 \<le> val q" "val q \<le> 65535"
    using float_lit [OF assms(1), of 65535] clamp_law [OF assms]
      float_div [OF assms(1), of "fl_lit F 65535" "fl_clamp F d (fl_lit F 1) (fl_pow2 F 48)"]
    unfolding q_def by simp_all
  define v where "v = val q"
  have i: "int (unat iq) = \<lfloor>v\<rfloor>"
    using float_to_u64 [OF assms(1)] float_floor [OF assms(1) q(1)] q(2,3) unfolding iq_def v_def
    by (simp add: order_le_less_trans [of _ 65535] le_floor_iff floor_le_iff)
  have fr: "0 \<le> v - of_int \<lfloor>v\<rfloor>" "v - of_int \<lfloor>v\<rfloor> < 1" by linarith+
  have f: "int (unat ff) = \<lfloor>(v - of_int \<lfloor>v\<rfloor>) * 2 ^ 64\<rfloor>"
    using float_frac [OF assms(1) q(1,2)] float_scale [OF assms(1)] float_to_u64 [OF assms(1)] fr
    unfolding ff_def v_def by simp
  have small: "unat iq < 256 * 256" using i q(3) unfolding v_def by linarith
  have bytes: "diff_to_target_le F d = replicate 18 0 @ to_le 8 ff @ to_le 2 iq @ replicate 4 0"
    by (simp add: diff_to_target_le_def Let_def q_def [symmetric] iq_def [symmetric] ff_def [symmetric]
        to_le_def low_byte_u64 upt_rec)
  have "unat ff < 256 ^ 8" using unsigned_less [of ff, where ?'a = nat] by simp
  then have t: "le_number (diff_to_target_le F d) = (unat ff + 2 ^ 64 * unat iq) * 2 ^ 144"
    unfolding bytes using small by (simp add: le_number_append le_number_to_le power2_eq_square)
  have "\<lfloor>v * 2 ^ 64\<rfloor> = \<lfloor>(v - of_int \<lfloor>v\<rfloor>) * 2 ^ 64 + of_int (\<lfloor>v\<rfloor> * 2 ^ 64)\<rfloor>" by (simp add: algebra_simps)
  also have "\<dots> = int (unat ff) + \<lfloor>v\<rfloor> * 2 ^ 64" unfolding f by (rule floor_add_int [symmetric])
  finally have fl: "int (le_number (diff_to_target_le F d)) = \<lfloor>v * 2 ^ 64\<rfloor> * 2 ^ 144"
    unfolding t i [symmetric] by simp
  then have "rat_of_nat (le_number (diff_to_target_le F d)) = of_int \<lfloor>v * 2 ^ 64\<rfloor> * 2 ^ 144"
    by (metis of_int_mult of_int_numeral of_int_of_nat_eq of_int_power)
  moreover have "v * 2 ^ 64 * 2 ^ 144 = v * 2 ^ 208" by (simp only: mult.assoc power_add [symmetric]) simp
  ultimately have b: "of_nat (le_number (diff_to_target_le F d)) \<le> v * 2 ^ 208"
      "v * 2 ^ 208 < of_nat (le_number (diff_to_target_le F d)) + 2 ^ 144"
    using floor_scale [of "2 ^ 144" "v * 2 ^ 64"] by simp_all
  moreover have "v * 2 ^ 208 \<le> 65535 * 2 ^ 208" using q(3) by (simp add: v_def)
  ultimately have "rat_of_nat (le_number (diff_to_target_le F d)) \<le> of_nat (65535 * 2 ^ 208)" by simp
  then have "le_number (diff_to_target_le F d) \<le> 65535 * 2 ^ 208" by (simp only: of_nat_le_iff)
  then show ?thesis using fl b q(2,3) unfolding Let_def q_def [symmetric] v_def [symmetric] by blast
qed
section \<open>The coinbase\<close>







text \<open>No coinbase without room for the tag: the subtraction underflows.\<close>

lemma build_coinbase_None:
  "build_coinbase tpl cfg = None \<longleftrightarrow> 77 < length (bip34_push (tpl_height tpl)) + length (cfg_worker_tag cfg)"
  by (auto simp: build_coinbase_def Let_def script_sig_len_def)

section \<open>Witnesses\<close>

text \<open>A pool with exact arithmetic whose hash is always zero.\<close>

definition demo_pool :: "(rat, unit) pool_env" where
  "demo_pool = \<lparr>fl_add = (+), fl_sub = (-), fl_mul = (*), fl_div = (/), fl_less = (<), fl_less_eq = (\<le>), fl_eq = (=),
     fl_floor = (\<lambda>x. of_int \<lfloor>x\<rfloor>), fl_to_u64 = (\<lambda>x. word_of_int \<lfloor>x\<rfloor>), fl_of_u64 = (\<lambda>n. of_nat (unat n)),
     fl_lit = (\<lambda>x. x), fl_pow2 = (\<lambda>k. 2 powi k), fl_secs = (\<lambda>ns. of_nat ns / 10 ^ 9),
     sha256d = (\<lambda>_. replicate 32 0), hex_decode = (\<lambda>_. None), hex_encode = (\<lambda>_. []),
     parse_block_id = (\<lambda>_. None), show_block_id = (\<lambda>_. ''tip''), num_u64 = (\<lambda>_. None), num_i64 = (\<lambda>_. None)\<rparr>"

lemma demo_pool_law: "float_law demo_pool (\<lambda>_. True) id"
proof -
  have u: "uint (word_of_int k :: u64) = k" if "0 \<le> k" "k < 18446744073709551616" for k
    using that by (simp add: uint_word_of_int)
  have m: "x \<le> x * y" if "0 \<le> x" "1 \<le> y" for x y :: rat using mult_left_mono [OF that(2,1)] by simp
  show ?thesis by (auto simp: float_law_def demo_pool_def u m floor_less_iff divide_le_eq)
qed

definition demo_config :: pool_config where
  "demo_config = \<lparr>cfg_payout_pkh = replicate 20 0, cfg_worker_tag = [], cfg_extranonce_base = []\<rparr>"

definition demo_template :: "string \<Rightarrow> node_template" where
  "demo_template jid = \<lparr>tpl_job_id = jid, tpl_height = 1, tpl_prev_hash = [], tpl_merkle_branch = [],
     tpl_coinbase_value = 0, tpl_bits = 0x207fffff, tpl_min_ntime = 0, tpl_version = 0\<rparr>"

definition demo_share :: submit_shares where
  "demo_share = \<lparr>ss_channel_id = 1, ss_sequence = 5, ss_job_id = 1, ss_nonce = 0, ss_ntime = 0, ss_version = 0,
     ss_extranonce = []\<rparr>"

lemma demo_build: "\<exists>cb. build_coinbase (demo_template jid) demo_config = Some cb \<and>
    length (cb_prefix cb) \<le> 65535 \<and> length (cb_suffix cb) \<le> 65535"
  by (simp add: build_coinbase_def Let_def demo_template_def demo_config_def bip34_push_def script_sig_len_def)

lemma demo_refresh:
  assumes "ps_cfg st = demo_config" "unat (ps_next_job_id st) < 100"
    and "\<And>a. ps_active st = Some a \<Longrightarrow> pj_node_job_id a \<noteq> jid"
  obtains st' outs job where "refresh_template demo_pool (demo_template jid) st = Some (st', outs)" "outs \<noteq> []"
    "ps_active st' = Some job" "pj_id job = ps_next_job_id st" "pj_node_job_id job = jid"
    "ps_next_job_id st' = ps_next_job_id st + 1" "ps_cfg st' = demo_config" "ps_vardiff st' = ps_vardiff st"
    "ps_shares_ok st' = ps_shares_ok st" "ps_accepted st' = ps_accepted st"
proof -
  obtain cb where cb: "build_coinbase (demo_template jid) demo_config = Some cb"
      "length (cb_prefix cb) \<le> 65535" "length (cb_suffix cb) \<le> 65535"
    using demo_build by blast
  have n: "add_chk (ps_next_job_id st) 1 = Some (ps_next_job_id st + 1)" using assms(2) by (simp add: add_chk_def)
  show ?thesis
    using that assms n cb
    by (cases "ps_active st")
      (auto simp: refresh_template_def make_job_def to_sv2_messages_def retire_active_def demo_template_def Let_def)
qed


lemma zero_not_above: "length xs = n \<Longrightarrow> \<not> bytes_less xs (replicate n 0)"
  by (simp add: bytes_less_number)

theorem share_target_value_witness:
  "float_law demo_pool (\<lambda>_. True) id \<and>
   int (le_number (diff_to_target_le demo_pool 512)) = \<lfloor>65535 / 512 * 2 ^ 64 :: rat\<rfloor> * 2 ^ 144 \<and>
   le_number (diff_to_target_le demo_pool 512) \<le> 65535 * 2 ^ 208"
proof -
  have q: "id (fl_div demo_pool (fl_lit demo_pool 65535) (fl_clamp demo_pool 512 (fl_lit demo_pool 1) (fl_pow2 demo_pool 48))) = 65535 / 512"
    by (simp add: fl_clamp_def demo_pool_def)
  show ?thesis
    using share_target_value [OF demo_pool_law, of 512] demo_pool_law unfolding Let_def q by blast
qed


definition demo_job :: "coinbase_parts \<Rightarrow> pool_job" where
  "demo_job cb = \<lparr>pj_id = 1, pj_node_job_id = ''job'', pj_version = 0, pj_merkle_branch = [], pj_coinbase = cb,
     pj_extranonce_prefix = replicate 10 7, pj_extranonce_size = 8, pj_min_ntime = 0, pj_bits = 0x207fffff,
     pj_height = 200, pj_prev_hash = []\<rparr>"


definition demo_state :: "rat pool_state" where
  "demo_state = pool_new demo_pool demo_config 0"


lemma demo_refreshed:
  obtains job where "pool_section demo_pool demo_state (PRefresh (demo_template ''job'')) =
      Some (pool_step demo_pool demo_state (PRefresh (demo_template ''job'')))"
    "ps_active (pool_step demo_pool demo_state (PRefresh (demo_template ''job''))) = Some job" "pj_id job = 1"
    "pj_node_job_id job = ''job''" "ps_cfg (pool_step demo_pool demo_state (PRefresh (demo_template ''job''))) = demo_config"
    "unat (ps_next_job_id (pool_step demo_pool demo_state (PRefresh (demo_template ''job'')))) < 100"
proof -
  obtain st' outs job where r: "refresh_template demo_pool (demo_template ''job'') demo_state = Some (st', outs)"
      "ps_active st' = Some job" "pj_id job = ps_next_job_id demo_state" "pj_node_job_id job = ''job''"
      "ps_next_job_id st' = ps_next_job_id demo_state + 1" "ps_cfg st' = demo_config"
    by (rule demo_refresh [of demo_state "''job''"]) (simp_all add: demo_state_def pool_new_def)
  have "pool_step demo_pool demo_state (PRefresh (demo_template ''job'')) = st'"
    by (simp add: pool_step_def pool_section_def r(1))
  then show ?thesis using that [of job] r by (simp add: pool_section_def demo_state_def pool_new_def)
qed

theorem pool_job_ids_witness:
  "\<exists>job. run_ok (pool_ok demo_pool) (pool_step demo_pool) (pool_new demo_pool demo_config 0) [PRefresh (demo_template ''job'')] \<and>
     find_job 1 (foldl (pool_step demo_pool) (pool_new demo_pool demo_config 0) [PRefresh (demo_template ''job'')]) = Some job \<and>
     pj_node_job_id job = ''job''"
proof -
  obtain job where j: "pool_section demo_pool demo_state (PRefresh (demo_template ''job'')) \<noteq> None"
      "ps_active (pool_step demo_pool demo_state (PRefresh (demo_template ''job''))) = Some job" "pj_id job = 1"
      "pj_node_job_id job = ''job''"
    by (rule demo_refreshed) simp
  then have run: "run_ok (pool_ok demo_pool) (pool_step demo_pool) (pool_new demo_pool demo_config 0) [PRefresh (demo_template ''job'')]"
    by (simp add: pool_ok_def demo_state_def)
  have "job \<in> set (known_jobs (foldl (pool_step demo_pool) (pool_new demo_pool demo_config 0) [PRefresh (demo_template ''job'')]))"
    using j(2) by (simp add: known_jobs_def demo_state_def)
  with pool_job_ids [OF run] j(3,4) run show ?thesis unfolding Let_def by blast
qed

theorem superseded_job_kept_witness:
  "\<exists>a st st' outs. st = foldl (pool_step demo_pool) (pool_new demo_pool demo_config 0) [PRefresh (demo_template ''job'')] \<and>
     refresh_template demo_pool (demo_template ''next'') st = Some (st', outs) \<and> pj_node_job_id a = ''job'' \<and>
     find_job (pj_id a) st' = Some a"
proof -
  let ?st = "pool_step demo_pool demo_state (PRefresh (demo_template ''job''))"
  obtain job where j: "pool_section demo_pool demo_state (PRefresh (demo_template ''job'')) \<noteq> None"
      "ps_active ?st = Some job" "pj_node_job_id job = ''job''" "ps_cfg ?st = demo_config" "unat (ps_next_job_id ?st) < 100"
    by (rule demo_refreshed) simp
  have run: "run_ok (pool_ok demo_pool) (pool_step demo_pool) (pool_new demo_pool demo_config 0) [PRefresh (demo_template ''job'')]"
    using j(1) by (simp add: pool_ok_def demo_state_def)
  have st: "?st = foldl (pool_step demo_pool) (pool_new demo_pool demo_config 0) [PRefresh (demo_template ''job'')]"
    by (simp add: demo_state_def)
  obtain st' outs where "refresh_template demo_pool (demo_template ''next'') ?st = Some (st', outs)" "outs \<noteq> []"
    by (rule demo_refresh [of ?st "''next''"]) (use j in auto)
  with superseded_job_kept [OF run st this j(2)] st j(3) show ?thesis by blast
qed

lemma demo_verdict:
  "\<exists>st' effs. pool_handle_share demo_pool (\<lambda>_ s. s) (\<lambda>_. 0) Accepted demo_share
     (demo_state\<lparr>ps_active := Some (demo_job \<lparr>cb_prefix = [], cb_suffix = []\<rparr>)\<rparr>) = Some (st', effs)"
proof -
  have "vardiff_section demo_pool 0 s = Some (s\<lparr>ps_vardiff := (ps_vardiff s)\<lparr>shares_since := 1\<rparr>\<rparr>, [])"
    if "ps_vardiff s = vardiff_new demo_pool 0" for s
    using that by (simp add: vardiff_section_def vardiff_share_def vardiff_new_def demo_pool_def add_chk_def Let_def)
  then show ?thesis
    by (simp add: pool_handle_share_def find_job_def demo_share_def demo_job_def zero_not_above Let_def
        submit_block_def count_share_def add_chk_def record_best_def demo_state_def pool_new_def demo_pool_def)
qed

text \<open>A hash of zero meets every target: the share is accepted and its block submitted.\<close>

theorem handle_share_verdict_witness:
  "\<exists>st' effs job. job = demo_job \<lparr>cb_prefix = [], cb_suffix = []\<rparr> \<and>
     pool_handle_share demo_pool (\<lambda>_ s. s) (\<lambda>_. 0) Accepted demo_share (demo_state\<lparr>ps_active := Some job\<rparr>) = Some (st', effs) \<and>
     SubmitBlock (share_header (sha256d demo_pool) job demo_share @ [1] @ share_coinbase job demo_share) ''job'' \<in> set effs \<and>
     Reply (ShareSuccess 1 5 (ps_accepted st')) \<in> set effs"
proof -
  define job where "job = demo_job \<lparr>cb_prefix = [], cb_suffix = []\<rparr>"
  obtain st' effs where r: "pool_handle_share demo_pool (\<lambda>_ s. s) (\<lambda>_. 0) Accepted demo_share
      (demo_state\<lparr>ps_active := Some job\<rparr>) = Some (st', effs)"
    using demo_verdict unfolding job_def by blast
  have sha: "sha256d demo_pool x = replicate 32 0" for x by (simp add: demo_pool_def)
  have "find_job (ss_job_id demo_share) (demo_state\<lparr>ps_active := Some job\<rparr>) = Some job"
    by (simp add: find_job_def demo_share_def demo_job_def job_def)
  moreover have "pj_node_job_id job = ''job''" "ss_channel_id demo_share = 1" "ss_sequence demo_share = 5"
    by (simp_all add: job_def demo_job_def demo_share_def)
  ultimately have "SubmitBlock (share_header (sha256d demo_pool) job demo_share @ [1] @ share_coinbase job demo_share) ''job'' \<in> set effs \<and>
     Reply (ShareSuccess 1 5 (ps_accepted st')) \<in> set effs"
    using handle_share_verdict [OF r] by (auto simp: sha Let_def)
  with r show ?thesis using job_def by blast
qed

end
