(* ===== verification/Nano3s_Board.thy ===== *)
theory Nano3s_Board
  imports Chip_Thread Stratum_Source
begin

text \<open>
  The Avalon Nano3s board driver, from \<open>mujina-miner/src/board/nano3s.rs\<close>: power modes and
  their limits, the tuning persisted across reboots, version rolling candidates, the job handed
  to the chain over the IPC shim, and the share rebuilt from a reported nonce. The IPC shim is C
  code of the device; its calls are data here and their outcomes a parameter. The \<open>f64\<close>
  arithmetic, the hashes and the work of a target are parameters of the model.
\<close>

section \<open>Parameters\<close>

text \<open>
  The \<open>f64\<close> operations on watts and difficulties: literals, sum, difference, comparison,
  \<open>Display\<close> and \<open>parse\<close>.
\<close>

record 'w power_ops =
  pw_lit :: "rat \<Rightarrow> 'w"
  pw_add :: "'w \<Rightarrow> 'w \<Rightarrow> 'w"
  pw_sub :: "'w \<Rightarrow> 'w \<Rightarrow> 'w"
  pw_lt :: "'w \<Rightarrow> 'w \<Rightarrow> bool"
  pw_le :: "'w \<Rightarrow> 'w \<Rightarrow> bool"
  pw_print :: "'w \<Rightarrow> string"
  pw_parse :: "string \<Rightarrow> 'w option"

text \<open>
  \<open>ne_ok n\<close> says whether the IPC call that is the n-th effect of the worker succeeds.
\<close>

record 'w nano_env =
  ne_power :: "'w power_ops"
  ne_f64 :: "'w f64_ops"
  ne_ok :: "nat \<Rightarrow> bool"
  ne_sha256d :: "u8 list \<Rightarrow> hash256"
  ne_block_hash :: "block_header \<Rightarrow> hash256"
  ne_to_work :: "u256 \<Rightarrow> u256"
  ne_target_max :: u256
  ne_as_f64 :: "difficulty \<Rightarrow> 'w"
  ne_as_u64 :: "difficulty \<Rightarrow> u64"
  ne_of_u64 :: "u64 \<Rightarrow> 'w"
  ne_difficulty_float :: "u256 \<Rightarrow> 'w"
  ne_gigahashes :: "u32 \<Rightarrow> hash_rate"

section \<open>Power modes\<close>

type_synonym pll_freq = "u32 \<times> u32 \<times> u32 \<times> u32"

datatype power_mode = Stock | Overclock | Bypass

definition mode_as_str :: "power_mode \<Rightarrow> string" where
  "mode_as_str m = (case m of Stock \<Rightarrow> ''stock'' | Overclock \<Rightarrow> ''oc'' | Bypass \<Rightarrow> ''bypass'')"

definition mode_parse :: "string \<Rightarrow> power_mode option" where
  "mode_parse s =
    (if s = ''stock'' then Some Stock else if s = ''oc'' then Some Overclock
     else if s = ''bypass'' then Some Bypass else None)"

definition pll_freq_target :: pll_freq where
  "pll_freq_target = (210, 230, 250, 270)"

definition ramp_target :: "power_mode \<Rightarrow> pll_freq" where
  "ramp_target m = (case m of Stock \<Rightarrow> pll_freq_target | _ \<Rightarrow> (420, 440, 460, 480))"

definition voltage_range_mv :: "power_mode \<Rightarrow> int \<times> int" where
  "voltage_range_mv m = (case m of Bypass \<Rightarrow> (3000, 4095) | _ \<Rightarrow> (3300, 3800))"

text \<open>\<open>i32::clamp\<close> into the range of a mode.\<close>

definition clamp_mv :: "power_mode \<Rightarrow> int \<Rightarrow> int" where
  "clamp_mv m mv = (let (vmin, vmax) = voltage_range_mv m in if mv < vmin then vmin else if vmax < mv then vmax else mv)"

definition safety_trip_w_for :: "('w, 'm) power_ops_scheme \<Rightarrow> power_mode \<Rightarrow> 'w option \<Rightarrow> 'w option" where
  "safety_trip_w_for P m target =
    (case m of
       Stock \<Rightarrow> Some (pw_lit P 120)
     | Overclock \<Rightarrow> (case target of Some t \<Rightarrow> Some (pw_add P t (pw_lit P 8)) | None \<Rightarrow> Some (pw_lit P 133))
     | Bypass \<Rightarrow> None)"

definition api_max_power_target_w :: "('w, 'm) power_ops_scheme \<Rightarrow> power_mode \<Rightarrow> 'w" where
  "api_max_power_target_w P m =
    (case m of Stock \<Rightarrow> pw_lit P 130 | Overclock \<Rightarrow> pw_lit P 150 | Bypass \<Rightarrow> pw_lit P 250)"

text \<open>The mode file's contents, if it can be read.\<close>

definition load_power_mode :: "string option \<Rightarrow> power_mode" where
  "load_power_mode contents =
    (case contents of
       None \<Rightarrow> Stock
     | Some s \<Rightarrow> (case mode_parse (trim s) of Some m \<Rightarrow> m | None \<Rightarrow> Stock))"

section \<open>Persisted tuning\<close>

record 'w persisted_tuning =
  pt_freq :: "pll_freq option"
  pt_voltage :: "int option"
  pt_power :: "'w option"

definition pt_default :: "'w persisted_tuning" where
  "pt_default = \<lparr>pt_freq = None, pt_voltage = None, pt_power = None\<rparr>"

definition pt_is_empty :: "'w persisted_tuning \<Rightarrow> bool" where
  "pt_is_empty t \<longleftrightarrow> pt_freq t = None \<and> pt_voltage t = None \<and> pt_power t = None"

fun freq_fields :: "pll_freq \<Rightarrow> string list" where
  "freq_fields (a, b, c, d) = [show_nat (unat a), show_nat (unat b), show_nat (unat c), show_nat (unat d)]"

definition pt_parts :: "('w, 'm) power_ops_scheme \<Rightarrow> 'w persisted_tuning \<Rightarrow> string list" where
  "pt_parts P t =
    (case pt_freq t of None \<Rightarrow> [] | Some f \<Rightarrow> [''freq='' @ join_with CHR '','' (freq_fields f)]) @
    (case pt_voltage t of None \<Rightarrow> [] | Some v \<Rightarrow> [''volt='' @ show_int v]) @
    (case pt_power t of None \<Rightarrow> [] | Some w \<Rightarrow> [''power='' @ pw_print P w])"

definition pt_serialize :: "('w, 'm) power_ops_scheme \<Rightarrow> 'w persisted_tuning \<Rightarrow> string" where
  "pt_serialize P t = join_with CHR '';'' (pt_parts P t)"

text \<open>\<open>parse::<u32>\<close> of four fields, all of which must be numbers.\<close>

definition parse_freq :: "string list \<Rightarrow> pll_freq option" where
  "parse_freq fs =
    (case traverse parse_u32 fs of Some [a, b, c, d] \<Rightarrow> Some (a, b, c, d) | _ \<Rightarrow> None)"

text \<open>
  A bad frequency or an unknown key rejects the file; a bad voltage or power is dropped.
\<close>

definition pt_parse_part ::
  "('w, 'm) power_ops_scheme \<Rightarrow> string \<Rightarrow> 'w persisted_tuning \<Rightarrow> 'w persisted_tuning option" where
  "pt_parse_part P part acc =
    (case split_once CHR ''='' part of
       None \<Rightarrow> Some acc
     | Some (key, val) \<Rightarrow>
         if key = ''freq'' then
           (case parse_freq (split_on CHR '','' val) of
              None \<Rightarrow> None | Some f \<Rightarrow> Some (acc\<lparr>pt_freq := Some f\<rparr>))
         else if key = ''volt'' then Some (acc\<lparr>pt_voltage := parse_i32 val\<rparr>)
         else if key = ''power'' then Some (acc\<lparr>pt_power := pw_parse P val\<rparr>)
         else None)"

fun pt_parse_parts ::
  "('w, 'm) power_ops_scheme \<Rightarrow> string list \<Rightarrow> 'w persisted_tuning \<Rightarrow> 'w persisted_tuning option" where
  "pt_parse_parts P [] acc = Some acc"
| "pt_parse_parts P (p # ps) acc =
     (case pt_parse_part P p acc of None \<Rightarrow> None | Some acc' \<Rightarrow> pt_parse_parts P ps acc')"

definition pt_parse :: "('w, 'm) power_ops_scheme \<Rightarrow> string \<Rightarrow> 'w persisted_tuning option" where
  "pt_parse P s = pt_parse_parts P (split_on CHR '';'' (trim s)) pt_default"

definition read_persisted_tuning :: "('w, 'm) power_ops_scheme \<Rightarrow> string option \<Rightarrow> 'w persisted_tuning option" where
  "read_persisted_tuning P contents =
    Option.bind contents (\<lambda>raw. Option.bind (pt_parse P raw) (\<lambda>t. if pt_is_empty t then None else Some t))"

text \<open>The answer of \<open>GET power-mode\<close>, from the two files and the environment variable.\<close>

record 'w power_mode_state =
  ms_mode :: string
  ms_ramp :: pll_freq
  ms_range :: "int \<times> int"
  ms_max_power :: 'w
  ms_trip :: "'w option"

definition get_power_mode_state ::
  "('w, 'm) power_ops_scheme \<Rightarrow> string option \<Rightarrow> string option \<Rightarrow> string option \<Rightarrow> 'w power_mode_state" where
  "get_power_mode_state P mode_file tuning_file var =
    (let m = load_power_mode mode_file;
         live_target = (case Option.bind (read_persisted_tuning P tuning_file) pt_power of
                          Some w \<Rightarrow> Some w
                        | None \<Rightarrow> Option.bind var (\<lambda>s. pw_parse P (trim s)))
     in \<lparr>ms_mode = mode_as_str m, ms_ramp = ramp_target m, ms_range = voltage_range_mv m,
         ms_max_power = api_max_power_target_w P m, ms_trip = safety_trip_w_for P m live_target\<rparr>)"

section \<open>Version rolling candidates\<close>

text \<open>
  Eight slots: zero, the whole mask, then the single bits 15 to 28 of the mask as long as there
  are slots; slots that stay unused keep zero.
\<close>

definition vmask_slots :: "u32 \<Rightarrow> u32 list" where
  "vmask_slots msk =
    (let cs = take 8 (0 # msk # map (\<lambda>b. push_bit b 1) (filter (\<lambda>b. bit msk b) [15..<29]))
     in cs @ replicate (8 - length cs) 0)"

definition nano3s_vmask_candidates :: "u32 \<Rightarrow> u32 \<Rightarrow> u32 list" where
  "nano3s_vmask_candidates base msk = map (\<lambda>c. base OR c) (vmask_slots msk)"

definition gp_bits_mask_to_raw :: "gp_bits \<Rightarrow> u32" where
  "gp_bits_mask_to_raw gp_mask = push_bit 13 (ucast (gp_u16 gp_mask))"

fun word_bswap32 :: "u8 list \<Rightarrow> u8 list" where
  "word_bswap32 (a # b # c # d # rest) = [d, c, b, a] @ word_bswap32 rest"
| "word_bswap32 _ = []"

section \<open>Jobs\<close>

record job_context =
  jc_version_base :: u32
  jc_prev_blockhash :: hash256
  jc_bits :: u32
  jc_coinbase1 :: "u8 list"
  jc_coinbase2 :: "u8 list"
  jc_extranonce1 :: "u8 list"
  jc_en2_high :: u32
  jc_merkle_branches :: "hash256 list"
  jc_ntime :: u32
  jc_share_target :: u256
  jc_share_tx :: key
  jc_vmask_candidates :: "u32 list"

definition compute_merkle_root_for_nonce2 :: "(u8 list \<Rightarrow> hash256) \<Rightarrow> job_context \<Rightarrow> u32 \<Rightarrow> hash256" where
  "compute_merkle_root_for_nonce2 sha256d ctx nonce2 =
    (let coinbase = jc_coinbase1 ctx @ jc_extranonce1 ctx @ to_le 4 nonce2 @ to_le 4 (jc_en2_high ctx) @ jc_coinbase2 ctx
     in climb sha256d (sha256d coinbase) (jc_merkle_branches ctx))"

definition max_sane_difficulty :: u64 where
  "max_sane_difficulty = 100000000000"

text \<open>The version of the slot a nonce names, the base version for a slot out of range.\<close>

definition slot_version :: "job_context \<Rightarrow> u8 \<Rightarrow> u32" where
  "slot_version ctx mid_id =
    (if unat mid_id < length (jc_vmask_candidates ctx) then jc_vmask_candidates ctx ! unat mid_id
     else jc_version_base ctx)"

definition chain_share_header :: "(u8 list \<Rightarrow> hash256) \<Rightarrow> job_context \<Rightarrow> u32 \<Rightarrow> u32 \<Rightarrow> u8 \<Rightarrow> block_header" where
  "chain_share_header sha256d ctx nonce2 nonce mid_id =
    \<lparr>bh_version = slot_version ctx mid_id, bh_prev_blockhash = jc_prev_blockhash ctx,
     bh_merkle_root = compute_merkle_root_for_nonce2 sha256d ctx nonce2,
     bh_time = jc_ntime ctx, bh_bits = jc_bits ctx, bh_nonce = swap_bytes nonce\<rparr>"

text \<open>
  The share, the verdict of the local check and the best difficulty seen so far
  (\<open>BEST_SHARE_DIFF\<close>). \<open>None\<close> is the panic of a division by the capped difficulty.
\<close>

definition verify_and_build_share ::
  "'w nano_env \<Rightarrow> job_context \<Rightarrow> u32 \<Rightarrow> u32 \<Rightarrow> u8 \<Rightarrow> 'w \<Rightarrow> (thread_share \<times> bool \<times> 'w) option" where
  "verify_and_build_share E ctx nonce2 nonce mid_id best =
    (let header = chain_share_header (ne_sha256d E) ctx nonce2 nonce mid_id;
         hash = ne_block_hash E header;
         diff = difficulty_from_hash hash
     in map_option (\<lambda>capped_diff.
          let d = ne_as_f64 E capped_diff;
              best' = (if pw_lt (ne_power E) best d then d else best);
              passed = u256_from_le_bytes hash \<le> jc_share_target ctx;
              en2 = (case en2_new (push_bit 32 (ucast (jc_en2_high ctx)) OR ucast nonce2) 8 of
                       Inl _ \<Rightarrow> None | Inr e \<Rightarrow> Some e)
          in (\<lparr>sh_nonce = nonce, sh_hash = hash, sh_version = bh_version header, sh_ntime = jc_ntime ctx,
               sh_extranonce2 = en2, sh_expected_work = ne_to_work E (to_target capped_diff)\<rparr>, passed, best'))
        (if max_sane_difficulty < ne_as_u64 E diff
         then difficulty_from_f64 (ne_f64 E) (ne_target_max E) (ne_of_u64 E max_sane_difficulty)
         else Some diff))"

definition build_header_bytes :: "u32 \<Rightarrow> hash256 \<Rightarrow> u32 \<Rightarrow> u32 \<Rightarrow> u8 list" where
  "build_header_bytes version prev_blockhash ntime bits =
    to_le 4 version @ word_bswap32 prev_blockhash @ replicate 32 0 @ to_be 4 ntime @ to_be 4 bits @ replicate 52 0"

definition target_bytes_for :: "u256 \<Rightarrow> u8 list" where
  "target_bytes_for share_target = take 8 (drop 20 (to_le 32 share_target)) @ replicate 24 0"

section \<open>IPC calls\<close>

text \<open>The arguments of \<open>nano3s_ipc_send_job\<close>; lengths and offsets are passed as 32-bit values.\<close>

record ipc_job =
  ij_job_id :: u32
  ij_nonce2_start :: u32
  ij_nonce2_offset :: u32
  ij_nonce2_size :: u32
  ij_coinbase :: "u8 list"
  ij_merkle_offset :: u32
  ij_merkles :: "u8 list"
  ij_nmerkles :: u32
  ij_header :: "u8 list"
  ij_target :: "u8 list"
  ij_work_restart :: bool
  ij_vmask :: "u32 list"

datatype ipc_call =
  IpcSetMode pll_freq
  | IpcSetVoltage int
  | IpcPause
  | IpcResume
  | IpcSendJob ipc_job

datatype nano_error = HeaderOnly | NoExtranonce2 | TooManyBranches nat | SendJobFailed u32

text \<open>
  The job a task gives, and the context kept for its nonces. Sending it is the last thing that
  can fail, so the caller does it.
\<close>

definition task_to_job ::
  "u32 \<Rightarrow> chip_task \<Rightarrow> bool \<Rightarrow> nano_error + (ipc_job \<times> job_context)" where
  "task_to_job jid task work_restart =
    (let template = ht_template task in
     case job_merkle_root template of
       FixedRoot _ \<Rightarrow> Inl HeaderOnly
     | ComputedRoot mrt \<Rightarrow>
         (case ht_en2 task of
            None \<Rightarrow> Inl NoExtranonce2
          | Some en2 \<Rightarrow>
              let nonce2_start = ucast (en2_value en2 AND 0xFFFFFFFF) :: u32;
                  en2_high = ucast (drop_bit 32 (en2_value en2)) :: u32;
                  coinbase = mt_coinbase1 mrt @ mt_extranonce1 mrt @ to_le 4 nonce2_start @ to_le 4 en2_high @ mt_coinbase2 mrt;
                  nmerkles = length (mt_merkle_branches mrt);
                  base = vt_base (job_version template);
                  vmask_candidates = nano3s_vmask_candidates base (gp_bits_mask_to_raw (vt_gp_bits_mask (job_version template)))
              in if 30 < nmerkles then Inl (TooManyBranches nmerkles)
                 else Inr
                  (\<lparr>ij_job_id = jid, ij_nonce2_start = nonce2_start,
                    ij_nonce2_offset = word_of_nat (length (mt_coinbase1 mrt) + length (mt_extranonce1 mrt)),
                    ij_nonce2_size = 4, ij_coinbase = coinbase, ij_merkle_offset = 36,
                    ij_merkles = concat (mt_merkle_branches mrt), ij_nmerkles = word_of_nat nmerkles,
                    ij_header = build_header_bytes base (job_prev_blockhash template) (ht_ntime task) (job_bits template),
                    ij_target = target_bytes_for (job_share_target template),
                    ij_work_restart = work_restart, ij_vmask = map swap_bytes vmask_candidates\<rparr>,
                   \<lparr>jc_version_base = base, jc_prev_blockhash = job_prev_blockhash template,
                    jc_bits = job_bits template, jc_coinbase1 = mt_coinbase1 mrt, jc_coinbase2 = mt_coinbase2 mrt,
                    jc_extranonce1 = mt_extranonce1 mrt, jc_en2_high = en2_high,
                    jc_merkle_branches = mt_merkle_branches mrt, jc_ntime = ht_ntime task,
                    jc_share_target = ht_share_target task, jc_share_tx = ct_share_tx task,
                    jc_vmask_candidates = vmask_candidates\<rparr>)))"

end
