(* ===== verification/Nano3s_Worker.thy ===== *)
theory Nano3s_Worker
  imports Nano3s_Board
begin

text \<open>
  The worker thread of the Nano3s board, from \<open>run_worker\<close> in
  \<open>mujina-miner/src/board/nano3s.rs\<close>: its start, and one pass of its loop over the control file,
  the commands of the scheduler, the nonces the chain has reported and the status message with
  the power reading. Everything the worker does to the outside is appended to its log, an IPC
  call together with its outcome. The LED strip, the telemetry snapshots and the log lines are
  left out.
\<close>

section \<open>State and effects\<close>

datatype nano_effect =
  Ipc ipc_call bool
  | Harness string
  | SaveMode power_mode
  | SaveTuning string
  | ClearTuning
  | TaskReply "nano_error + chip_task option"
  | ShareSent key thread_share
  | NanoEvent hash_thread_event
  | IpcClosed

record 'w nano_worker =
  nw_mode :: power_mode
  nw_next_job :: u32
  nw_task :: "chip_task option"
  nw_jobs :: "(u32 \<times> job_context) list"
  nw_current_job :: "u32 option"
  nw_idle :: bool
  nw_manual_pause :: bool
  nw_shares_found :: u32
  nw_difficulty :: 'w
  nw_last_power :: 'w
  nw_power_target :: "'w option"
  nw_next_check :: nat
  nw_override :: bool
  nw_last_freq :: pll_freq
  nw_last_mv :: "int option"
  nw_best :: 'w
  nw_log :: "nano_effect list"

definition note_effect :: "nano_effect \<Rightarrow> 'w nano_worker \<Rightarrow> 'w nano_worker" where
  "note_effect e s = s\<lparr>nw_log := nw_log s @ [e]\<rparr>"

definition ipc :: "'w nano_env \<Rightarrow> ipc_call \<Rightarrow> 'w nano_worker \<Rightarrow> bool \<times> 'w nano_worker" where
  "ipc E c s = (let ok = ne_ok E (length (nw_log s)) in (ok, note_effect (Ipc c ok) s))"

section \<open>Start\<close>

text \<open>Times are in milliseconds of the monotonic clock.\<close>

definition check_interval :: nat where
  "check_interval = 150000"

definition initial_worker :: "'w nano_env \<Rightarrow> power_mode \<Rightarrow> 'w option \<Rightarrow> nat \<Rightarrow> 'w nano_worker" where
  "initial_worker E m target now =
    \<lparr>nw_mode = m, nw_next_job = 1, nw_task = None, nw_jobs = [], nw_current_job = None, nw_idle = False,
     nw_manual_pause = False, nw_shares_found = 0, nw_difficulty = pw_lit (ne_power E) 0,
     nw_last_power = pw_lit (ne_power E) 0, nw_power_target = target, nw_next_check = now + check_interval,
     nw_override = False, nw_last_freq = ramp_target m, nw_last_mv = None, nw_best = pw_lit (ne_power E) 0,
     nw_log = []\<rparr>"

definition reapply_freq :: "'w nano_env \<Rightarrow> pll_freq \<Rightarrow> 'w nano_worker \<Rightarrow> 'w nano_worker" where
  "reapply_freq E f s = (let (ok, s) = ipc E (IpcSetMode f) s in if ok then s\<lparr>nw_last_freq := f\<rparr> else s)"

definition reapply_voltage :: "'w nano_env \<Rightarrow> int \<Rightarrow> 'w nano_worker \<Rightarrow> 'w nano_worker" where
  "reapply_voltage E mv s =
    (let clamped = clamp_mv (nw_mode s) mv; (ok, s) = ipc E (IpcSetVoltage clamped) s
     in if ok then s\<lparr>nw_last_mv := Some clamped\<rparr> else s)"

definition reapply_tuning :: "'w nano_env \<Rightarrow> nat \<Rightarrow> 'w persisted_tuning \<Rightarrow> 'w nano_worker \<Rightarrow> 'w nano_worker" where
  "reapply_tuning E now t s =
    (let s = (case pt_freq t of None \<Rightarrow> s | Some f \<Rightarrow> reapply_freq E f s);
         s = (case pt_voltage t of None \<Rightarrow> s | Some mv \<Rightarrow> reapply_voltage E mv s)
     in case pt_power t of None \<Rightarrow> s
        | Some w \<Rightarrow> s\<lparr>nw_power_target := Some w, nw_next_check := now + check_interval\<rparr>)"

text \<open>
  From the mode file, the tuning file, the environment variable of the power target, the
  outcome of \<open>nano3s_ipc_open\<close> and the time. The hash rate declared is 100 GH/s.
\<close>

definition worker_start ::
  "'w nano_env \<Rightarrow> string option \<Rightarrow> string option \<Rightarrow> string option \<Rightarrow> bool \<Rightarrow> nat \<Rightarrow> 'w nano_worker" where
  "worker_start E mode_file tuning_file var ipc_ok now =
    (let m = load_power_mode mode_file;
         s = initial_worker E m (Option.bind var (\<lambda>v. pw_parse (ne_power E) (trim v))) now
     in if \<not> ipc_ok then s
        else let (_, s) = ipc E (IpcSetMode (ramp_target m)) s;
                 s = note_effect (NanoEvent (ExpectedHashRate 100000000000)) s
             in case read_persisted_tuning (ne_power E) tuning_file of
                  None \<Rightarrow> s | Some t \<Rightarrow> reapply_tuning E now t s)"

section \<open>Control file\<close>

definition resume_from_idle :: "'w nano_env \<Rightarrow> 'w nano_worker \<Rightarrow> 'w nano_worker" where
  "resume_from_idle E s = snd (ipc E IpcResume (note_effect (Harness ''resume'') s))"

definition current_tuning :: "'w nano_worker \<Rightarrow> 'w persisted_tuning" where
  "current_tuning s = \<lparr>pt_freq = Some (nw_last_freq s), pt_voltage = nw_last_mv s, pt_power = nw_power_target s\<rparr>"

definition save_tuning :: "'w nano_env \<Rightarrow> 'w nano_worker \<Rightarrow> 'w nano_worker" where
  "save_tuning E s = note_effect (SaveTuning (pt_serialize (ne_power E) (current_tuning s))) s"

definition manual_pause :: "'w nano_env \<Rightarrow> 'w nano_worker \<Rightarrow> 'w nano_worker" where
  "manual_pause E s =
    (let (_, s) = ipc E IpcPause s
     in (note_effect (Harness ''pause'') s)\<lparr>nw_idle := True, nw_manual_pause := True\<rparr>)"

definition manual_resume :: "'w nano_env \<Rightarrow> 'w nano_worker \<Rightarrow> 'w nano_worker" where
  "manual_resume E s =
    (let s = resume_from_idle E s;
         (_, s) = ipc E (IpcSetMode (nw_last_freq s)) s;
         s = (case nw_last_mv s of None \<Rightarrow> s | Some mv \<Rightarrow> snd (ipc E (IpcSetVoltage mv) s))
     in s\<lparr>nw_idle := False, nw_manual_pause := False\<rparr>)"

definition switch_mode :: "'w nano_env \<Rightarrow> power_mode \<Rightarrow> 'w nano_worker \<Rightarrow> 'w nano_worker" where
  "switch_mode E new_mode s =
    (let s = note_effect ClearTuning (note_effect (SaveMode new_mode) (s\<lparr>nw_mode := new_mode\<rparr>));
         (_, s) = ipc E (IpcSetMode (ramp_target new_mode)) (s\<lparr>nw_override := False\<rparr>);
         s = s\<lparr>nw_last_freq := ramp_target new_mode\<rparr>
     in case nw_last_mv s of
          None \<Rightarrow> s
        | Some mv \<Rightarrow>
            let clamped = clamp_mv new_mode mv; (_, s) = ipc E (IpcSetVoltage clamped) s
            in s\<lparr>nw_last_mv := Some clamped\<rparr>)"

definition tune_freq :: "'w nano_env \<Rightarrow> string list \<Rightarrow> 'w nano_worker \<Rightarrow> 'w nano_worker" where
  "tune_freq E fs s =
    (if fs ! 0 = [] then s
     else case parse_freq (take 4 fs) of
            None \<Rightarrow> s
          | Some f \<Rightarrow> let (ok, s) = ipc E (IpcSetMode f) s in if ok then s\<lparr>nw_last_freq := f\<rparr> else s)"

definition tune_voltage :: "'w nano_env \<Rightarrow> string \<Rightarrow> 'w nano_worker \<Rightarrow> 'w nano_worker" where
  "tune_voltage E f s =
    (if f = [] then s
     else case parse_i32 f of
            None \<Rightarrow> s
          | Some mv \<Rightarrow>
              let (ok, s) = ipc E (IpcSetVoltage mv) s
              in if ok then s\<lparr>nw_last_mv := Some mv, nw_override := True\<rparr> else s)"

definition tune_power :: "'w nano_env \<Rightarrow> nat \<Rightarrow> string \<Rightarrow> 'w nano_worker \<Rightarrow> 'w nano_worker" where
  "tune_power E now f s =
    (if f = [] then s
     else case pw_parse (ne_power E) f of
            None \<Rightarrow> s
          | Some w \<Rightarrow> s\<lparr>nw_power_target := Some w, nw_next_check := now, nw_override := False\<rparr>)"

definition tune :: "'w nano_env \<Rightarrow> nat \<Rightarrow> string \<Rightarrow> 'w nano_worker \<Rightarrow> 'w nano_worker" where
  "tune E now body s =
    (let fs = split_on CHR '','' body
     in if length fs \<noteq> 6 then s
        else save_tuning E (tune_power E now (fs ! 5) (tune_voltage E (fs ! 4) (tune_freq E fs s))))"

definition set_power_target :: "'w nano_env \<Rightarrow> nat \<Rightarrow> string \<Rightarrow> 'w nano_worker \<Rightarrow> 'w nano_worker" where
  "set_power_target E now v s =
    (if v = ''off'' then save_tuning E (s\<lparr>nw_power_target := None, nw_override := False\<rparr>)
     else case pw_parse (ne_power E) v of
            None \<Rightarrow> s
          | Some w \<Rightarrow> save_tuning E (s\<lparr>nw_power_target := Some w, nw_next_check := now, nw_override := False\<rparr>))"

definition control_command :: "string option \<Rightarrow> string option" where
  "control_command contents =
    Option.bind contents (\<lambda>c. let cmd = trim c in if cmd = [] then None else Some cmd)"

definition control_step :: "'w nano_env \<Rightarrow> nat \<Rightarrow> string option \<Rightarrow> 'w nano_worker \<Rightarrow> 'w nano_worker" where
  "control_step E now cmd s =
    (case cmd of
       None \<Rightarrow> s
     | Some c \<Rightarrow>
         if c = ''pause'' \<and> \<not> nw_manual_pause s then manual_pause E s
         else if c = ''resume'' \<and> nw_manual_pause s then manual_resume E s
         else
          (case strip_prefix ''mode:'' c of
             Some m \<Rightarrow> (case mode_parse m of None \<Rightarrow> s | Some new_mode \<Rightarrow> switch_mode E new_mode s)
           | None \<Rightarrow>
               (case strip_prefix ''tune:'' c of
                  Some body \<Rightarrow> tune E now body s
                | None \<Rightarrow>
                    (case strip_prefix ''power_target:'' c of
                       Some v \<Rightarrow> set_power_target E now v s
                     | None \<Rightarrow> s))))"

section \<open>Commands of the scheduler\<close>

datatype worker_command = CmdUpdateTask chip_task bool | CmdGoIdle | CmdShutdown

text \<open>Insert into the job map; above four entries the smallest id goes.\<close>

definition jobs_insert :: "u32 \<Rightarrow> job_context \<Rightarrow> (u32 \<times> job_context) list \<Rightarrow> (u32 \<times> job_context) list" where
  "jobs_insert k ctx js =
    (let js = (k, ctx) # filter (\<lambda>p. fst p \<noteq> k) js
     in if 4 < length js then filter (\<lambda>p. fst p \<noteq> Min (set (map fst js))) js else js)"

definition worker_update_task :: "'w nano_env \<Rightarrow> chip_task \<Rightarrow> bool \<Rightarrow> 'w nano_worker \<Rightarrow> 'w nano_worker" where
  "worker_update_task E task replace s =
    (if nw_manual_pause s then note_effect (TaskReply (Inr (nw_task s))) (s\<lparr>nw_task := Some task\<rparr>)
     else
       let s = (if nw_idle s then (resume_from_idle E s)\<lparr>nw_idle := False\<rparr> else s);
           jid = nw_next_job s;
           s = s\<lparr>nw_next_job := jid + 1\<rparr>
       in case task_to_job jid task replace of
            Inl e \<Rightarrow> note_effect (TaskReply (Inl e)) s
          | Inr (job, ctx) \<Rightarrow>
              let (ok, s) = ipc E (IpcSendJob job) s
              in if \<not> ok then note_effect (TaskReply (Inl (SendJobFailed jid))) s
                 else note_effect (TaskReply (Inr (nw_task s)))
                   (s\<lparr>nw_difficulty := ne_difficulty_float E (jc_share_target ctx),
                      nw_jobs := jobs_insert jid ctx (nw_jobs s), nw_current_job := Some jid,
                      nw_task := Some task\<rparr>))"

definition worker_go_idle :: "'w nano_env \<Rightarrow> 'w nano_worker \<Rightarrow> 'w nano_worker" where
  "worker_go_idle E s =
    (let (_, s) = ipc E IpcPause s;
         s = note_effect (Harness ''pause'') s
     in note_effect (TaskReply (Inr (nw_task s))) (s\<lparr>nw_idle := True, nw_task := None\<rparr>))"

text \<open>The result says whether the worker ends; a closed channel ends it once it is empty.\<close>

fun drain_commands :: "'w nano_env \<Rightarrow> worker_command list \<Rightarrow> bool \<Rightarrow> 'w nano_worker \<Rightarrow> bool \<times> 'w nano_worker" where
  "drain_commands E [] disconnected s =
     (if disconnected then (True, note_effect IpcClosed s) else (False, s))"
| "drain_commands E (CmdUpdateTask task replace # cs) disconnected s =
     drain_commands E cs disconnected (worker_update_task E task replace s)"
| "drain_commands E (CmdGoIdle # cs) disconnected s = drain_commands E cs disconnected (worker_go_idle E s)"
| "drain_commands E (CmdShutdown # cs) disconnected s = (True, note_effect IpcClosed s)"

section \<open>Nonces\<close>

record nano_nonce =
  nn_job_id :: u32
  nn_nonce2 :: u32
  nn_nonce :: u32
  nn_mid_id :: u8

text \<open>\<open>shares_found += 1\<close> is checked.\<close>

definition nonce_step :: "'w nano_env \<Rightarrow> nano_nonce \<Rightarrow> 'w nano_worker \<Rightarrow> 'w nano_worker option" where
  "nonce_step E n s =
    (case map_of (nw_jobs s) (nn_job_id n) of
       None \<Rightarrow> Some s
     | Some ctx \<Rightarrow>
         Option.bind (verify_and_build_share E ctx (nn_nonce2 n) (nn_nonce n) (nn_mid_id n) (nw_best s))
           (\<lambda>(sh, _, best). map_option (\<lambda>k.
              note_effect (ShareSent (jc_share_tx ctx) sh) (s\<lparr>nw_shares_found := k, nw_best := best\<rparr>))
            (add_chk (nw_shares_found s) 1)))"

fun drain_nonces :: "'w nano_env \<Rightarrow> nano_nonce list \<Rightarrow> 'w nano_worker \<Rightarrow> 'w nano_worker option" where
  "drain_nonces E [] s = Some s"
| "drain_nonces E (n # ns) s = Option.bind (nonce_step E n s) (drain_nonces E ns)"

section \<open>Status and the power-target loop\<close>

record nano_status =
  st_ghsmm :: u32
  st_voltage_mv :: u32

definition servo_step :: "('w, 'm) power_ops_scheme \<Rightarrow> power_mode \<Rightarrow> 'w \<Rightarrow> 'w \<Rightarrow> bool \<Rightarrow> bool \<Rightarrow> int option" where
  "servo_step P m target_w power_w override due =
    (if (case safety_trip_w_for P m (Some target_w) of None \<Rightarrow> False | Some trip \<Rightarrow> pw_lt P trip power_w)
     then Some (- 26)
     else if \<not> override \<and> due then
       if pw_lt P power_w (pw_sub P target_w (pw_lit P 5)) then Some 26
       else if pw_lt P (pw_add P target_w (pw_lit P 5)) power_w then Some (- 26)
       else None
     else None)"

text \<open>\<open>i32\<close> sums, \<open>None\<close> on overflow.\<close>

definition add_i32 :: "int \<Rightarrow> int \<Rightarrow> int option" where
  "add_i32 a b = (let r = a + b in if - (2 ^ 31) \<le> r \<and> r < 2 ^ 31 then Some r else None)"

definition servo_voltage :: "power_mode \<Rightarrow> int \<Rightarrow> int \<Rightarrow> int option" where
  "servo_voltage m cur_mv step =
    map_option (clamp_mv m)
      (Option.bind (add_i32 cur_mv step) (\<lambda>new_mv. if new_mv = 3600 then add_i32 new_mv step else Some new_mv))"

definition servo :: "'w nano_env \<Rightarrow> nat \<Rightarrow> nano_status \<Rightarrow> 'w \<Rightarrow> 'w nano_worker \<Rightarrow> 'w nano_worker option" where
  "servo E now st power_w s =
    (case nw_power_target s of
       None \<Rightarrow> Some s
     | Some target_w \<Rightarrow>
         let cur_mv = sint (st_voltage_mv st) in
         (case servo_step (ne_power E) (nw_mode s) target_w power_w (nw_override s) (nw_next_check s \<le> now) of
            None \<Rightarrow> Some s
          | Some step \<Rightarrow>
              map_option (\<lambda>new_mv.
                let s = (if new_mv \<noteq> cur_mv then
                           let (ok, s) = ipc E (IpcSetVoltage new_mv) s
                           in if ok then s\<lparr>nw_last_mv := Some new_mv\<rparr> else s
                         else s)
                in s\<lparr>nw_next_check := now + check_interval\<rparr>)
              (servo_voltage (nw_mode s) cur_mv step)))"

definition status_step ::
  "'w nano_env \<Rightarrow> nat \<Rightarrow> (nano_status \<times> 'w) option \<Rightarrow> 'w nano_worker \<Rightarrow> 'w nano_worker option" where
  "status_step E now status s =
    (case status of
       None \<Rightarrow> Some s
     | Some (st, power_w) \<Rightarrow>
         servo E now st power_w
           ((note_effect (NanoEvent (StatusUpdate (ne_gigahashes E (st_ghsmm st)))) s)\<lparr>nw_last_power := power_w\<rparr>))"

section \<open>The loop\<close>

text \<open>
  What one pass finds: the control file, the commands, the nonces, the status with the power
  reading, and the clock when it reads the control file and when it handles the status.
\<close>

record 'w pass_input =
  pi_control :: "string option"
  pi_commands :: "worker_command list"
  pi_disconnected :: bool
  pi_nonces :: "nano_nonce list"
  pi_status :: "(nano_status \<times> 'w) option"
  pi_control_now :: nat
  pi_now :: nat

definition worker_pass :: "'w nano_env \<Rightarrow> 'w pass_input \<Rightarrow> 'w nano_worker \<Rightarrow> (bool \<times> 'w nano_worker) option" where
  "worker_pass E i s =
    (let s = control_step E (pi_control_now i) (control_command (pi_control i)) s;
         (stopped, s) = drain_commands E (pi_commands i) (pi_disconnected i) s
     in if stopped then Some (True, s)
        else Option.bind (drain_nonces E (pi_nonces i) s)
               (\<lambda>s. map_option (Pair False) (status_step E (pi_now i) (pi_status i) s)))"

fun worker_run :: "'w nano_env \<Rightarrow> 'w pass_input list \<Rightarrow> 'w nano_worker \<Rightarrow> (bool \<times> 'w nano_worker) option" where
  "worker_run E [] s = Some (False, s)"
| "worker_run E (i # is) s =
     Option.bind (worker_pass E i s) (\<lambda>(stopped, s). if stopped then Some (True, s) else worker_run E is s)"

end
