(* ===== verification/Nano3s_Api.thy ===== *)
theory Nano3s_Api
  imports Nano3s_Worker Stratum_Messages
begin

text \<open>
  The way a request to the REST API reaches the Nano3s board: the range checks of the handlers
  in \<open>mujina-miner/src/api/v0.rs\<close> and the control files they write through
  \<open>mujina-miner/src/board/nano3s.rs\<close>, as compiled with the \<open>nano3s\<close> feature. A handler is a
  function of whether the board is known, whether the file can be written, and the request; it
  gives the HTTP status and the contents written. The LED override is a state of its own.
\<close>

section \<open>Control files\<close>

datatype http_status = HttpOk | HttpBadRequest | HttpNotFound | HttpInternalError

definition tuning_fields ::
  "('w, 'm) power_ops_scheme \<Rightarrow> pll_freq option \<Rightarrow> u32 option \<Rightarrow> 'w option \<Rightarrow> string list" where
  "tuning_fields P pll_freq_mhz voltage_mv power_target_w =
    (case pll_freq_mhz of None \<Rightarrow> [[], [], [], []] | Some f \<Rightarrow> freq_fields f) @
    [case voltage_mv of None \<Rightarrow> [] | Some v \<Rightarrow> show_nat (unat v),
     case power_target_w of None \<Rightarrow> [] | Some w \<Rightarrow> pw_print P w]"

definition write_tuning_command ::
  "('w, 'm) power_ops_scheme \<Rightarrow> pll_freq option \<Rightarrow> u32 option \<Rightarrow> 'w option \<Rightarrow> string option" where
  "write_tuning_command P pll_freq_mhz voltage_mv power_target_w =
    (if pll_freq_mhz = None \<and> voltage_mv = None \<and> power_target_w = None then None
     else Some (''tune:'' @ join_with CHR '','' (tuning_fields P pll_freq_mhz voltage_mv power_target_w)))"

definition write_power_target_command :: "('w, 'm) power_ops_scheme \<Rightarrow> 'w option \<Rightarrow> string" where
  "write_power_target_command P target_w =
    (case target_w of Some w \<Rightarrow> ''power_target:'' @ pw_print P w | None \<Rightarrow> ''power_target:off'')"

definition write_pause_command :: "bool \<Rightarrow> string" where
  "write_pause_command pause = (if pause then ''pause'' else ''resume'')"

definition write_power_mode_command :: "string \<Rightarrow> string option" where
  "write_power_mode_command m = (if mode_parse m = None then None else Some (''mode:'' @ m))"

section \<open>Handlers\<close>

record 'w tuning_request =
  tr_freq :: "pll_freq option"
  tr_voltage :: "u32 option"
  tr_power :: "'w option"

fun freq_accepted :: "pll_freq \<Rightarrow> bool" where
  "freq_accepted (a, b, c, d) =
    ((\<forall>f \<in> set [a, b, c, d]. 100 \<le> f \<and> f \<le> 500) \<and> a \<le> b \<and> b \<le> c \<and> c \<le> d)"

definition power_accepted :: "('w, 'm) power_ops_scheme \<Rightarrow> 'w \<Rightarrow> bool" where
  "power_accepted P w \<longleftrightarrow> pw_le P (pw_lit P 20) w \<and> pw_le P w (pw_lit P 250)"

definition patch_board_tuning ::
  "('w, 'm) power_ops_scheme \<Rightarrow> bool \<Rightarrow> bool \<Rightarrow> 'w tuning_request \<Rightarrow> http_status \<times> string option" where
  "patch_board_tuning P known writable req =
    (if \<not> known then (HttpNotFound, None)
     else if tr_freq req = None \<and> tr_voltage req = None \<and> tr_power req = None then (HttpBadRequest, None)
     else if (case tr_freq req of None \<Rightarrow> False | Some f \<Rightarrow> \<not> freq_accepted f) then (HttpBadRequest, None)
     else if (case tr_voltage req of None \<Rightarrow> False | Some v \<Rightarrow> \<not> (3000 \<le> v \<and> v \<le> 4095)) then (HttpBadRequest, None)
     else if (case tr_power req of None \<Rightarrow> False | Some w \<Rightarrow> \<not> power_accepted P w) then (HttpBadRequest, None)
     else if writable then (HttpOk, write_tuning_command P (tr_freq req) (tr_voltage req) (tr_power req))
     else (HttpInternalError, None))"

definition patch_board_power_mode :: "bool \<Rightarrow> bool \<Rightarrow> string option \<Rightarrow> http_status \<times> string option" where
  "patch_board_power_mode known writable m =
    (if \<not> known then (HttpNotFound, None)
     else case m of
            None \<Rightarrow> (HttpBadRequest, None)
          | Some n \<Rightarrow>
              (case write_power_mode_command n of
                 None \<Rightarrow> (HttpBadRequest, None)
               | Some body \<Rightarrow> if writable then (HttpOk, Some body) else (HttpBadRequest, None)))"

definition patch_board_power_target ::
  "('w, 'm) power_ops_scheme \<Rightarrow> bool \<Rightarrow> bool \<Rightarrow> 'w option \<Rightarrow> http_status \<times> string option" where
  "patch_board_power_target P known writable target_w =
    (if \<not> known then (HttpNotFound, None)
     else if (case target_w of None \<Rightarrow> False | Some w \<Rightarrow> \<not> power_accepted P w) then (HttpBadRequest, None)
     else if writable then (HttpOk, Some (write_power_target_command P target_w))
     else (HttpInternalError, None))"

definition patch_board_pause :: "bool \<Rightarrow> bool \<Rightarrow> bool \<Rightarrow> http_status \<times> string option" where
  "patch_board_pause known writable want_pause =
    (if \<not> known then (HttpNotFound, None)
     else if writable then (HttpOk, Some (write_pause_command want_pause)) else (HttpInternalError, None))"

text \<open>
  Fan requests go to the file of the harness. The first check needs one of the fields; a duty is
  used in manual mode only. \<open>tle\<close> and \<open>tlit\<close> compare temperatures, \<open>tprint\<close> prints them.
\<close>

record 't fan_request =
  fr_mode :: "string option"
  fr_duty :: "u8 option"
  fr_target :: "'t option"

definition patch_board_fan ::
  "('t \<Rightarrow> bool) \<Rightarrow> ('t \<Rightarrow> string) \<Rightarrow> bool \<Rightarrow> bool \<Rightarrow> 't fan_request \<Rightarrow> http_status \<times> string option" where
  "patch_board_fan in_range tprint known writable req =
    (if \<not> known then (HttpNotFound, None)
     else if fr_mode req = None \<and> fr_duty req = None \<and> fr_target req = None then (HttpBadRequest, None)
     else if (case fr_target req of None \<Rightarrow> False | Some t \<Rightarrow> \<not> in_range t) then (HttpBadRequest, None)
     else
      (case (case fr_mode req of
               None \<Rightarrow> Some None
             | Some m \<Rightarrow> if m = ''manual'' then map_option Some (fr_duty req)
                         else if m = ''auto'' then Some None else None) of
         None \<Rightarrow> (HttpBadRequest, None)
       | Some pct \<Rightarrow>
           if fr_mode req = Some ''manual'' \<and> (case pct of None \<Rightarrow> False | Some p \<Rightarrow> 100 < p) then (HttpBadRequest, None)
           else if writable then
             (HttpOk, Some (''fan:'' @ join_with CHR '',''
               [case fr_mode req of None \<Rightarrow> [] | Some m \<Rightarrow> m,
                case pct of None \<Rightarrow> [] | Some p \<Rightarrow> show_nat (unat p),
                case fr_target req of None \<Rightarrow> [] | Some t \<Rightarrow> tprint t]))
           else (HttpInternalError, None)))"

section \<open>LED override\<close>

datatype led_effect =
  LedAuto | LedOff | LedSolid | LedRainbow | LedColorloop | LedBreathe | LedBlink | LedChase
  | LedChaseRainbow | LedScanner | LedTwinkle | LedFireFlicker | LedDomino | LedVegas

definition led_as_str :: "led_effect \<Rightarrow> string" where
  "led_as_str e =
    (case e of LedAuto \<Rightarrow> ''auto'' | LedOff \<Rightarrow> ''off'' | LedSolid \<Rightarrow> ''solid'' | LedRainbow \<Rightarrow> ''rainbow''
     | LedColorloop \<Rightarrow> ''colorloop'' | LedBreathe \<Rightarrow> ''breathe'' | LedBlink \<Rightarrow> ''blink'' | LedChase \<Rightarrow> ''chase''
     | LedChaseRainbow \<Rightarrow> ''chase_rainbow'' | LedScanner \<Rightarrow> ''scanner'' | LedTwinkle \<Rightarrow> ''twinkle''
     | LedFireFlicker \<Rightarrow> ''fire_flicker'' | LedDomino \<Rightarrow> ''domino'' | LedVegas \<Rightarrow> ''vegas'')"

definition led_effects :: "led_effect list" where
  "led_effects =
    [LedAuto, LedOff, LedSolid, LedRainbow, LedColorloop, LedBreathe, LedBlink, LedChase, LedChaseRainbow,
     LedScanner, LedTwinkle, LedFireFlicker, LedDomino, LedVegas]"

definition led_parse :: "string \<Rightarrow> led_effect option" where
  "led_parse s = find (\<lambda>e. led_as_str e = s) led_effects"

record led_state =
  ls_effect :: led_effect
  ls_color :: "u8 \<times> u8 \<times> u8"
  ls_brightness :: u8
  ls_speed :: u8

definition led_initial :: led_state where
  "led_initial = \<lparr>ls_effect = LedAuto, ls_color = (255, 0, 0), ls_brightness = 128, ls_speed = 128\<rparr>"

text \<open>
  Strings are UTF-8: slicing at a byte that continues a character panics (\<open>None\<close>);
  \<open>u8::from_str_radix\<close> takes an optional plus sign and at least one digit.
\<close>

definition char_boundary :: "string \<Rightarrow> nat \<Rightarrow> bool" where
  "char_boundary s i \<longleftrightarrow>
    i = length s \<or> (i < length s \<and> \<not> (128 \<le> (of_char (s ! i) :: nat) \<and> (of_char (s ! i) :: nat) < 192))"

definition u8_from_hex :: "string \<Rightarrow> u8 option" where
  "u8_from_hex s =
    (let ds = (case s of [] \<Rightarrow> [] | c # r \<Rightarrow> if c = CHR ''+'' then r else s)
     in if ds = [] then None
        else case hex_digits 0 ds of None \<Rightarrow> None | Some n \<Rightarrow> if n < 256 then Some (word_of_nat n) else None)"

definition hex_byte :: "string \<Rightarrow> nat \<Rightarrow> (unit + u8) option" where
  "hex_byte s i =
    (if char_boundary s i \<and> char_boundary s (i + 2)
     then Some (case u8_from_hex (take 2 (drop i s)) of None \<Rightarrow> Inl () | Some b \<Rightarrow> Inr b)
     else None)"

definition parse_hex_color :: "string \<Rightarrow> (unit + u8 \<times> u8 \<times> u8) option" where
  "parse_hex_color text =
    (let s = dropWhile (\<lambda>c. c = CHR ''#'') (trim text)
     in if length s \<noteq> 6 then Some (Inl ())
        else Option.bind (hex_byte s 0) (\<lambda>a. case a of Inl _ \<Rightarrow> Some (Inl ()) | Inr r \<Rightarrow>
             Option.bind (hex_byte s 2) (\<lambda>b. case b of Inl _ \<Rightarrow> Some (Inl ()) | Inr g \<Rightarrow>
             Option.bind (hex_byte s 4) (\<lambda>c. case c of Inl _ \<Rightarrow> Some (Inl ()) | Inr bl \<Rightarrow> Some (Inr (r, g, bl))))))"

record led_request =
  lr_effect :: "string option"
  lr_color :: "string option"
  lr_brightness :: "u8 option"
  lr_speed :: "u8 option"

text \<open>
  The answer and the state left behind; the assignments made before an error stay. A panic is
  the answer \<open>None\<close>: the lock is poisoned, and every later access takes the state as it is.
\<close>

definition write_led_command :: "led_request \<Rightarrow> led_state \<Rightarrow> (unit + unit) option \<times> led_state" where
  "write_led_command req s =
    (case (case lr_effect req of
             None \<Rightarrow> Some s
           | Some e \<Rightarrow> (case led_parse e of None \<Rightarrow> None | Some eff \<Rightarrow> Some (s\<lparr>ls_effect := eff\<rparr>))) of
       None \<Rightarrow> (Some (Inl ()), s)
     | Some s1 \<Rightarrow>
         (case (case lr_color req of
                  None \<Rightarrow> Some (Inr (ls_color s1)) | Some c \<Rightarrow> parse_hex_color c) of
            None \<Rightarrow> (None, s1)
          | Some (Inl _) \<Rightarrow> (Some (Inl ()), s1)
          | Some (Inr rgb) \<Rightarrow>
              (Some (Inr ()),
               s1\<lparr>ls_color := rgb,
                  ls_brightness := (case lr_brightness req of None \<Rightarrow> ls_brightness s1 | Some b \<Rightarrow> b),
                  ls_speed := (case lr_speed req of None \<Rightarrow> ls_speed s1 | Some v \<Rightarrow> v)\<rparr>)))"

text \<open>The generator behind the random effects.\<close>

definition xorshift32 :: "u32 \<Rightarrow> u32" where
  "xorshift32 s =
    (let x = s XOR push_bit 13 s; x = x XOR drop_bit 17 x in x XOR push_bit 5 x)"

end
