(* ===== verification/Nano3s_Properties.thy ===== *)
theory Nano3s_Properties
  imports Nano3s_Api Source_Properties
begin

text \<open>
  What holds of the settings of the Nano3s board: which commands a request to the API ends in,
  what the power-target loop may send, when the safety trip acts, and that the tuning survives a
  restart.
\<close>

section \<open>Requests to the board\<close>

text \<open>
  What \<open>Display\<close> and \<open>parse\<close> of \<open>f64\<close> promise: the text of a number reads back as the number,
  is not empty, is not the word \<open>off\<close>, and has no white space and none of the separators.
\<close>

definition power_text_law :: "('w, 'm) power_ops_scheme \<Rightarrow> bool" where
  "power_text_law P \<longleftrightarrow>
    (\<forall>w. pw_parse P (pw_print P w) = Some w \<and> pw_print P w \<noteq> [] \<and> pw_print P w \<noteq> ''off'' \<and>
         (\<forall>c \<in> set (pw_print P w). \<not> is_blank c \<and> c \<notin> {CHR '','', CHR '';'', CHR ''=''}))"

definition calls_of :: "nano_effect list \<Rightarrow> ipc_call list" where
  "calls_of es = concat (map (\<lambda>e. case e of Ipc c _ \<Rightarrow> [c] | _ \<Rightarrow> []) es)"

definition effects_since :: "'w nano_worker \<Rightarrow> 'w nano_worker \<Rightarrow> nano_effect list" where
  "effects_since s s' = drop (length (nw_log s)) (nw_log s')"

lemma calls_of_simps [simp]:
  "calls_of [] = []" "calls_of (Ipc c ok # es) = c # calls_of es" "calls_of (Harness h # es) = calls_of es"
  "calls_of (SaveMode m # es) = calls_of es" "calls_of (SaveTuning t # es) = calls_of es"
  "calls_of (ClearTuning # es) = calls_of es" "calls_of (TaskReply r # es) = calls_of es"
  "calls_of (ShareSent k sh # es) = calls_of es" "calls_of (NanoEvent ev # es) = calls_of es"
  "calls_of (IpcClosed # es) = calls_of es" "calls_of (es @ fs) = calls_of es @ calls_of fs"
  by (simp_all add: calls_of_def)

lemma note_effect_simps [simp]:
  "nw_log (note_effect e s) = nw_log s @ [e]" "nw_mode (note_effect e s) = nw_mode s"
  "nw_next_job (note_effect e s) = nw_next_job s" "nw_task (note_effect e s) = nw_task s"
  "nw_jobs (note_effect e s) = nw_jobs s" "nw_current_job (note_effect e s) = nw_current_job s"
  "nw_idle (note_effect e s) = nw_idle s" "nw_manual_pause (note_effect e s) = nw_manual_pause s"
  "nw_shares_found (note_effect e s) = nw_shares_found s" "nw_power_target (note_effect e s) = nw_power_target s"
  "nw_next_check (note_effect e s) = nw_next_check s" "nw_override (note_effect e s) = nw_override s"
  "nw_last_freq (note_effect e s) = nw_last_freq s" "nw_last_mv (note_effect e s) = nw_last_mv s"
  "nw_best (note_effect e s) = nw_best s"
  by (simp_all add: note_effect_def)

lemma ipc_eq: "ipc E c s = (ne_ok E (length (nw_log s)), note_effect (Ipc c (ne_ok E (length (nw_log s)))) s)"
  by (simp add: ipc_def Let_def)

lemma parse_i32_show_nat: "n < 2 ^ 31 \<Longrightarrow> parse_i32 (show_nat n) = Some (int n)"
  using parse_i32_show [of "int n"] by (simp add: show_int_def)

lemma parse_freq_fields: "parse_freq (freq_fields f) = Some f"
  by (cases f) (simp add: parse_freq_def)

lemma freq_fields_free:
  "(of_char c :: nat) < 48 \<or> 57 < (of_char c :: nat) \<Longrightarrow> s \<in> set (freq_fields f) \<Longrightarrow> c \<notin> set s"
  using show_nat_free [of c] by (cases f) auto

lemma tuning_fields_free:
  assumes "power_text_law P" "s \<in> set (tuning_fields P f v w)"
  shows "CHR '','' \<notin> set s" "\<forall>c \<in> set s. \<not> is_blank c"
proof -
  have d: "x \<in> set (show_nat n) \<Longrightarrow> \<not> is_blank x" for x n
    using show_nat_code [of x n] digit_not_blank [of x] by simp
  have k: "CHR '','' \<notin> set (show_nat n)" for n by (rule show_nat_free) simp
  show "CHR '','' \<notin> set s"
    using assms k by (cases f) (auto simp: tuning_fields_def power_text_law_def split: option.splits)
  show "\<forall>c \<in> set s. \<not> is_blank c"
    using assms d by (cases f) (auto simp: tuning_fields_def power_text_law_def split: option.splits)
qed

lemma tuning_body:
  assumes "power_text_law P"
  shows "control_command (Some (''tune:'' @ join_with CHR '','' (tuning_fields P f v w))) =
           Some (''tune:'' @ join_with CHR '','' (tuning_fields P f v w))"
    and "split_on CHR '','' (join_with CHR '','' (tuning_fields P f v w)) = tuning_fields P f v w"
proof -
  let ?fs = "tuning_fields P f v w"
  have "set (join_with CHR '','' ?fs) \<subseteq> insert CHR '','' (\<Union> (set ` set ?fs))" by (rule set_join_with)
  then have "\<forall>c \<in> set (join_with CHR '','' ?fs). \<not> is_blank c"
    using tuning_fields_free(2) [OF assms] by (auto simp: is_blank_def)
  then have "\<forall>c \<in> set (''tune:'' @ join_with CHR '','' ?fs). \<not> is_blank c" by (simp add: is_blank_def)
  then show "control_command (Some (''tune:'' @ join_with CHR '','' ?fs)) = Some (''tune:'' @ join_with CHR '','' ?fs)"
    by (simp only: control_command_def bind.bind_lunit trim_id) simp
  have "?fs \<noteq> []" by (simp add: tuning_fields_def)
  then show "split_on CHR '','' (join_with CHR '','' ?fs) = ?fs"
    using tuning_fields_free(1) [OF assms] by (intro split_on_join) auto
qed

lemma control_tune: "control_step E now (Some (''tune:'' @ b)) s = tune E now b s"
proof -
  have "strip_prefix ''mode:'' (''tune:'' @ b) = None" by (simp add: strip_prefix_def)
  moreover have "strip_prefix ''tune:'' (''tune:'' @ b) = Some b" by (rule strip_prefix_append)
  ultimately show ?thesis by (simp add: control_step_def)
qed

lemma length_tuning_fields: "length (tuning_fields P f v w) = 6"
  by (cases f) (auto simp: tuning_fields_def split: option.split)

lemma tuning_fields_nth:
  "tuning_fields P f v w ! 0 = [] \<longleftrightarrow> f = None"
  "f = Some g \<Longrightarrow> take 4 (tuning_fields P f v w) = freq_fields g"
  "tuning_fields P f v w ! 4 = (case v of None \<Rightarrow> [] | Some x \<Rightarrow> show_nat (unat x))"
  "tuning_fields P f v w ! 5 = (case w of None \<Rightarrow> [] | Some x \<Rightarrow> pw_print P x)"
  by (cases f; cases g; auto simp: tuning_fields_def split: option.split)+


lemma tune_freq_tuning:
  "tune_freq E (tuning_fields P f v w) s =
     (case f of None \<Rightarrow> s
      | Some g \<Rightarrow> (let s' = snd (ipc E (IpcSetMode g) s)
                  in if fst (ipc E (IpcSetMode g) s) then s'\<lparr>nw_last_freq := g\<rparr> else s'))"
proof (cases f)
  case None
  then show ?thesis by (simp add: tune_freq_def tuning_fields_nth(1))
next
  case (Some g)
  then show ?thesis
    by (simp add: tune_freq_def tuning_fields_nth(1) tuning_fields_nth(2) [OF refl] parse_freq_fields Let_def
        split_def del: freq_fields.simps)
qed

text \<open>
  C24: Whatever the power mode: what the API accepts is what the board is told. The handler's
  range of 3000 to 4095 mV is the only bound on the voltage of a request, and a target of up to
  250 W is taken as it is.
\<close>

theorem tuning_reaches_board:
  assumes law: "power_text_law (ne_power E)"
    and req: "patch_board_tuning (ne_power E) known writable req = (HttpOk, Some body)"
    and s': "s' = control_step E now (control_command (Some body)) s"
  shows "calls_of (effects_since s s') =
           (case tr_freq req of None \<Rightarrow> [] | Some f \<Rightarrow> [IpcSetMode f]) @
           (case tr_voltage req of None \<Rightarrow> [] | Some v \<Rightarrow> [IpcSetVoltage (uint v)]) \<and>
         nw_power_target s' = (case tr_power req of None \<Rightarrow> nw_power_target s | Some w \<Rightarrow> Some w) \<and>
         nw_mode s' = nw_mode s"
proof -
  let ?P = "ne_power E"
  let ?fs = "tuning_fields ?P (tr_freq req) (tr_voltage req) (tr_power req)"
  have body: "body = ''tune:'' @ join_with CHR '','' ?fs"
    and v: "tr_voltage req = Some v \<Longrightarrow> 3000 \<le> v \<and> v \<le> 4095" for v
    using req by (auto simp: patch_board_tuning_def write_tuning_command_def split: if_splits option.splits)
  have eq: "s' = tune E now (join_with CHR '','' ?fs) s"
    unfolding s' body by (simp only: tuning_body(1) [OF law] control_tune)
  have pv: "parse_i32 (show_nat (unat x)) = Some (uint x)" if "tr_voltage req = Some x" for x
  proof -
    have "unat x < 2 ^ 31" using v [OF that] by (simp add: word_le_nat_alt)
    then show ?thesis using parse_i32_show_nat [of "unat x"] by simp
  qed
  have pp: "pw_parse ?P (pw_print ?P w) = Some w" "pw_print ?P w \<noteq> []" for w
    using law by (auto simp: power_text_law_def)
  note facts = eq tune_def tuning_body(2) [OF law] length_tuning_fields tune_freq_tuning tuning_fields_nth
    tune_voltage_def tune_power_def save_tuning_def pv pp ipc_eq effects_since_def Let_def
  have "calls_of (effects_since s s') =
           (case tr_freq req of None \<Rightarrow> [] | Some f \<Rightarrow> [IpcSetMode f]) @
           (case tr_voltage req of None \<Rightarrow> [] | Some v \<Rightarrow> [IpcSetVoltage (uint v)])"
    by (auto simp: facts split: option.split)
  moreover have "nw_power_target s' = (case tr_power req of None \<Rightarrow> nw_power_target s | Some w \<Rightarrow> Some w)"
    by (auto simp: facts split: option.split)
  moreover have "nw_mode s' = nw_mode s"
    by (auto simp: facts split: option.split)
  ultimately show ?thesis by blast
qed

section \<open>The power-target loop\<close>





lemma servo_voltage_down:
  assumes "fst (voltage_range_mv m) < cur" "cur < 2 ^ 31"
  shows "\<exists>mv. servo_voltage m cur (- 26) = Some mv \<and> mv < cur"
proof -
  have "3000 < cur" using assms(1) by (cases m) (auto simp: voltage_range_mv_def)
  then show ?thesis using assms
    by (cases m) (auto simp: servo_voltage_def add_i32_def clamp_mv_def voltage_range_mv_def)
qed



text \<open>
  With a target set, power above the trip of the mode lowers the voltage at once, whatever the
  check interval and a manual voltage say. Without a target nothing is ever sent.
\<close>

theorem safety_trip:
  "(nw_power_target s = Some t \<and> safety_trip_w_for (ne_power E) (nw_mode s) (Some t) = Some trip \<and>
    pw_lt (ne_power E) trip p \<and> fst (voltage_range_mv (nw_mode s)) < sint (st_voltage_mv st) \<longrightarrow>
      (\<exists>s' mv. servo E now st p s = Some s' \<and> mv < sint (st_voltage_mv st) \<and>
        effects_since s s' = [Ipc (IpcSetVoltage mv) (ne_ok E (length (nw_log s)))])) \<and>
   (nw_power_target s = None \<longrightarrow> servo E now st p s = Some s)"
    (is "(?trip \<longrightarrow> ?down) \<and> ?off")
proof -
  have ?down if t: ?trip
  proof -
    have "sint (st_voltage_mv st) < 2 ^ 31" using sint_lt [of "st_voltage_mv st"] by simp
    then obtain mv where mv: "servo_voltage (nw_mode s) (sint (st_voltage_mv st)) (- 26) = Some mv"
      "mv < sint (st_voltage_mv st)"
      using servo_voltage_down t by blast
    have "servo_step (ne_power E) (nw_mode s) t p (nw_override s) (nw_next_check s \<le> now) = Some (- 26)"
      using t by (simp add: servo_step_def)
    then show ?thesis using t mv by (simp add: servo_def effects_since_def ipc_eq)
  qed
  moreover have ?off by (simp add: servo_def)
  ultimately show ?thesis by blast
qed

section \<open>Persisted tuning\<close>

lemma freq_part_parses:
  "pt_parse_part P (''freq='' @ join_with CHR '','' (freq_fields f)) acc = Some (acc\<lparr>pt_freq := Some f\<rparr>)"
proof -
  have so: "split_once CHR ''='' (''freq='' @ join_with CHR '','' (freq_fields f)) =
      Some (''freq'', join_with CHR '','' (freq_fields f))"
    using split_once_append [of "CHR ''=''" "''freq''" "join_with CHR '','' (freq_fields f)"] by simp
  have "freq_fields f \<noteq> []" by (cases f) simp
  then have "split_on CHR '','' (join_with CHR '','' (freq_fields f)) = freq_fields f"
    using freq_fields_free [of "CHR '',''" _ f] by (intro split_on_join) auto
  then show ?thesis by (simp only: pt_parse_part_def so parse_freq_fields option.case prod.case if_True if_P [OF refl])
qed

lemma voltage_part_parses:
  "- (2 ^ 31) \<le> v \<Longrightarrow> v < 2 ^ 31 \<Longrightarrow> pt_parse_part P (''volt='' @ show_int v) acc = Some (acc\<lparr>pt_voltage := Some v\<rparr>)"
  using split_once_append [of "CHR ''=''" "''volt''" "show_int v"]
  by (simp add: pt_parse_part_def parse_i32_show)

lemma power_part_parses:
  "power_text_law P \<Longrightarrow> pt_parse_part P (''power='' @ pw_print P w) acc = Some (acc\<lparr>pt_power := Some w\<rparr>)"
  using split_once_append [of "CHR ''=''" "''power''" "pw_print P w"]
  by (simp add: pt_parse_part_def power_text_law_def)

definition i32_value :: "int \<Rightarrow> bool" where
  "i32_value v \<longleftrightarrow> - (2 ^ 31) \<le> v \<and> v < 2 ^ 31"

lemma pt_parts_parse:
  assumes "power_text_law P" "pred_option i32_value (pt_voltage t)"
  shows "pt_parse_parts P (pt_parts P t) pt_default = Some t"
  using assms(2)
  by (cases "pt_freq t"; cases "pt_voltage t"; cases "pt_power t")
    (simp_all add: pt_parts_def freq_part_parses [simplified] voltage_part_parses [simplified]
      power_part_parses [OF assms(1), simplified] pt_default_def i32_value_def)

lemma show_nat_plain: "c \<in> set (show_nat n) \<Longrightarrow> \<not> is_blank c \<and> c \<noteq> CHR '';''"
  using show_nat_code [of c n] digit_not_blank [of c] show_nat_free [of "CHR '';''" n] by auto

lemma show_int_plain: "c \<in> set (show_int i) \<Longrightarrow> \<not> is_blank c \<and> c \<noteq> CHR '';''"
  using show_nat_plain [of c] by (auto simp: show_int_def is_blank_def split: if_splits)

lemma freq_text_plain:
  "c \<in> set (join_with CHR '','' (freq_fields f)) \<Longrightarrow> \<not> is_blank c \<and> c \<noteq> CHR '';''"
proof -
  assume "c \<in> set (join_with CHR '','' (freq_fields f))"
  then have "c = CHR '','' \<or> (\<exists>n. c \<in> set (show_nat n))"
    using set_join_with [of "CHR '',''" "freq_fields f"] by (cases f) auto
  then show ?thesis using show_nat_plain [of c] by (auto simp: is_blank_def)
qed

lemma pt_parts_plain:
  assumes "power_text_law P" "p \<in> set (pt_parts P t)" "c \<in> set p"
  shows "\<not> is_blank c \<and> c \<noteq> CHR '';''"
proof -
  from assms(2) consider f where "p = ''freq='' @ join_with CHR '','' (freq_fields f)"
    | v where "p = ''volt='' @ show_int v" | w where "p = ''power='' @ pw_print P w"
    by (auto simp: pt_parts_def split: option.splits)
  then show ?thesis
  proof cases
    case 1
    then have "c \<in> set ''freq='' \<or> c \<in> set (join_with CHR '','' (freq_fields f))" using assms(3) by auto
    then show ?thesis using freq_text_plain [of c f] by (auto simp: is_blank_def)
  next
    case 2
    then have "c \<in> set ''volt='' \<or> c \<in> set (show_int v)" using assms(3) by auto
    then show ?thesis using show_int_plain [of c v] by (auto simp: is_blank_def)
  next
    case 3
    then have "c \<in> set ''power='' \<or> c \<in> set (pw_print P w)" using assms(3) by auto
    moreover have "c \<in> set (pw_print P w) \<Longrightarrow> \<not> is_blank c \<and> c \<noteq> CHR '';''"
      using assms(1) unfolding power_text_law_def by blast
    ultimately show ?thesis by (auto simp: is_blank_def)
  qed
qed

lemma pt_parse_serialize:
  assumes "power_text_law P" "pred_option i32_value (pt_voltage t)"
  shows "pt_parse P (pt_serialize P t) = Some t"
proof -
  have "set (pt_serialize P t) \<subseteq> insert CHR '';'' (\<Union> (set ` set (pt_parts P t)))"
    unfolding pt_serialize_def by (rule set_join_with)
  then have "\<forall>c \<in> set (pt_serialize P t). \<not> is_blank c"
    using pt_parts_plain [OF assms(1)] by (fastforce simp: is_blank_def)
  then have "trim (pt_serialize P t) = pt_serialize P t" by (rule trim_id)
  moreover have "pt_parse_parts P (split_on CHR '';'' (pt_serialize P t)) pt_default = Some t"
  proof (cases "pt_parts P t = []")
    case True
    then show ?thesis using pt_parts_parse [OF assms]
      by (simp add: pt_serialize_def pt_parse_part_def split_once_def)
  next
    case False
    then have "split_on CHR '';'' (pt_serialize P t) = pt_parts P t"
      unfolding pt_serialize_def using pt_parts_plain [OF assms(1)] by (intro split_on_join) fastforce+
    then show ?thesis using pt_parts_parse [OF assms] by simp
  qed
  ultimately show ?thesis by (simp add: pt_parse_def)
qed

text \<open>
  What the tuning file holds is read back as it was, field by field, whichever fields are set;
  a file with none of them counts as no file.
\<close>

theorem tuning_file_roundtrip:
  assumes "power_text_law P" "pred_option i32_value (pt_voltage t)"
  shows "read_persisted_tuning P (Some (pt_serialize P t)) = (if pt_is_empty t then None else Some t)"
  using pt_parse_serialize [OF assms] by (simp add: read_persisted_tuning_def)

text \<open>
  A restart on the file a command has saved brings the chain back to the frequencies and the
  voltage in force, the voltage clamped to the range of the mode in the mode file. A switched
  off target is not in the file: the environment variable sets it again.
\<close>

theorem restart_reapplies:
  assumes law: "power_text_law (ne_power E)" and mv: "pred_option i32_value (nw_last_mv s)"
    and ok: "ne_ok E = (\<lambda>_. True)"
    and s': "s' = worker_start E mode_file (Some (pt_serialize (ne_power E) (current_tuning s))) var True now"
  shows "calls_of (nw_log s') =
           [IpcSetMode (ramp_target (load_power_mode mode_file)), IpcSetMode (nw_last_freq s)] @
           (case nw_last_mv s of None \<Rightarrow> [] | Some v \<Rightarrow> [IpcSetVoltage (clamp_mv (load_power_mode mode_file) v)]) \<and>
         nw_last_freq s' = nw_last_freq s \<and>
         nw_last_mv s' = map_option (clamp_mv (load_power_mode mode_file)) (nw_last_mv s) \<and>
         nw_power_target s' =
           (case nw_power_target s of Some w \<Rightarrow> Some w
            | None \<Rightarrow> Option.bind var (\<lambda>v. pw_parse (ne_power E) (trim v)))"
proof -
  have "pred_option i32_value (pt_voltage (current_tuning s))" using mv by (simp add: current_tuning_def)
  then have "pt_parse (ne_power E) (pt_serialize (ne_power E) (current_tuning s)) = Some (current_tuning s)"
    by (rule pt_parse_serialize [OF law])
  then have r: "read_persisted_tuning (ne_power E) (Some (pt_serialize (ne_power E) (current_tuning s))) =
      Some (current_tuning s)"
    by (simp add: read_persisted_tuning_def pt_is_empty_def current_tuning_def)
  define t where "t = current_tuning s"
  have t: "current_tuning s = t" and f: "pt_freq t = Some (nw_last_freq s)"
    and v: "pt_voltage t = nw_last_mv s" and p: "pt_power t = nw_power_target s"
    by (simp_all add: t_def current_tuning_def)
  show ?thesis
    using r f v p unfolding s' worker_start_def t
    by (simp add: ipc_eq reapply_tuning_def reapply_freq_def reapply_voltage_def initial_worker_def ok
        Let_def split: option.split)
qed

section \<open>Witnesses\<close>

text \<open>Watts as natural numbers, and hashes that are easy to compute.\<close>

definition nat_power :: "nat power_ops" where
  "nat_power =
    \<lparr>pw_lit = (\<lambda>r. nat \<lfloor>r\<rfloor>), pw_add = (+), pw_sub = (-), pw_lt = (<), pw_le = (\<le>), pw_print = show_nat,
     pw_parse = (\<lambda>s. if s = [] then None else parse_digits 0 s)\<rparr>"

definition nano_demo :: "nat nano_env" where
  "nano_demo =
    \<lparr>ne_power = nat_power, ne_f64 = \<lparr>f64_pos_finite = (\<lambda>n. 0 < n), f64_integer_decode = (\<lambda>n. (of_nat n, 0))\<rparr>,
     ne_ok = (\<lambda>_. True), ne_sha256d = (\<lambda>b. take 32 (b @ replicate 32 0)),
     ne_block_hash = (\<lambda>h. 1 # replicate 31 0), ne_to_work = id, ne_target_max = - 1, ne_as_f64 = (\<lambda>_. 1),
     ne_as_u64 = (\<lambda>_. 1), ne_of_u64 = unat, ne_difficulty_float = (\<lambda>_. 1), ne_gigahashes = (\<lambda>_. 0)\<rparr>"

definition nano_boot :: "power_mode \<Rightarrow> nat option \<Rightarrow> nat nano_worker" where
  "nano_boot m target = initial_worker nano_demo m target 0"

lemma nat_power_law: "power_text_law nat_power"
proof -
  have "\<not> is_blank c \<and> c \<notin> {CHR '','', CHR '';'', CHR ''=''}" if "c \<in> set (show_nat n)" for c n
    using show_nat_code [OF that] digit_not_blank [of c] by auto
  moreover have "show_nat n \<noteq> ''off''" for n
    using show_nat_free [of "CHR ''o''" n] by auto
  ultimately show ?thesis by (auto simp: power_text_law_def nat_power_def parse_digits_show)
qed

lemma nano_demo_power [simp]: "ne_power nano_demo = nat_power" "ne_ok nano_demo = (\<lambda>_. True)"
  by (simp_all add: nano_demo_def)

text \<open>In the stock mode, whose range ends at 3800 mV, 4095 mV reach the board.\<close>

theorem tuning_reaches_board_witness:
  "\<exists>body. patch_board_tuning nat_power True True \<lparr>tr_freq = None, tr_voltage = Some 4095, tr_power = None\<rparr> = (HttpOk, Some body) \<and>
    calls_of (effects_since (nano_boot Stock None) (control_step nano_demo 0 (control_command (Some body)) (nano_boot Stock None))) =
      [IpcSetVoltage 4095]"
proof -
  let ?req = "\<lparr>tr_freq = None, tr_voltage = Some 4095, tr_power = None\<rparr> :: nat tuning_request"
  obtain body where b: "patch_board_tuning nat_power True True ?req = (HttpOk, Some body)"
    by (simp add: patch_board_tuning_def write_tuning_command_def)
  have "uint (4095 :: u32) = 4095" by simp
  then show ?thesis
    using tuning_reaches_board [where E = nano_demo and req = ?req and s = "nano_boot Stock None" and now = 0, OF _ _ refl] b nat_power_law
    by auto
qed

definition nano_status_at :: "u32 \<Rightarrow> nano_status" where
  "nano_status_at mv = \<lparr>st_ghsmm = 0, st_voltage_mv = mv\<rparr>"



theorem safety_trip_witness:
  "\<exists>s' mv. servo nano_demo 0 (nano_status_at 3500) 130 (nano_boot Stock (Some 100)) = Some s' \<and> mv < 3500 \<and>
    effects_since (nano_boot Stock (Some 100)) s' = [Ipc (IpcSetVoltage mv) True]"
proof -
  let ?s = "nano_boot Stock (Some 100)"
  have f: "nw_power_target ?s = Some 100" "nw_mode ?s = Stock" by (simp_all add: nano_boot_def initial_worker_def)
  have "sint (st_voltage_mv (nano_status_at 3500)) = 3500" by (simp add: nano_status_at_def)
  then show ?thesis
    using safety_trip [of ?s 100 nano_demo 120 130 "nano_status_at 3500" 0] f
    by (simp add: safety_trip_w_for_def nat_power_def voltage_range_mv_def)
qed

text \<open>
  The largest target of the stock mode lies above its trip: at 121 W of 130 W the loop, which
  has to raise the voltage, lowers it.
\<close>

lemma stock_target_fought:
  "api_max_power_target_w nat_power Stock = 130 \<and> servo_step nat_power Stock 130 121 False True = Some (- 26)"
  by (simp add: api_max_power_target_w_def servo_step_def safety_trip_w_for_def nat_power_def)

theorem tuning_file_roundtrip_witness:
  "read_persisted_tuning nat_power
      (Some (pt_serialize nat_power \<lparr>pt_freq = Some (210, 230, 250, 270), pt_voltage = Some (- 5), pt_power = Some 99\<rparr>)) =
    Some \<lparr>pt_freq = Some (210, 230, 250, 270), pt_voltage = Some (- 5), pt_power = Some 99\<rparr>"
  by (subst tuning_file_roundtrip [OF nat_power_law]) (simp_all add: i32_value_def pt_is_empty_def)

theorem restart_reapplies_witness:
  "nw_last_mv (worker_start nano_demo None
     (Some (pt_serialize nat_power (current_tuning ((nano_boot Bypass None)\<lparr>nw_last_mv := Some 4000\<rparr>)))) None True 0) = Some 3800"
proof -
  have "load_power_mode None = Stock" by (simp add: load_power_mode_def)
  then show ?thesis
    using restart_reapplies [of nano_demo "(nano_boot Bypass None)\<lparr>nw_last_mv := Some 4000\<rparr>" _ None None 0, OF _ _ _ refl] nat_power_law
    by (simp add: i32_value_def clamp_mv_def voltage_range_mv_def)
qed

end
