(* ===== verification/Nano3s_Chain.thy ===== *)
theory Nano3s_Chain
  imports Nano3s_Properties
begin

text \<open>
  What holds of the work of the Nano3s board: the shares it builds are the ones a pool rebuilds,
  their versions stay inside the pool's mask, a pause by hand keeps the chain idle, and the
  worker answers for the last four jobs the chain has accepted. The LED override is at the end.
\<close>

unbundle bit_operations_syntax

section \<open>Shares of the chain\<close>

lemma bit_joined:
  "bit (push_bit 32 (ucast (hi :: u32)) OR ucast (lo :: u32) :: u64) k \<longleftrightarrow>
    (if k < 32 then bit lo k else k < 64 \<and> bit hi (k - 32))"
  by (auto simp: bit_simps dest: bit_imp_le_length)



lemma word_halves:
  "push_bit 32 (ucast (ucast (drop_bit 32 v) :: u32)) OR ucast (ucast (v AND 0xFFFFFFFF) :: u32) = (v :: u64)"
proof (rule bit_word_eqI)
  fix k assume "k < LENGTH(64)"
  moreover have "bit (0xFFFFFFFF :: u64) k \<longleftrightarrow> k < 32" if "k < 64"
  proof -
    have m: "(0xFFFFFFFF :: u64) = mask 32" by (simp add: mask_eq_exp_minus_1)
    show ?thesis unfolding m bit_mask_iff using that by simp
  qed
  ultimately show "bit (push_bit 32 (ucast (ucast (drop_bit 32 v) :: u32)) OR ucast (ucast (v AND 0xFFFFFFFF) :: u32) :: u64) k = bit v k"
    unfolding bit_joined by (auto simp: bit_ucast_iff bit_drop_bit_eq bit_and_iff)
qed

text \<open>The extranonce2 a nonce stands for: the fixed upper half of the job, the chip's counter below.\<close>

definition nonce_en2 :: "job_context \<Rightarrow> u32 \<Rightarrow> extranonce2" where
  "nonce_en2 ctx nonce2 = \<lparr>en2_value = push_bit 32 (ucast (jc_en2_high ctx)) OR ucast nonce2, en2_size = 8\<rparr>"


definition job_of_task :: "u32 \<Rightarrow> chip_task \<Rightarrow> merkle_root_template \<Rightarrow> extranonce2 \<Rightarrow> ipc_job \<Rightarrow> job_context \<Rightarrow> bool" where
  "job_of_task jid task t en2 job ctx \<longleftrightarrow>
    job_merkle_root (ht_template task) = ComputedRoot t \<and> ht_en2 task = Some en2 \<and>
    length (mt_merkle_branches t) \<le> 30 \<and> jc_coinbase1 ctx = mt_coinbase1 t \<and> jc_coinbase2 ctx = mt_coinbase2 t \<and>
    jc_extranonce1 ctx = mt_extranonce1 t \<and> jc_merkle_branches ctx = mt_merkle_branches t \<and>
    jc_en2_high ctx = ucast (drop_bit 32 (en2_value en2)) \<and>
    jc_version_base ctx = vt_base (job_version (ht_template task)) \<and>
    jc_vmask_candidates ctx = nano3s_vmask_candidates (vt_base (job_version (ht_template task)))
       (gp_bits_mask_to_raw (vt_gp_bits_mask (job_version (ht_template task)))) \<and>
    jc_prev_blockhash ctx = job_prev_blockhash (ht_template task) \<and> jc_bits ctx = job_bits (ht_template task) \<and>
    jc_ntime ctx = ht_ntime task \<and> jc_share_target ctx = ht_share_target task \<and> jc_share_tx ctx = ct_share_tx task \<and>
    ij_job_id job = jid \<and> ij_nonce2_start job = ucast (en2_value en2 AND 0xFFFFFFFF)"

lemma task_to_job_Inr:
  assumes "task_to_job jid task restart = Inr (job, ctx)"
  shows "\<exists>t en2. job_of_task jid task t en2 job ctx"
proof -
  obtain t where t: "job_merkle_root (ht_template task) = ComputedRoot t"
    using assms by (cases "job_merkle_root (ht_template task)") (simp_all add: task_to_job_def Let_def)
  obtain en2 where e: "ht_en2 task = Some en2"
    using assms t by (cases "ht_en2 task") (simp_all add: task_to_job_def Let_def)
  have n: "length (mt_merkle_branches t) \<le> 30"
    using assms t e by (simp add: task_to_job_def Let_def split: if_splits)
  have "job_of_task jid task t en2 job ctx"
    using assms n unfolding job_of_task_def task_to_job_def t e Let_def by auto
  then show ?thesis by blast
qed



text \<open>The first job the chain starts on is the coinbase of the task's own extranonce2.\<close>

lemma first_coinbase:
  assumes "task_to_job jid task restart = Inr (job, ctx)" "ht_en2 task = Some e" "en2_size e = 8"
  shows "nonce_en2 ctx (ij_nonce2_start job) = e"
proof -
  obtain t en2 where "job_of_task jid task t en2 job ctx" using task_to_job_Inr [OF assms(1)] by blast
  then have "jc_en2_high ctx = ucast (drop_bit 32 (en2_value e))" "ij_nonce2_start job = ucast (en2_value e AND 0xFFFFFFFF)"
    using assms(2) by (simp_all add: job_of_task_def)
  then show ?thesis using assms(3) by (simp add: nonce_en2_def word_halves)
qed

section \<open>Versions\<close>

lemma padded_slots:
  fixes a b z :: 'a
  shows "c \<in> set (let cs = take n (a # b # map f (filter P xs)) in cs @ replicate (n - length cs) z) \<Longrightarrow>
    c = a \<or> c = b \<or> c = z \<or> (\<exists>x. P x \<and> c = f x)"
  using in_set_takeD [of c n "a # b # map f (filter P xs)"] by (auto simp: Let_def split: if_splits)

lemma length_padded: "length (let cs = take n ys in cs @ replicate (n - length cs) z) = n"
  by (simp add: Let_def)

lemma vmask_slots_submask: "c \<in> set (vmask_slots msk) \<Longrightarrow> c AND NOT msk = 0"
proof -
  assume "c \<in> set (vmask_slots msk)"
  then have "c = 0 \<or> c = msk \<or> c = 0 \<or> (\<exists>b. bit msk b \<and> c = push_bit b 1)"
    unfolding vmask_slots_def by (rule padded_slots)
  then show ?thesis
    by (auto intro!: bit_word_eqI simp: bit_and_iff bit_not_iff bit_exp_iff)
qed

lemma length_vmask_slots [simp]: "length (vmask_slots msk) = 8"
  unfolding vmask_slots_def by (rule length_padded)

text \<open>
  Eight slots, and the version of every share, whatever slot the nonce names, differs from the
  base version of the job in bits of the pool's mask only.
\<close>

theorem chain_version_in_mask:
  assumes "task_to_job jid task restart = Inr (job, ctx)"
  shows "length (jc_vmask_candidates ctx) = 8 \<and>
    slot_version ctx mid AND NOT (gp_bits_mask_to_raw (vt_gp_bits_mask (job_version (ht_template task)))) =
      vt_base (job_version (ht_template task)) AND
        NOT (gp_bits_mask_to_raw (vt_gp_bits_mask (job_version (ht_template task))))"
proof -
  let ?base = "vt_base (job_version (ht_template task))"
  let ?mask = "gp_bits_mask_to_raw (vt_gp_bits_mask (job_version (ht_template task)))"
  obtain t en2 where "job_of_task jid task t en2 job ctx" using task_to_job_Inr [OF assms] by blast
  then have c: "jc_version_base ctx = ?base" "jc_vmask_candidates ctx = nano3s_vmask_candidates ?base ?mask"
    by (simp_all add: job_of_task_def)
  have len: "length (jc_vmask_candidates ctx) = 8" by (simp add: c nano3s_vmask_candidates_def)
  have "(?base OR v) AND NOT ?mask = ?base AND NOT ?mask" if "v \<in> set (vmask_slots ?mask)" for v
    using vmask_slots_submask [OF that] by (simp add: bit.conj_disj_distrib2)
  then have "slot_version ctx mid AND NOT ?mask = ?base AND NOT ?mask"
    unfolding slot_version_def len by (simp add: c nano3s_vmask_candidates_def)
  then show ?thesis using len by simp
qed

section \<open>Jobs sent and remembered\<close>

text \<open>The calls that give the chain work, in order, and the ids of the jobs it has accepted.\<close>

definition work_of :: "nano_effect list \<Rightarrow> (ipc_job option \<times> bool) list" where
  "work_of es =
    concat (map (\<lambda>e. case e of Ipc (IpcSendJob j) ok \<Rightarrow> [(Some j, ok)] | Ipc IpcResume ok \<Rightarrow> [(None, ok)] | _ \<Rightarrow> []) es)"

definition accepted_of :: "(ipc_job option \<times> bool) list \<Rightarrow> u32 list" where
  "accepted_of ws = concat (map (\<lambda>(j, ok). case j of Some j \<Rightarrow> if ok then [ij_job_id j] else [] | None \<Rightarrow> []) ws)"

definition accepted_jobs :: "nano_effect list \<Rightarrow> u32 list" where
  "accepted_jobs es = accepted_of (work_of es)"

lemma accepted_of_simps [simp]:
  "accepted_of [] = []" "accepted_of (ws @ vs) = accepted_of ws @ accepted_of vs"
  "accepted_of ((Some j, ok) # ws) = (if ok then ij_job_id j # accepted_of ws else accepted_of ws)"
  "accepted_of ((None, ok) # ws) = accepted_of ws"
  by (simp_all add: accepted_of_def)

lemma work_of_simps [simp]:
  "work_of [] = []" "work_of (es @ fs) = work_of es @ work_of fs"
  "work_of (Ipc (IpcSetMode f) ok # es) = work_of es" "work_of (Ipc (IpcSetVoltage mv) ok # es) = work_of es"
  "work_of (Ipc IpcPause ok # es) = work_of es" "work_of (Ipc IpcResume ok # es) = (None, ok) # work_of es"
  "work_of (Ipc (IpcSendJob j) ok # es) = (Some j, ok) # work_of es" "work_of (Harness h # es) = work_of es"
  "work_of (SaveMode m # es) = work_of es" "work_of (SaveTuning t # es) = work_of es"
  "work_of (ClearTuning # es) = work_of es" "work_of (TaskReply r # es) = work_of es"
  "work_of (ShareSent k sh # es) = work_of es" "work_of (NanoEvent ev # es) = work_of es"
  "work_of (IpcClosed # es) = work_of es"
  by (simp_all add: work_of_def)

type_synonym job_view = "(u32 \<times> job_context) list \<times> u32 \<times> u32 option \<times> (ipc_job option \<times> bool) list"

definition job_view :: "'w nano_worker \<Rightarrow> job_view" where
  "job_view s = (nw_jobs s, nw_next_job s, nw_current_job s, work_of (nw_log s))"

text \<open>What does not give the chain work, nor ends a pause.\<close>

definition idle_step :: "'w nano_worker \<Rightarrow> 'w nano_worker \<Rightarrow> bool" where
  "idle_step s s' \<longleftrightarrow> job_view s' = job_view s \<and> nw_manual_pause s' = nw_manual_pause s"

lemma idle_step_refl [simp]: "idle_step s s"
  by (simp add: idle_step_def)

lemma idle_step_trans [trans]: "idle_step s t \<Longrightarrow> idle_step t u \<Longrightarrow> idle_step s u"
  by (simp add: idle_step_def)

lemmas idle_defs = idle_step_def job_view_def ipc_eq

lemma tune_idle: "idle_step s (tune E now b s)"
proof -
  have f: "idle_step s (tune_freq E fs s)" for fs s
    by (auto simp: tune_freq_def idle_defs split: option.split)
  have v: "idle_step s (tune_voltage E x s)" for x s
    by (auto simp: tune_voltage_def idle_defs split: option.split)
  have p: "idle_step s (tune_power E now x s)" for x s
    by (auto simp: tune_power_def idle_defs split: option.split)
  have w: "idle_step s (save_tuning E s)" for s
    by (simp add: save_tuning_def idle_defs)
  show ?thesis
    using idle_step_trans [OF idle_step_trans [OF idle_step_trans [OF f v] p] w] by (simp add: tune_def Let_def)
qed

lemma set_power_target_idle: "idle_step s (set_power_target E now v s)"
  by (auto simp: set_power_target_def save_tuning_def idle_defs split: option.split)

lemma switch_mode_idle: "idle_step s (switch_mode E m s)"
  by (auto simp: switch_mode_def idle_defs Let_def split: option.split)

lemma servo_idle: "servo E now st p s = Some s' \<Longrightarrow> idle_step s s'"
  by (auto simp: servo_def idle_defs Let_def split: option.splits if_splits)

lemma status_step_idle:
  assumes "status_step E now status s = Some s'"
  shows "idle_step s s'"
proof (cases status)
  case None
  then show ?thesis using assms by (simp add: status_step_def)
next
  case (Some r)
  obtain st p where r: "r = (st, p)" by (cases r)
  let ?s = "(note_effect (NanoEvent (StatusUpdate (ne_gigahashes E (st_ghsmm st)))) s)\<lparr>nw_last_power := p\<rparr>"
  have "idle_step s ?s" by (simp add: idle_defs)
  moreover have "idle_step ?s s'" using assms Some r by (intro servo_idle) (simp add: status_step_def)
  ultimately show ?thesis by (rule idle_step_trans)
qed

lemma drain_nonces_idle: "drain_nonces E ns s = Some s' \<Longrightarrow> idle_step s s'"
proof (induction ns arbitrary: s)
  case (Cons n ns)
  then obtain t where t: "nonce_step E n s = Some t" "drain_nonces E ns t = Some s'"
    by (auto simp: bind_eq_Some_conv)
  have "idle_step s t" using t(1)
    by (auto simp: nonce_step_def idle_defs bind_eq_Some_conv split: option.splits)
  then show ?case using Cons.IH [OF t(2)] by (rule idle_step_trans)
qed simp

lemma worker_go_idle_idle: "idle_step s (worker_go_idle E s)"
  by (simp add: worker_go_idle_def idle_defs Let_def)

lemma paused_update_idle: "nw_manual_pause s \<Longrightarrow> idle_step s (worker_update_task E task r s)"
  by (simp add: worker_update_task_def idle_defs)

lemma paused_drain_idle:
  "nw_manual_pause s \<Longrightarrow> idle_step s (snd (drain_commands E cs d s))"
proof (induction E cs d s rule: drain_commands.induct)
  case (1 E disconnected s)
  then show ?case by (simp add: idle_defs)
next
  case (2 E task replace cs disconnected s)
  have u: "idle_step s (worker_update_task E task replace s)" by (rule paused_update_idle [OF 2(2)])
  then have "nw_manual_pause (worker_update_task E task replace s)" using 2(2) by (simp add: idle_step_def)
  from idle_step_trans [OF u 2(1) [OF this]] show ?case by simp
next
  case (3 E cs disconnected s)
  have u: "idle_step s (worker_go_idle E s)" by (rule worker_go_idle_idle)
  then have "nw_manual_pause (worker_go_idle E s)" using 3(2) by (simp add: idle_step_def)
  from idle_step_trans [OF u 3(1) [OF this]] show ?case by simp
next
  case (4 E cs disconnected s)
  then show ?case by (simp add: idle_defs)
qed

lemma control_idle:
  assumes "cmd \<noteq> Some ''resume''" "nw_manual_pause s"
  shows "idle_step s (control_step E now cmd s)"
  using assms tune_idle [of s E now] set_power_target_idle [of s E now] switch_mode_idle [of s E]
  by (auto simp: control_step_def split: option.split)

text \<open>
  C27: While it is paused by hand the worker gives the chain no work: until a \<open>resume\<close> in the
  control file no job is sent and the chain is not resumed, whatever the scheduler, the chain
  and the other commands do; a task is only remembered.
\<close>

theorem pause_holds:
  assumes "worker_run E is s = Some (stopped, s')" "nw_manual_pause s"
    "\<And>i. i \<in> set is \<Longrightarrow> control_command (pi_control i) \<noteq> Some ''resume''"
  shows "nw_manual_pause s' \<and> work_of (nw_log s') = work_of (nw_log s) \<and> nw_jobs s' = nw_jobs s"
proof -
  have "idle_step s s'"
    using assms
  proof (induction "is" arbitrary: s)
    case (Cons i "is")
    let ?c = "control_step E (pi_control_now i) (control_command (pi_control i)) s"
    let ?d = "drain_commands E (pi_commands i) (pi_disconnected i) ?c"
    obtain st t where p: "worker_pass E i s = Some (st, t)"
      and rest: "(if st then Some (True, t) else worker_run E is t) = Some (stopped, s')"
      using Cons.prems(1) by (auto simp: bind_eq_Some_conv)
    have c: "idle_step s ?c" using Cons.prems(2,3) by (intro control_idle) auto
    have "nw_manual_pause ?c" using c Cons.prems(2) by (simp add: idle_step_def)
    then have d: "idle_step s (snd ?d)" using c paused_drain_idle idle_step_trans by blast
    have "idle_step s t"
    proof (cases "fst ?d")
      case True
      then show ?thesis using p d by (simp add: worker_pass_def Let_def split_def)
    next
      case False
      then obtain u where "drain_nonces E (pi_nonces i) (snd ?d) = Some u"
        "status_step E (pi_now i) (pi_status i) u = Some t"
        using p by (auto simp: worker_pass_def Let_def split_def bind_eq_Some_conv)
      then show ?thesis using d drain_nonces_idle status_step_idle idle_step_trans by meson
    qed
    moreover from this have "nw_manual_pause t" using Cons.prems(2) by (simp add: idle_step_def)
    ultimately show ?case
      using rest Cons.IH [of t] Cons.prems(3) idle_step_trans [of s t s'] by (auto split: if_splits)
  qed simp
  then show ?thesis using assms(2) by (simp add: idle_step_def job_view_def)
qed

text \<open>
  The resume that ends the pause re-powers the chain and gives it back its frequencies and
  voltage, but no job: the task the worker holds stays unsent.
\<close>

theorem resume_sends_no_job:
  assumes "nw_manual_pause s" "s' = control_step E now (Some ''resume'') s"
  shows "\<not> nw_manual_pause s' \<and> nw_task s' = nw_task s \<and> accepted_jobs (nw_log s') = accepted_jobs (nw_log s) \<and>
    calls_of (effects_since s s') =
      [IpcResume, IpcSetMode (nw_last_freq s)] @ (case nw_last_mv s of None \<Rightarrow> [] | Some mv \<Rightarrow> [IpcSetVoltage mv])"
  using assms
  by (auto simp: control_step_def manual_resume_def resume_from_idle_def ipc_eq effects_since_def accepted_jobs_def
      Let_def split: option.split)

lemma jobs_insert_take:
  assumes "sorted_wrt (>) (map fst js)" "\<forall>p \<in> set js. fst p < k" "length js \<le> 4"
  shows "jobs_insert k ctx js = take 4 ((k, ctx) # js)"
proof -
  have f: "filter (\<lambda>p. fst p \<noteq> k) js = js" using assms(2) by (intro filter_True) auto
  show ?thesis
  proof (cases "length js = 4")
    case False
    then show ?thesis using assms(3) by (simp add: jobs_insert_def f)
  next
    case True
    then obtain ys q where js: "js = ys @ [q]" "length ys = 3"
      by (metis append_butlast_last_id length_butlast list.size(3) zero_neq_numeral diff_Suc_1 numeral_eq_Suc pred_numeral_simps(3) BitM.simps(1) BitM.simps(2) pred_numeral_simps(2))
    have gt: "\<forall>p \<in> set ys. fst q < fst p" using assms(1) by (auto simp: js sorted_wrt_append)
    have kq: "fst q < k" using assms(2) by (simp add: js)
    have "Min (set (map fst ((k, ctx) # js))) = fst q"
      using gt kq by (intro Min_eqI) (auto simp: js intro: less_imp_le)
    moreover have "filter (\<lambda>p. fst p \<noteq> fst q) ((k, ctx) # js) = (k, ctx) # ys"
      using gt kq by (auto simp: js filter_id_conv)
    moreover have "take 4 ((k, ctx) # js) = (k, ctx) # ys" by (simp add: js)
    ultimately show ?thesis using True unfolding jobs_insert_def f Let_def by simp
  qed
qed

fun view_inv :: "job_view \<Rightarrow> bool" where
  "view_inv (jobs, next_job, current, ws) \<longleftrightarrow>
    map fst jobs = take 4 (rev (accepted_of ws)) \<and> sorted_wrt (>) (rev (accepted_of ws)) \<and>
    (\<forall>k \<in> set (accepted_of ws). k < next_job) \<and>
    current = (case rev (accepted_of ws) of [] \<Rightarrow> None | k # _ \<Rightarrow> Some k) \<and>
    (\<forall>(k, ctx) \<in> set jobs. \<exists>task r job. task_to_job k task r = Inr (job, ctx) \<and> (Some job, True) \<in> set ws)"

definition history_inv :: "'w nano_worker \<Rightarrow> bool" where
  "history_inv s \<longleftrightarrow> view_inv (job_view s)"

lemma idle_step_inv: "idle_step s s' \<Longrightarrow> history_inv s \<Longrightarrow> history_inv s'"
  by (simp add: idle_step_def history_inv_def)

lemma view_inv_resume: "view_inv (jobs, nxt, current, ws) \<Longrightarrow> view_inv (jobs, nxt, current, ws @ [(None, ok)])"
  by fastforce

lemma view_inv_failed:
  assumes "view_inv (jobs, nxt, current, ws)" "nxt < nxt + 1"
  shows "view_inv (jobs, nxt + 1, current, ws @ [(Some j, False)])"
proof -
  have "k < nxt + 1" if "k < nxt" for k using that assms(2) by (rule less_trans)
  then show ?thesis using assms(1) by fastforce
qed

lemma view_inv_skipped:
  assumes "view_inv (jobs, nxt, current, ws)" "nxt < nxt + 1"
  shows "view_inv (jobs, nxt + 1, current, ws)"
proof -
  have "k < nxt + 1" if "k < nxt" for k using that assms(2) by (rule less_trans)
  then show ?thesis using assms(1) by fastforce
qed

lemma view_inv_accepted:
  assumes inv: "view_inv (jobs, nxt, current, ws)" and nxt: "nxt < nxt + 1"
    and job: "task_to_job nxt task r = Inr (job, ctx)"
  shows "view_inv (jobs_insert nxt ctx jobs, nxt + 1, Some nxt, ws @ [(Some job, True)])"
proof -
  have id: "ij_job_id job = nxt" using task_to_job_Inr [OF job] by (auto simp: job_of_task_def)
  have keys: "map fst jobs = take 4 (rev (accepted_of ws))" and srt: "sorted_wrt (>) (rev (accepted_of ws))"
    and lt: "\<forall>k \<in> set (accepted_of ws). k < nxt" using inv by auto
  have len: "length jobs \<le> 4" using arg_cong [OF keys, of length] by simp
  have below: "\<forall>p \<in> set jobs. fst p < nxt"
  proof
    fix p assume "p \<in> set jobs"
    then have "fst p \<in> set (take 4 (rev (accepted_of ws)))" unfolding keys [symmetric] by simp
    then show "fst p < nxt" using lt by (auto dest: in_set_takeD)
  qed
  have "sorted_wrt (>) (map fst jobs)" unfolding keys using srt by (rule sorted_wrt_take)
  then have ins: "jobs_insert nxt ctx jobs = take 4 ((nxt, ctx) # jobs)" using below len by (rule jobs_insert_take)
  have "map fst (jobs_insert nxt ctx jobs) = take 4 (rev (accepted_of (ws @ [(Some job, True)])))"
    by (simp add: ins id take_map [symmetric] keys take_Cons')
  moreover have "\<forall>k \<in> set (accepted_of (ws @ [(Some job, True)])). k < nxt + 1"
    using lt nxt less_trans by (auto simp: id)
  moreover have "sorted_wrt (>) (rev (accepted_of (ws @ [(Some job, True)])))"
    using srt lt by (simp add: id)
  moreover have "\<forall>(k, c) \<in> set (jobs_insert nxt ctx jobs).
      \<exists>task r j. task_to_job k task r = Inr (j, c) \<and> (Some j, True) \<in> set (ws @ [(Some job, True)])"
  proof (rule ballI, rule case_prodI2)
    fix p k c assume p: "p \<in> set (jobs_insert nxt ctx jobs)" "p = (k, c)"
    then have "(k, c) = (nxt, ctx) \<or> (k, c) \<in> set jobs" unfolding ins by (auto dest: in_set_takeD)
    then show "\<exists>task r j. task_to_job k task r = Inr (j, c) \<and> (Some j, True) \<in> set (ws @ [(Some job, True)])"
    proof
      assume "(k, c) = (nxt, ctx)"
      then show ?thesis using job by auto
    next
      assume "(k, c) \<in> set jobs"
      then show ?thesis using inv by fastforce
    qed
  qed
  ultimately show ?thesis by (simp add: id)
qed

lemma update_task_inv:
  assumes inv: "history_inv s" and room: "unat (nw_next_job s) + 1 < 2 ^ 32"
  shows "history_inv (worker_update_task E task r s) \<and>
    unat (nw_next_job (worker_update_task E task r s)) \<le> unat (nw_next_job s) + 1"
proof (cases "nw_manual_pause s")
  case True
  then have u: "idle_step s (worker_update_task E task r s)" by (rule paused_update_idle)
  then show ?thesis using idle_step_inv [OF u inv] by (simp add: idle_step_def job_view_def)
next
  case False
  let ?s = "if nw_idle s then (resume_from_idle E s)\<lparr>nw_idle := False\<rparr> else s"
  obtain ws where v: "job_view ?s = (nw_jobs s, nw_next_job s, nw_current_job s, ws)"
    and i: "view_inv (nw_jobs s, nw_next_job s, nw_current_job s, ws)"
    using inv view_inv_resume by (auto simp: history_inv_def job_view_def resume_from_idle_def ipc_eq)
  define n where "n = nw_next_job s"
  have un: "unat (n + 1) = unat n + 1" using room unfolding n_def by (simp add: unat_word_ariths)
  then have n: "n < n + 1" by (simp add: word_less_nat_alt)
  note eqs = worker_update_task_def False Let_def n_def [symmetric] history_inv_def job_view_def ipc_eq
  have fields: "nw_jobs ?s = nw_jobs s" "nw_next_job ?s = n" "nw_current_job ?s = nw_current_job s" "work_of (nw_log ?s) = ws"
    using v by (simp_all add: job_view_def n_def del: if_split)
  show ?thesis
  proof (cases "task_to_job n task r")
    case (Inl e)
    have "job_view (worker_update_task E task r s) = (nw_jobs s, n + 1, nw_current_job s, ws)"
      using fields Inl by (simp add: worker_update_task_def False Let_def job_view_def n_def del: if_split)
    then show ?thesis using view_inv_skipped [OF i [folded n_def] n] un
      by (simp add: history_inv_def job_view_def n_def)
  next
    case (Inr p)
    obtain job ctx where p: "p = (job, ctx)" by (cases p)
    let ?ok = "ne_ok E (length (nw_log ?s))"
    have "job_view (worker_update_task E task r s) =
        (if ?ok then (jobs_insert n ctx (nw_jobs s), n + 1, Some n, ws @ [(Some job, True)])
         else (nw_jobs s, n + 1, nw_current_job s, ws @ [(Some job, False)]))"
      using fields Inr p by (simp add: worker_update_task_def False Let_def job_view_def n_def ipc_eq split: if_split del: if_split)
    then show ?thesis
      using view_inv_accepted [OF i [folded n_def] n Inr [unfolded p]] view_inv_failed [OF i [folded n_def] n] un
      unfolding history_inv_def by (auto simp: job_view_def n_def simp del: view_inv.simps split: if_splits)
  qed
qed

lemma drain_commands_inv:
  assumes "history_inv s" "unat (nw_next_job s) + length cs < 2 ^ 32"
  shows "history_inv (snd (drain_commands E cs d s))"
  using assms
proof (induction E cs d s rule: drain_commands.induct)
  case (1 E disconnected s)
  have "idle_step s (note_effect IpcClosed s)" by (simp add: idle_defs)
  then show ?case using 1 idle_step_inv by auto
next
  case (2 E task replace cs disconnected s)
  let ?s = "worker_update_task E task replace s"
  have u: "history_inv ?s \<and> unat (nw_next_job ?s) \<le> unat (nw_next_job s) + 1"
    using 2(2,3) by (intro update_task_inv) simp_all
  then have "unat (nw_next_job ?s) + length cs < 2 ^ 32" using 2(3) by simp
  then have "history_inv (snd (drain_commands E cs disconnected ?s))" using u 2(1) by blast
  then show ?case by simp
next
  case (3 E cs disconnected s)
  let ?s = "worker_go_idle E s"
  have u: "idle_step s ?s" by (rule worker_go_idle_idle)
  then have "history_inv ?s" using 3(2) by (rule idle_step_inv)
  moreover have "unat (nw_next_job ?s) + length cs < 2 ^ 32"
    using u 3(3) by (simp add: idle_step_def job_view_def)
  ultimately have "history_inv (snd (drain_commands E cs disconnected ?s))" using 3(1) by blast
  then show ?case by simp
next
  case (4 E cs disconnected s)
  have "idle_step s (note_effect IpcClosed s)" by (simp add: idle_defs)
  then show ?case using 4 idle_step_inv by auto
qed

lemma control_inv:
  assumes "history_inv s"
  shows "history_inv (control_step E now cmd s) \<and> nw_next_job (control_step E now cmd s) = nw_next_job s"
proof -
  have p: "job_view (manual_pause E s) = job_view s"
    by (simp add: manual_pause_def job_view_def ipc_eq)
  obtain ok where r: "job_view (manual_resume E s) = (nw_jobs s, nw_next_job s, nw_current_job s, work_of (nw_log s) @ [(None, ok)])"
    by (cases "nw_last_mv s") (simp_all add: manual_resume_def resume_from_idle_def job_view_def ipc_eq Let_def)
  define Q where "Q t \<longleftrightarrow> history_inv t \<and> nw_next_job t = nw_next_job s" for t :: "'a nano_worker"
  have i: "Q t" if "idle_step s t" for t
    using idle_step_inv [OF that assms] that by (simp add: Q_def idle_step_def job_view_def)
  have "history_inv (manual_resume E s)"
    using assms view_inv_resume unfolding history_inv_def r by (simp add: job_view_def)
  then have "Q (manual_resume E s)" using r by (simp add: Q_def job_view_def)
  moreover have "Q (manual_pause E s)" using assms p by (simp add: Q_def history_inv_def job_view_def)
  ultimately have "Q (control_step E now cmd s)"
    using i [OF tune_idle] i [OF set_power_target_idle] i [OF switch_mode_idle] i [OF idle_step_refl]
    by (simp add: control_step_def split: option.split)
  then show ?thesis by (simp add: Q_def)
qed

text \<open>The loop as a state machine: a pass that panics leaves the state as it is and is not admissible.\<close>

definition nano_step :: "'w nano_env \<Rightarrow> 'w nano_worker \<Rightarrow> 'w pass_input \<Rightarrow> 'w nano_worker" where
  "nano_step E s i = (case worker_pass E i s of None \<Rightarrow> s | Some (_, s') \<Rightarrow> s')"

definition nano_ok :: "'w nano_env \<Rightarrow> 'w nano_worker \<Rightarrow> 'w pass_input \<Rightarrow> bool" where
  "nano_ok E s i \<longleftrightarrow> worker_pass E i s \<noteq> None \<and> unat (nw_next_job s) + length (pi_commands i) < 2 ^ 32"

lemma history_inv_start: "history_inv (worker_start E mode_file tuning_file var ipc_ok now)"
  by (auto simp: worker_start_def initial_worker_def reapply_tuning_def reapply_freq_def reapply_voltage_def ipc_eq
      history_inv_def job_view_def Let_def split: option.split)

lemma history_inv_pass:
  assumes "history_inv s" "nano_ok E s i"
  shows "history_inv (nano_step E s i)"
proof -
  let ?c = "control_step E (pi_control_now i) (control_command (pi_control i)) s"
  let ?d = "drain_commands E (pi_commands i) (pi_disconnected i) ?c"
  obtain st t where p: "worker_pass E i s = Some (st, t)" using assms(2) by (auto simp: nano_ok_def)
  have "history_inv ?c" "nw_next_job ?c = nw_next_job s" using control_inv [OF assms(1)] by simp_all
  then have d: "history_inv (snd ?d)" using assms(2) by (intro drain_commands_inv) (simp_all add: nano_ok_def)
  have "history_inv t"
  proof (cases "fst ?d")
    case True
    then show ?thesis using p d by (simp add: worker_pass_def Let_def split_def)
  next
    case False
    then obtain u where u: "drain_nonces E (pi_nonces i) (snd ?d) = Some u"
      "status_step E (pi_now i) (pi_status i) u = Some t"
      using p by (auto simp: worker_pass_def Let_def split_def bind_eq_Some_conv)
    then show ?thesis
      using idle_step_inv [OF status_step_idle [OF u(2)] idle_step_inv [OF drain_nonces_idle [OF u(1)] d]] by simp
  qed
  then show ?thesis using p by (simp add: nano_step_def)
qed

interpretation nano: step_system "worker_start E mode_file tuning_file var ipc_ok now" "nano_step E" "nano_ok E" history_inv
  for E :: "'w nano_env" and mode_file tuning_file var ipc_ok now
  by unfold_locales (rule history_inv_start, rule history_inv_pass)

text \<open>
  C28: The worker answers for the last four jobs the chain has accepted and for no other: their ids,
  newest first, are the keys of its map, each with the context of a task that was sent under
  this id, and the newest is the current one.
\<close>

theorem job_history:
  assumes "run_ok (nano_ok E) (nano_step E) (worker_start E mode_file tuning_file var ipc_ok now) is"
    and "s = foldl (nano_step E) (worker_start E mode_file tuning_file var ipc_ok now) is"
  shows "map fst (nw_jobs s) = take 4 (rev (accepted_jobs (nw_log s))) \<and>
    (\<forall>k ctx. map_of (nw_jobs s) k = Some ctx \<longrightarrow>
       (\<exists>task r job. task_to_job k task r = Inr (job, ctx) \<and> (Some job, True) \<in> set (work_of (nw_log s)))) \<and>
    nw_current_job s = (case rev (accepted_jobs (nw_log s)) of [] \<Rightarrow> None | k # _ \<Rightarrow> Some k)"
proof -
  have "history_inv s" unfolding assms(2) by (rule nano.inv_run [OF assms(1)])
  then have inv: "view_inv (nw_jobs s, nw_next_job s, nw_current_job s, work_of (nw_log s))"
    by (simp add: history_inv_def job_view_def)
  have acc: "accepted_of (work_of (nw_log s)) = accepted_jobs (nw_log s)"
    by (simp add: accepted_jobs_def)
  have o: "\<exists>task r job. task_to_job k task r = Inr (job, ctx) \<and> (Some job, True) \<in> set (work_of (nw_log s))"
    if "map_of (nw_jobs s) k = Some ctx" for k ctx
    using inv map_of_SomeD [OF that] by auto
  have k: "map fst (nw_jobs s) = take 4 (rev (accepted_jobs (nw_log s)))"
    and c: "nw_current_job s = (case rev (accepted_jobs (nw_log s)) of [] \<Rightarrow> None | k # _ \<Rightarrow> Some k)"
    using inv by (simp_all add: acc)
  show ?thesis
    by (intro conjI allI impI k c o)
qed

section \<open>The LED override\<close>

lemma led_parse_str [simp]: "led_parse (led_as_str e) = Some e"
  by (cases e) (simp_all add: led_parse_def led_effects_def led_as_str_def)

lemma mode_parse_str [simp]: "mode_parse (mode_as_str m) = Some m"
  by (cases m) (simp_all add: mode_parse_def mode_as_str_def)

text \<open>
  A rejected request is not without effect: a bad colour leaves the effect it came with in
  force. Colour, brightness and speed change together or not at all.
\<close>

lemma led_rejected:
  assumes "write_led_command req s = (answer, s')" "answer \<noteq> Some (Inr ())"
  shows "ls_color s' = ls_color s \<and> ls_brightness s' = ls_brightness s \<and> ls_speed s' = ls_speed s \<and>
    (ls_effect s' \<noteq> ls_effect s \<longrightarrow> lr_color req \<noteq> None \<and> Option.bind (lr_effect req) led_parse = Some (ls_effect s'))"
  using assms by (auto simp: write_led_command_def split: option.splits sum.splits)

lemma led_half_applied:
  "write_led_command \<lparr>lr_effect = Some ''off'', lr_color = Some ''nope'', lr_brightness = None, lr_speed = None\<rparr> led_initial =
    (Some (Inl ()), led_initial\<lparr>ls_effect := LedOff\<rparr>)"
  by code_simp

text \<open>Six bytes that hold a character of two bytes in the wrong place: the slice panics.\<close>

lemma hex_color_panics: "parse_hex_color (''1'' @ [char_of (195 :: nat), char_of (169 :: nat)] @ ''234'') = None"
  by code_simp

lemma hex_color_signs: "parse_hex_color ''#+1+2+f'' = Some (Inr (1, 2, 15))"
proof -
  have "trim ''#+1+2+f'' = ''#+1+2+f''" by (rule trim_id) (simp add: is_blank_def)
  moreover have "hex_byte ''+1+2+f'' 0 = Some (Inr 1)" "hex_byte ''+1+2+f'' 2 = Some (Inr 2)"
    "hex_byte ''+1+2+f'' 4 = Some (Inr 15)"
    by (simp_all add: hex_byte_def char_boundary_def u8_from_hex_def hex_digit_def)
  ultimately show ?thesis by (simp add: parse_hex_color_def)
qed

section \<open>Witnesses\<close>

definition nano_task :: chip_task where
  "nano_task =
    \<lparr>ht_template =
       \<lparr>job_id = ''a'', job_prev_blockhash = replicate 32 7, job_version = \<lparr>vt_base = 0x20000000, vt_gp_bits_mask = gp_full\<rparr>,
        job_bits = 5, job_share_target = 9, job_time = 3,
        job_merkle_root = ComputedRoot
          \<lparr>mt_coinbase1 = [1], mt_extranonce1 = [2], mt_extranonce2_range = \<lparr>rng_min = 0, rng_max = 1, rng_size = 8\<rparr>,
           mt_coinbase2 = [3], mt_merkle_branches = []\<rparr>\<rparr>,
     ht_en2_range = None, ht_en2 = Some \<lparr>en2_value = 0x100000002, en2_size = 8\<rparr>, ht_share_target = 9, ht_ntime = 3,
     ct_share_tx = 0\<rparr>"

lemma nano_task_job: "\<exists>job ctx. task_to_job 1 nano_task r = Inr (job, ctx)"
  by (simp add: task_to_job_def nano_task_def Let_def)

theorem chain_version_in_mask_witness:
  "\<exists>job ctx. task_to_job 1 nano_task False = Inr (job, ctx) \<and> length (jc_vmask_candidates ctx) = 8 \<and>
    slot_version ctx 3 AND NOT (gp_bits_mask_to_raw gp_full) = 0x20000000 AND NOT (gp_bits_mask_to_raw gp_full)"
proof -
  obtain job ctx where j: "task_to_job 1 nano_task False = Inr (job, ctx)" using nano_task_job by blast
  have "vt_base (job_version (ht_template nano_task)) = 0x20000000"
    "vt_gp_bits_mask (job_version (ht_template nano_task)) = gp_full"
    by (simp_all add: nano_task_def)
  then show ?thesis using chain_version_in_mask [OF j, of 3] j by simp
qed



definition quiet_pass :: "string option \<Rightarrow> worker_command list \<Rightarrow> nat pass_input" where
  "quiet_pass control cs =
    \<lparr>pi_control = control, pi_commands = cs, pi_disconnected = False, pi_nonces = [], pi_status = None,
     pi_control_now = 0, pi_now = 0\<rparr>"

definition paused_worker :: "nat nano_worker" where
  "paused_worker = (nano_boot Stock None)\<lparr>nw_manual_pause := True, nw_idle := True\<rparr>"

lemma paused_run:
  "\<exists>s'. worker_run nano_demo [quiet_pass None [CmdUpdateTask nano_task True]] paused_worker = Some (False, s') \<and>
    nw_task s' = Some nano_task"
  by (simp add: worker_pass_def quiet_pass_def control_command_def control_step_def worker_update_task_def paused_worker_def
      status_step_def)

text \<open>A task that comes during the pause is kept, and not sent.\<close>

theorem pause_holds_witness:
  "\<exists>s'. worker_run nano_demo [quiet_pass None [CmdUpdateTask nano_task True]] paused_worker = Some (False, s') \<and>
    nw_task s' = Some nano_task \<and> nw_manual_pause s' \<and> work_of (nw_log s') = []"
proof -
  obtain s' where s': "worker_run nano_demo [quiet_pass None [CmdUpdateTask nano_task True]] paused_worker = Some (False, s')"
    "nw_task s' = Some nano_task"
    using paused_run by blast
  have "nw_manual_pause paused_worker" "work_of (nw_log paused_worker) = []"
    by (simp_all add: paused_worker_def nano_boot_def initial_worker_def)
  then show ?thesis using pause_holds [OF s'(1)] s' by (simp add: quiet_pass_def control_command_def)
qed

theorem resume_sends_no_job_witness:
  "nw_task (control_step nano_demo 0 (Some ''resume'') (paused_worker\<lparr>nw_task := Some nano_task\<rparr>)) = Some nano_task \<and>
   accepted_jobs (nw_log (control_step nano_demo 0 (Some ''resume'') (paused_worker\<lparr>nw_task := Some nano_task\<rparr>))) = []"
  using resume_sends_no_job [of "paused_worker\<lparr>nw_task := Some nano_task\<rparr>" _ nano_demo 0, OF _ refl]
  by (simp add: paused_worker_def nano_boot_def initial_worker_def accepted_jobs_def)

lemma first_job_run:
  "run_ok (nano_ok nano_demo) (nano_step nano_demo) (worker_start nano_demo None None None True 0)
     [quiet_pass None [CmdUpdateTask nano_task True]] \<and>
   accepted_jobs (nw_log (nano_step nano_demo (worker_start nano_demo None None None True 0)
     (quiet_pass None [CmdUpdateTask nano_task True]))) = [1]"
proof -
  obtain job ctx where j: "task_to_job 1 nano_task True = Inr (job, ctx)" using nano_task_job by blast
  then have id: "ij_job_id job = 1" using task_to_job_Inr [OF j] by (auto simp: job_of_task_def)
  show ?thesis using j
    by (simp add: nano_ok_def nano_step_def worker_pass_def quiet_pass_def control_command_def control_step_def worker_start_def
        initial_worker_def ipc_eq read_persisted_tuning_def worker_update_task_def status_step_def accepted_jobs_def id Let_def)
qed

theorem job_history_witness:
  "map fst (nw_jobs (nano_step nano_demo (worker_start nano_demo None None None True 0)
     (quiet_pass None [CmdUpdateTask nano_task True]))) = [1]"
  using job_history [of nano_demo None None None True 0 "[quiet_pass None [CmdUpdateTask nano_task True]]", OF _ refl] first_job_run
  by simp

end
