(* ===== verification/Hw_Monad.thy ===== *)
theory Hw_Monad
  imports Prelude
begin

text \<open>
  The effects of the hardware drivers: an operation takes the state of what it talks to and gives
  back a result, the error on the left, and the new state, which an error keeps. \<open>hbind\<close> is the
  \<open>?\<close> of the source, \<open>hattempt\<close> the places that look at a \<open>Result\<close> without returning it.
  \<open>emits\<close> speaks of what an operation appends to a log the state carries.
\<close>

type_synonym ('e, 's, 'a) hw = "'s \<Rightarrow> ('e + 'a) \<times> 's"

definition hret :: "'a \<Rightarrow> ('e, 's, 'a) hw" where
  "hret a s = (Inr a, s)"

definition hthrow :: "'e \<Rightarrow> ('e, 's, 'a) hw" where
  "hthrow e s = (Inl e, s)"

definition hbind :: "('e, 's, 'a) hw \<Rightarrow> ('a \<Rightarrow> ('e, 's, 'b) hw) \<Rightarrow> ('e, 's, 'b) hw" where
  "hbind m f s = (case m s of (Inl e, t) \<Rightarrow> (Inl e, t) | (Inr a, t) \<Rightarrow> f a t)"

definition hattempt :: "('e, 's, 'a) hw \<Rightarrow> ('f, 's, 'e + 'a) hw" where
  "hattempt m s = (Inr (fst (m s)), snd (m s))"

definition hmaperr :: "('e \<Rightarrow> 'f) \<Rightarrow> ('e, 's, 'a) hw \<Rightarrow> ('f, 's, 'a) hw" where
  "hmaperr g m s = (map_sum g id (fst (m s)), snd (m s))"

definition hthen :: "('e, 's, 'a) hw \<Rightarrow> ('e, 's, 'b) hw \<Rightarrow> ('e, 's, 'b) hw" where
  "hthen m n = hbind m (\<lambda>_. n)"

definition hwhen :: "bool \<Rightarrow> ('e, 's, unit) hw \<Rightarrow> ('e, 's, unit) hw" where
  "hwhen b m = (if b then m else hret ())"

fun hseq :: "('e, 's, unit) hw list \<Rightarrow> ('e, 's, unit) hw" where
  "hseq [] = hret ()"
| "hseq (m # ms) = hthen m (hseq ms)"

text \<open>An operation on a part of a state that \<open>get\<close> reads and \<open>put\<close> replaces.\<close>

definition hzoom :: "('t \<Rightarrow> 's) \<Rightarrow> ('s \<Rightarrow> 't \<Rightarrow> 't) \<Rightarrow> ('e, 's, 'a) hw \<Rightarrow> ('e, 't, 'a) hw" where
  "hzoom get put m t = (case m (get t) of (r, s) \<Rightarrow> (r, put s t))"

lemma hret_bind [simp]: "hbind (hret a) f = f a"
  by (simp add: fun_eq_iff hbind_def hret_def)

lemma hbind_ret [simp]: "hbind m hret = m"
  by (simp add: fun_eq_iff hbind_def hret_def split: prod.split sum.split)

lemma hbind_assoc: "hbind (hbind m f) g = hbind m (\<lambda>a. hbind (f a) g)"
  by (simp add: fun_eq_iff hbind_def split: prod.split sum.split)

lemma hthrow_bind [simp]: "hbind (hthrow e) f = hthrow e"
  by (simp add: fun_eq_iff hbind_def hthrow_def)

lemma hseq_append: "hseq (ms @ ns) = hthen (hseq ms) (hseq ns)"
  by (induction ms) (simp_all add: hthen_def hbind_assoc)

lemma hbind_Inr: "hbind m f s = (Inr b, u) \<longleftrightarrow> (\<exists>a t. m s = (Inr a, t) \<and> f a t = (Inr b, u))"
  by (auto simp: hbind_def split: prod.split sum.split)

lemma hbind_run:
  "fst (hbind m f s) = (case fst (m s) of Inl e \<Rightarrow> Inl e | Inr a \<Rightarrow> fst (f a (snd (m s))))"
  "snd (hbind m f s) = (case fst (m s) of Inl e \<Rightarrow> snd (m s) | Inr a \<Rightarrow> snd (f a (snd (m s))))"
  by (simp_all add: hbind_def split: prod.split sum.split)

section \<open>What an operation appends to a log\<close>

text \<open>
  \<open>emits lg m X\<close>: from every state \<open>m\<close> appends some entries to the log, and these and its result
  satisfy \<open>X\<close>.
\<close>

definition emits :: "('s \<Rightarrow> 'l list) \<Rightarrow> ('e, 's, 'a) hw \<Rightarrow> ('l list \<Rightarrow> 'e + 'a \<Rightarrow> bool) \<Rightarrow> bool" where
  "emits lg m X \<longleftrightarrow> (\<forall>s. \<exists>es. lg (snd (m s)) = lg s @ es \<and> X es (fst (m s)))"

lemma emitsI: "(\<And>s. \<exists>es. lg (snd (m s)) = lg s @ es \<and> X es (fst (m s))) \<Longrightarrow> emits lg m X"
  by (simp add: emits_def)

lemma emitsD: "emits lg m X \<Longrightarrow> \<exists>es. lg (snd (m s)) = lg s @ es \<and> X es (fst (m s))"
  by (simp add: emits_def)

lemma emits_weaken: "emits lg m X \<Longrightarrow> (\<And>es r. X es r \<Longrightarrow> Y es r) \<Longrightarrow> emits lg m Y"
  by (fastforce simp: emits_def)

lemma emits_ret: "X [] (Inr a) \<Longrightarrow> emits lg (hret a) X"
  by (simp add: emits_def hret_def)

lemma emits_throw: "X [] (Inl e) \<Longrightarrow> emits lg (hthrow e) X"
  by (simp add: emits_def hthrow_def)

text \<open>The entries are determined, so two accounts of them can be joined.\<close>

lemma emits_conj: "emits lg m X \<Longrightarrow> emits lg m Y \<Longrightarrow> emits lg m (\<lambda>es r. X es r \<and> Y es r)"
  unfolding emits_def by (metis same_append_eq)

lemma emits_result: "emits lg m X \<Longrightarrow> (\<And>s. P (fst (m s))) \<Longrightarrow> emits lg m (\<lambda>es r. X es r \<and> P r)"
  by (auto simp: emits_def)

lemma emits_bind:
  assumes "emits lg m X" "\<And>a. emits lg (f a) (Y a)"
    and "\<And>es e. X es (Inl e) \<Longrightarrow> Z es (Inl e)"
    and "\<And>es fs a r. X es (Inr a) \<Longrightarrow> Y a fs r \<Longrightarrow> Z (es @ fs) r"
  shows "emits lg (hbind m f) Z"
proof (rule emitsI)
  fix s
  obtain es where es: "lg (snd (m s)) = lg s @ es" "X es (fst (m s))" using emitsD [OF assms(1)] by blast
  show "\<exists>es. lg (snd (hbind m f s)) = lg s @ es \<and> Z es (fst (hbind m f s))"
  proof (cases "fst (m s)")
    case (Inl e)
    then show ?thesis using es assms(3) by (auto simp: hbind_run)
  next
    case (Inr a)
    obtain fs where "lg (snd (f a (snd (m s)))) = lg (snd (m s)) @ fs" "Y a fs (fst (f a (snd (m s))))"
      using emitsD [OF assms(2)] by blast
    then show ?thesis using es Inr assms(4) by (auto simp: hbind_run)
  qed
qed

text \<open>The second operation appends nothing.\<close>

lemma emits_bind_result:
  assumes "emits lg m (\<lambda>es _. P es)" "\<And>a. emits lg (f a) (\<lambda>es r. es = [] \<and> R r)" "\<And>e. R (Inl e)"
  shows "emits lg (hbind m f) (\<lambda>es r. P es \<and> R r)"
  by (rule emits_bind [OF assms(1,2)]) (use assms(3) in auto)

lemma emits_bind_silent:
  assumes "emits lg m (\<lambda>es _. P es)" "\<And>a. emits lg (f a) (\<lambda>es _. es = [])"
  shows "emits lg (hbind m f) (\<lambda>es _. P es)"
  by (rule emits_bind [OF assms]) auto

lemma emits_attempt: "emits lg m X \<Longrightarrow> (\<And>es r. X es r \<Longrightarrow> Y es (Inr r)) \<Longrightarrow> emits lg (hattempt m) Y"
  by (fastforce simp: emits_def hattempt_def)

lemma emits_maperr: "emits lg m X \<Longrightarrow> (\<And>es r. X es r \<Longrightarrow> Y es (map_sum g id r)) \<Longrightarrow> emits lg (hmaperr g m) Y"
  by (fastforce simp: emits_def hmaperr_def)

lemma emits_zoom:
  assumes "emits lg m X" "\<And>s t. get (put s t) = s" "\<And>t. lg' t = lg (get t)"
  shows "emits lg' (hzoom get put m) X"
proof (rule emitsI)
  fix t
  show "\<exists>es. lg' (snd (hzoom get put m t)) = lg' t @ es \<and> X es (fst (hzoom get put m t))"
    using emitsD [OF assms(1), of "get t"] by (cases "m (get t)") (simp add: hzoom_def assms(2,3))
qed

text \<open>Every entry an operation appends satisfies a predicate.\<close>

definition emits_only :: "('s \<Rightarrow> 'l list) \<Rightarrow> ('e, 's, 'a) hw \<Rightarrow> ('l \<Rightarrow> bool) \<Rightarrow> bool" where
  "emits_only lg m P \<longleftrightarrow> emits lg m (\<lambda>es _. list_all P es)"

lemma emits_only_bind:
  "emits_only lg m P \<Longrightarrow> (\<And>a. emits_only lg (f a) P) \<Longrightarrow> emits_only lg (hbind m f) P"
  unfolding emits_only_def
  by (rule emits_bind [where X = "\<lambda>es _. list_all P es" and Y = "\<lambda>_ es _. list_all P es"]) auto

lemma emits_only_ret: "emits_only lg (hret a) P" "emits_only lg (hthrow e) P"
  by (simp_all add: emits_only_def emits_ret emits_throw)

lemma emits_only_attempt: "emits_only lg m P \<Longrightarrow> emits_only lg (hattempt m) P"
  unfolding emits_only_def by (rule emits_attempt)

lemma emits_only_maperr: "emits_only lg m P \<Longrightarrow> emits_only lg (hmaperr g m) P"
  unfolding emits_only_def by (rule emits_maperr)

lemma emits_only_mono: "emits_only lg m P \<Longrightarrow> (\<And>l. P l \<Longrightarrow> Q l) \<Longrightarrow> emits_only lg m Q"
  unfolding emits_only_def by (erule emits_weaken) (auto simp: list_all_iff)

lemma emits_only_seq: "(\<And>m. m \<in> set ms \<Longrightarrow> emits_only lg m P) \<Longrightarrow> emits_only lg (hseq ms) P"
  by (induction ms) (auto simp: hthen_def intro: emits_only_bind emits_only_ret)

lemma emits_only_if:
  "(b \<Longrightarrow> emits_only lg m P) \<Longrightarrow> (\<not> b \<Longrightarrow> emits_only lg n P) \<Longrightarrow> emits_only lg (if b then m else n) P"
  by simp

lemma emits_only_when: "(b \<Longrightarrow> emits_only lg m P) \<Longrightarrow> emits_only lg (hwhen b m) P"
  by (simp add: hwhen_def emits_only_ret)

lemma emits_only_then: "emits_only lg m P \<Longrightarrow> emits_only lg n P \<Longrightarrow> emits_only lg (hthen m n) P"
  unfolding hthen_def by (rule emits_only_bind)

lemmas emits_only_intros = emits_only_ret emits_only_bind emits_only_attempt emits_only_maperr
  emits_only_seq emits_only_if emits_only_when

section \<open>What an operation keeps\<close>

text \<open>A relation between the state before and after that every operation of a group respects.\<close>

definition moves_by :: "('s \<Rightarrow> 's \<Rightarrow> bool) \<Rightarrow> ('e, 's, 'a) hw \<Rightarrow> bool" where
  "moves_by R m \<longleftrightarrow> (\<forall>s. R s (snd (m s)))"

lemma moves_ret: "(\<And>s. R s s) \<Longrightarrow> moves_by R (hret a)" "(\<And>s. R s s) \<Longrightarrow> moves_by R (hthrow e)"
  by (simp_all add: moves_by_def hret_def hthrow_def)

lemma moves_bind:
  assumes "\<And>s t u. R s t \<Longrightarrow> R t u \<Longrightarrow> R s u" "moves_by R m" "\<And>a. moves_by R (f a)"
  shows "moves_by R (hbind m f)"
  unfolding moves_by_def
proof
  fix s
  have m: "R s (snd (m s))" using assms(2) by (simp add: moves_by_def)
  show "R s (snd (hbind m f s))"
  proof (cases "fst (m s)")
    case (Inr a)
    have "R (snd (m s)) (snd (f a (snd (m s))))" using assms(3) by (simp add: moves_by_def)
    then show ?thesis using assms(1) [OF m] Inr by (simp add: hbind_run)
  qed (use m in \<open>simp add: hbind_run\<close>)
qed

lemma moves_attempt: "moves_by R m \<Longrightarrow> moves_by R (hattempt m)"
  by (simp add: moves_by_def hattempt_def)

lemma moves_maperr: "moves_by R m \<Longrightarrow> moves_by R (hmaperr g m)"
  by (simp add: moves_by_def hmaperr_def)

lemma moves_when: "(\<And>s. R s s) \<Longrightarrow> moves_by R m \<Longrightarrow> moves_by R (hwhen b m)"
  by (simp add: hwhen_def moves_ret)

lemma moves_seq:
  assumes "\<And>s. R s s" "\<And>s t u. R s t \<Longrightarrow> R t u \<Longrightarrow> R s u" "\<And>m. m \<in> set ms \<Longrightarrow> moves_by R m"
  shows "moves_by R (hseq ms)"
  using assms(3)
proof (induction ms)
  case (Cons m ms)
  have "moves_by R m" "moves_by R (hseq ms)" using Cons by simp_all
  then show ?case unfolding hseq.simps hthen_def by (intro moves_bind) (rule assms(2))
qed (simp add: moves_ret assms(1))

text \<open>A sequence that succeeds has run each of its steps with success, between its start and its end.\<close>

lemma hseq_success:
  assumes "\<And>s. R s s" "\<And>s t u. R s t \<Longrightarrow> R t u \<Longrightarrow> R s u" "\<And>m. m \<in> set ms \<Longrightarrow> moves_by R m"
    and "hseq ms s = (Inr (), t)" "m \<in> set ms"
  shows "\<exists>u v. R s u \<and> m u = (Inr (), v) \<and> R v t"
  using assms(3,4,5)
proof (induction ms arbitrary: s)
  case (Cons x ms)
  obtain u where u: "x s = (Inr (), u)" "hseq ms u = (Inr (), t)"
    using Cons.prems(2) by (auto simp: hthen_def hbind_Inr)
  have "moves_by R x" using Cons.prems(1) by simp
  moreover have "moves_by R (hseq ms)" by (rule moves_seq [OF assms(1,2)]) (use Cons.prems(1) in auto)
  ultimately have Rx: "R s u" "R u t" using u unfolding moves_by_def by (metis snd_conv)+
  show ?case
  proof (cases "m = x")
    case True
    then show ?thesis using u(1) Rx(2) assms(1) by blast
  next
    case False
    then have "m \<in> set ms" using Cons.prems(3) by simp
    moreover have "m' \<in> set ms \<Longrightarrow> moves_by R m'" for m' using Cons.prems(1) by simp
    ultimately obtain v w where w: "R u v" "m v = (Inr (), w)" "R w t"
      using Cons.IH [OF _ u(2)] by blast
    have "R s v" by (rule assms(2) [OF Rx(1) w(1)])
    then show ?thesis using w(2,3) by blast
  qed
qed simp

end
