(* ===== verification/Bitaxe_Raw.thy ===== *)
theory Bitaxe_Raw
  imports Hw_Monad
begin

text \<open>
  The bitaxe-raw control protocol (\<open>mgmt_protocol/bitaxe_raw/\<close>): request packets, the two response
  formats and their decoder, the control channel that numbers requests and matches responses
  (\<open>channel.rs\<close>), and the I2C bus, GPIO pins and reboot commands tunnelled through it (\<open>i2c.rs\<close>,
  \<open>gpio.rs\<close>, \<open>system.rs\<close>). The serial line with the device behind it is a parameter. The text of a
  custom error is kept as its bytes, which the code shows through \<open>from_utf8_lossy\<close>.
\<close>

section \<open>Packets and responses\<close>

datatype response_format = V0 | V1

datatype page = PageI2C | PageGPIO | PageADC | PageLED | PageSystem

definition page_byte :: "page \<Rightarrow> u8" where
  "page_byte p =
    (case p of PageI2C \<Rightarrow> 0x05 | PageGPIO \<Rightarrow> 0x06 | PageADC \<Rightarrow> 0x07 | PageLED \<Rightarrow> 0x08 | PageSystem \<Rightarrow> 0x09)"

datatype i2c_command = I2cSetFrequency | I2cWrite | I2cRead | I2cWriteRead

definition i2c_command_byte :: "i2c_command \<Rightarrow> u8" where
  "i2c_command_byte c =
    (case c of I2cSetFrequency \<Rightarrow> 0x10 | I2cWrite \<Rightarrow> 0x20 | I2cRead \<Rightarrow> 0x30 | I2cWriteRead \<Rightarrow> 0x40)"

datatype error_code = CodeTimeout | CodeInvalidCommand | CodeBufferOverflow | CodeCustom

definition error_code_try_from :: "u8 \<Rightarrow> u8 + error_code" where
  "error_code_try_from v =
    (if v = 0x10 then Inr CodeTimeout else if v = 0x11 then Inr CodeInvalidCommand
     else if v = 0x12 then Inr CodeBufferOverflow else if v = 0xff then Inr CodeCustom else Inl v)"

record control_packet =
  pk_id :: u8
  pk_bus :: u8
  pk_page :: page
  pk_command :: u8
  pk_data :: "u8 list"

definition packet_new :: "page \<Rightarrow> u8 \<Rightarrow> u8 list \<Rightarrow> control_packet" where
  "packet_new pg cmd bs = \<lparr>pk_id = 0, pk_bus = 0, pk_page = pg, pk_command = cmd, pk_data = bs\<rparr>"

text \<open>The length is cast to 16 bits.\<close>

definition packet_encode :: "control_packet \<Rightarrow> u8 list" where
  "packet_encode p =
    to_le 2 (word_of_nat (6 + length (pk_data p)) :: u16) @
    [pk_id p, pk_bus p, page_byte (pk_page p), pk_command p] @ pk_data p"

record control_response =
  rs_id :: u8
  rs_data :: "u8 list"
  rs_error :: "(error_code \<times> u8 list option) option"

datatype control_error =
  ResponseTooShort | UnknownErrorCode u8 | PacketTooLarge nat | IdMismatch u8 u8 | StreamClosed
  | CommandTimeout | ControlProtocolError "error_code \<times> u8 list option" | LineError string

definition parse_v0 :: "u8 list \<Rightarrow> control_error + control_response" where
  "parse_v0 bytes =
    (case bytes of [] \<Rightarrow> Inl ResponseTooShort | i # rest \<Rightarrow> Inr \<lparr>rs_id = i, rs_data = rest, rs_error = None\<rparr>)"

definition parse_v1 :: "u8 list \<Rightarrow> control_error + control_response" where
  "parse_v1 bytes =
    (case bytes of
       i # status # payload \<Rightarrow>
         if status = 0 then Inr \<lparr>rs_id = i, rs_data = payload, rs_error = None\<rparr>
         else (case error_code_try_from status of
                 Inl unknown \<Rightarrow> Inl (UnknownErrorCode unknown)
               | Inr code \<Rightarrow>
                   Inr \<lparr>rs_id = i, rs_data = [],
                     rs_error = Some (code, if code = CodeCustom \<and> payload \<noteq> [] then Some payload else None)\<rparr>)
     | _ \<Rightarrow> Inl ResponseTooShort)"

definition codec_max_length :: nat where
  "codec_max_length = 4096"

definition total_packet_size :: "response_format \<Rightarrow> u8 list \<Rightarrow> nat" where
  "total_packet_size fmt src =
    (let length_field = unat (from_le (take 2 src) :: u16)
     in case fmt of V0 \<Rightarrow> 2 + 1 + length_field | V1 \<Rightarrow> length_field)"

text \<open>
  The result and what is left of the buffer. \<open>None\<close> is the panic of \<open>packet_data[2..]\<close> on a packet
  of fewer than two bytes.
\<close>

definition control_decode ::
  "response_format \<Rightarrow> u8 list \<Rightarrow> ((control_error + control_response option) \<times> u8 list) option" where
  "control_decode fmt src =
    (if length src < 2 then Some (Inr None, src)
     else
       let total = total_packet_size fmt src
       in if codec_max_length < total then Some (Inl (PacketTooLarge total), src)
          else if length src < total then Some (Inr None, src)
          else if total < 2 then None
          else
            let response_data = drop 2 (take total src)
            in Some (map_sum id Some (case fmt of V0 \<Rightarrow> parse_v0 response_data | V1 \<Rightarrow> parse_v1 response_data),
                     drop total src))"

definition control_encode :: "control_packet \<Rightarrow> control_error + u8 list" where
  "control_encode p =
    (let encoded = packet_encode p
     in if codec_max_length < length encoded then Inl (PacketTooLarge (length encoded)) else Inr encoded)"

section \<open>The control channel\<close>

text \<open>
  The line: \<open>ln_send\<close> writes the bytes of a packet, \<open>ln_next\<close> is what the reader gives within the
  timeout of one second.
\<close>

datatype reader_next = NextResponse control_response | NextError control_error | NextEnd | NextTimeout

record 'd line =
  ln_send :: "u8 list \<Rightarrow> 'd \<Rightarrow> string option \<times> 'd"
  ln_next :: "'d \<Rightarrow> reader_next \<times> 'd"

text \<open>The channel with the device, and the packets handed to the writer so far.\<close>

record 'd channel =
  ch_next_id :: u8
  ch_device :: 'd
  ch_log :: "control_packet list"

type_synonym ('d, 'a) on_channel = "(control_error, 'd channel, 'a) hw"

definition write_packet :: "'d line \<Rightarrow> control_packet \<Rightarrow> ('d, u8) on_channel" where
  "write_packet L pkt s =
    (let p = pkt\<lparr>pk_id := ch_next_id s\<rparr>;
         s = s\<lparr>ch_next_id := ch_next_id s + 1\<rparr>
     in case control_encode p of
          Inl e \<Rightarrow> (Inl e, s)
        | Inr bytes \<Rightarrow>
            (case ln_send L bytes (ch_device s) of
               (failure, d) \<Rightarrow>
                 let s = s\<lparr>ch_device := d, ch_log := ch_log s @ [p]\<rparr>
                 in (case failure of Some e \<Rightarrow> (Inl (LineError e), s) | None \<Rightarrow> (Inr (pk_id p), s))))"

definition await_id :: "'d line \<Rightarrow> u8 \<Rightarrow> ('d, control_response) on_channel" where
  "await_id L expected_id s =
    (case ln_next L (ch_device s) of
       (rx, d) \<Rightarrow>
         ((case rx of
             NextResponse resp \<Rightarrow> if rs_id resp \<noteq> expected_id then Inl (IdMismatch expected_id (rs_id resp)) else Inr resp
           | NextError e \<Rightarrow> Inl e
           | NextEnd \<Rightarrow> Inl StreamClosed
           | NextTimeout \<Rightarrow> Inl CommandTimeout),
          s\<lparr>ch_device := d\<rparr>))"

definition send_packet :: "'d line \<Rightarrow> control_packet \<Rightarrow> ('d, control_response) on_channel" where
  "send_packet L pkt =
    hbind (write_packet L pkt) (\<lambda>expected_id.
    hbind (await_id L expected_id) (\<lambda>resp.
      case rs_error resp of Some e \<Rightarrow> hthrow (ControlProtocolError e) | None \<Rightarrow> hret resp))"

definition send_packet_no_reply :: "'d line \<Rightarrow> control_packet \<Rightarrow> ('d, unit) on_channel" where
  "send_packet_no_reply L pkt = hbind (write_packet L pkt) (\<lambda>_. hret ())"

section \<open>I2C, GPIO and system commands\<close>

datatype hw_error =
  HwIo control_error | HwI2c string control_error | HwI2cLength nat nat | HwInvalidParameter string | HwOther string

definition i2c_write :: "'d line \<Rightarrow> u8 \<Rightarrow> u8 list \<Rightarrow> (hw_error, 'd channel, unit) hw" where
  "i2c_write L addr bs =
    hbind (hmaperr (HwI2c ''Write failed'') (send_packet L (packet_new PageI2C (i2c_command_byte I2cWrite) (addr # bs))))
      (\<lambda>_. hret ())"

text \<open>A read into a buffer of \<open>n\<close> bytes; the length is cast to one byte.\<close>

definition read_into :: "nat \<Rightarrow> control_response \<Rightarrow> (hw_error, 'd channel, u8 list) hw" where
  "read_into n resp =
    (if length (rs_data resp) \<noteq> n then hthrow (HwI2cLength n (length (rs_data resp))) else hret (rs_data resp))"

definition i2c_read :: "'d line \<Rightarrow> u8 \<Rightarrow> nat \<Rightarrow> (hw_error, 'd channel, u8 list) hw" where
  "i2c_read L addr n =
    hbind (hmaperr (HwI2c ''Read failed'')
        (send_packet L (packet_new PageI2C (i2c_command_byte I2cRead) [addr, word_of_nat n])))
      (read_into n)"

definition i2c_write_read :: "'d line \<Rightarrow> u8 \<Rightarrow> u8 list \<Rightarrow> nat \<Rightarrow> (hw_error, 'd channel, u8 list) hw" where
  "i2c_write_read L addr bs n =
    hbind (hmaperr (HwI2c ''WriteRead failed'')
        (send_packet L (packet_new PageI2C (i2c_command_byte I2cWriteRead) (addr # bs @ [word_of_nat n]))))
      (read_into n)"

definition i2c_set_frequency :: "'d line \<Rightarrow> u32 \<Rightarrow> (hw_error, 'd channel, unit) hw" where
  "i2c_set_frequency L hz =
    hbind (hmaperr (HwI2c ''SetFrequency failed'')
        (send_packet L (packet_new PageI2C (i2c_command_byte I2cSetFrequency) (to_le 4 hz))))
      (\<lambda>_. hret ())"

datatype pin_value = Low | High

definition gpio_write :: "'d line \<Rightarrow> u8 \<Rightarrow> pin_value \<Rightarrow> (hw_error, 'd channel, unit) hw" where
  "gpio_write L number v =
    hbind (hmaperr HwIo (send_packet L (packet_new PageGPIO number [case v of High \<Rightarrow> 0x01 | Low \<Rightarrow> 0x00])))
      (\<lambda>_. hret ())"

definition gpio_read :: "'d line \<Rightarrow> u8 \<Rightarrow> (hw_error, 'd channel, pin_value) hw" where
  "gpio_read L number =
    hbind (hmaperr HwIo (send_packet L (packet_new PageGPIO number []))) (\<lambda>resp.
      case rs_data resp of
        [b] \<Rightarrow> hret (if b \<noteq> 0 then High else Low)
      | _ \<Rightarrow> hthrow (HwInvalidParameter ''Expected 1 byte in GPIO read response''))"

definition reboot :: "'d line \<Rightarrow> ('d, unit) on_channel" where
  "reboot L = send_packet_no_reply L (packet_new PageSystem 0x01 [0xDE, 0xAD, 0xBE, 0xEF])"

definition reboot_to_bootloader :: "'d line \<Rightarrow> ('d, unit) on_channel" where
  "reboot_to_bootloader L = send_packet_no_reply L (packet_new PageSystem 0x02 [0xB0, 0x07, 0x10, 0xAD])"

record device_version =
  dv_hardware :: u8
  dv_firmware_minor :: u8
  dv_firmware_patch :: u8

definition from_bcd :: "u16 \<Rightarrow> device_version" where
  "from_bcd bcd =
    \<lparr>dv_hardware = ucast (drop_bit 8 bcd), dv_firmware_minor = ucast (drop_bit 4 bcd AND 0x0F),
     dv_firmware_patch = ucast (bcd AND 0x0F)\<rparr>"

end
