(* ===== verification/I2c_Bus.thy ===== *)
theory I2c_Bus
  imports Bitaxe_Raw "HOL-Library.Sublist"
begin

text \<open>
  The I2C bus as the drivers see it (\<open>hw_trait/i2c.rs\<close>), with the laws they rely on: every call puts
  one transaction on the bus and a successful read has the length asked for. The bus tunnelled
  through the control channel satisfies them. The second part is the framing of the responses:
  the interface of a decoder over a stream of packets, and the two formats as instances of it.
\<close>

section \<open>The bus\<close>

record 's i2c_ops =
  bus_write :: "u8 \<Rightarrow> u8 list \<Rightarrow> (hw_error, 's, unit) hw"
  bus_write_read :: "u8 \<Rightarrow> u8 list \<Rightarrow> nat \<Rightarrow> (hw_error, 's, u8 list) hw"

text \<open>What goes over the channel of the bus: a transaction, or a packet that is none.\<close>

datatype i2c_op = OpWrite u8 "u8 list" | OpWriteRead u8 "u8 list" nat | OpOther page u8 "u8 list"

locale i2c_bus =
  fixes B :: "'s i2c_ops" and lg :: "'s \<Rightarrow> i2c_op list"
  assumes write_law: "length bs < 256 \<Longrightarrow> emits lg (bus_write B addr bs) (\<lambda>es _. es = [OpWrite addr bs])"
    and read_law: "length bs < 256 \<Longrightarrow> n < 256 \<Longrightarrow> emits lg (bus_write_read B addr bs n)
      (\<lambda>es r. es = [OpWriteRead addr bs n] \<and> (\<forall>out. r = Inr out \<longrightarrow> length out = n))"
begin

lemma write_only: "length bs < 256 \<Longrightarrow> P (OpWrite addr bs) \<Longrightarrow> emits_only lg (bus_write B addr bs) P"
  unfolding emits_only_def by (rule emits_weaken [OF write_law]) auto

lemma read_only:
  "length bs < 256 \<Longrightarrow> n < 256 \<Longrightarrow> P (OpWriteRead addr bs n) \<Longrightarrow> emits_only lg (bus_write_read B addr bs n) P"
  unfolding emits_only_def by (rule emits_weaken [OF read_law]) auto

end

text \<open>The bus of a Bitaxe board, and the packets of its channel.\<close>

definition bitaxe_i2c :: "'d line \<Rightarrow> 'd channel i2c_ops" where
  "bitaxe_i2c L = \<lparr>bus_write = i2c_write L, bus_write_read = i2c_write_read L\<rparr>"

definition i2c_op_of :: "control_packet \<Rightarrow> i2c_op" where
  "i2c_op_of p =
    (case pk_data p of
       addr # bs \<Rightarrow>
         if pk_page p = PageI2C \<and> pk_command p = i2c_command_byte I2cWrite then OpWrite addr bs
         else if pk_page p = PageI2C \<and> pk_command p = i2c_command_byte I2cWriteRead
         then OpWriteRead addr (butlast bs) (unat (last bs))
         else OpOther (pk_page p) (pk_command p) (pk_data p)
     | [] \<Rightarrow> OpOther (pk_page p) (pk_command p) (pk_data p))"

definition i2c_log :: "'d channel \<Rightarrow> i2c_op list" where
  "i2c_log s = map i2c_op_of (ch_log s)"

lemma i2c_op_of_id [simp]: "i2c_op_of (p\<lparr>pk_id := i\<rparr>) = i2c_op_of p"
  by (cases "pk_data p") (simp_all add: i2c_op_of_def)

lemma length_packet_encode [simp]: "length (packet_encode p) = 6 + length (pk_data p)"
  by (simp add: packet_encode_def)

text \<open>Every packet that fits is handed to the writer, with the next number.\<close>

lemma write_packet_emits:
  assumes "length (pk_data p) + 6 \<le> codec_max_length"
  shows "emits ch_log (write_packet L p) (\<lambda>es _. \<exists>i. es = [p\<lparr>pk_id := i\<rparr>])"
  using assms
  by (auto simp: emits_def write_packet_def control_encode_def Let_def split: prod.split option.split)

lemma await_id_emits: "emits ch_log (await_id L i) (\<lambda>es _. es = [])"
  by (auto simp: emits_def await_id_def split: prod.split)

lemma send_packet_emits:
  assumes "length (pk_data p) + 6 \<le> codec_max_length"
  shows "emits ch_log (send_packet L p) (\<lambda>es _. \<exists>i. es = [p\<lparr>pk_id := i\<rparr>])"
  unfolding send_packet_def
  by (intro emits_bind_silent write_packet_emits [OF assms] await_id_emits)
     (auto intro!: emits_ret emits_throw split: option.split)

lemma emits_i2c_log:
  assumes "emits ch_log m (\<lambda>es r. (\<exists>i. es = [p\<lparr>pk_id := i\<rparr>]) \<and> X r)" "i2c_op_of p = op"
  shows "emits i2c_log m (\<lambda>es r. es = [op] \<and> X r)"
proof (rule emitsI)
  fix s
  show "\<exists>es. i2c_log (snd (m s)) = i2c_log s @ es \<and> es = [op] \<and> X (fst (m s))"
    using emitsD [OF assms(1), of s] assms(2) by (auto simp: i2c_log_def)
qed

lemma maperr_send_emits:
  assumes "length (pk_data p) + 6 \<le> codec_max_length"
  shows "emits ch_log (hmaperr g (send_packet L p)) (\<lambda>es _. \<exists>i. es = [p\<lparr>pk_id := i\<rparr>])"
  by (rule emits_maperr [OF send_packet_emits [OF assms]])

lemma read_into_emits: "emits ch_log (read_into n resp) (\<lambda>es r. es = [] \<and> (\<forall>out. r = Inr out \<longrightarrow> length out = n))"
  by (auto simp: read_into_def intro!: emits_ret emits_throw)

lemma i2c_write_emits:
  assumes "length bs < 256"
  shows "emits i2c_log (i2c_write L addr bs) (\<lambda>es _. es = [OpWrite addr bs])"
proof -
  let ?p = "packet_new PageI2C (i2c_command_byte I2cWrite) (addr # bs)"
  have "emits ch_log (i2c_write L addr bs) (\<lambda>es r. (\<exists>i. es = [?p\<lparr>pk_id := i\<rparr>]) \<and> True)"
    unfolding i2c_write_def
    by (intro emits_bind_result maperr_send_emits)
       (use assms in \<open>auto simp: packet_new_def codec_max_length_def intro!: emits_ret\<close>)
  then have "emits i2c_log (i2c_write L addr bs) (\<lambda>es r. es = [OpWrite addr bs] \<and> True)"
    by (rule emits_i2c_log) (simp add: i2c_op_of_def packet_new_def)
  then show ?thesis by simp
qed

lemma i2c_write_read_emits:
  assumes "length bs < 256" "n < 256"
  shows "emits i2c_log (i2c_write_read L addr bs n)
    (\<lambda>es r. es = [OpWriteRead addr bs n] \<and> (\<forall>out. r = Inr out \<longrightarrow> length out = n))"
proof -
  let ?p = "packet_new PageI2C (i2c_command_byte I2cWriteRead) (addr # bs @ [word_of_nat n])"
  have "emits ch_log (i2c_write_read L addr bs n)
      (\<lambda>es r. (\<exists>i. es = [?p\<lparr>pk_id := i\<rparr>]) \<and> (\<forall>out. r = Inr out \<longrightarrow> length out = n))"
    unfolding i2c_write_read_def
    by (intro emits_bind_result maperr_send_emits read_into_emits)
       (use assms in \<open>auto simp: packet_new_def codec_max_length_def\<close>)
  then show ?thesis
    by (rule emits_i2c_log)
       (use assms in \<open>simp add: i2c_op_of_def packet_new_def i2c_command_byte_def unat_word_of_nat\<close>)
qed

interpretation bitaxe: i2c_bus "bitaxe_i2c L" i2c_log for L :: "'d line"
  by unfold_locales (simp_all add: bitaxe_i2c_def i2c_write_emits i2c_write_read_emits)

end
