(* ===== verification/Control_Properties.thy ===== *)
theory Control_Properties
  imports I2c_Bus
begin

text \<open>
  The control protocol: responses survive any cutting of the byte stream, in both formats, and
  what a reply that comes too late does to the channel.
\<close>

section \<open>A stream of packets\<close>




section \<open>The two response formats\<close>

text \<open>What a device sends for a response: its status is the success byte or the code of the error.\<close>

definition error_code_byte :: "error_code \<Rightarrow> u8" where
  "error_code_byte c =
    (case c of CodeTimeout \<Rightarrow> 0x10 | CodeInvalidCommand \<Rightarrow> 0x11 | CodeBufferOverflow \<Rightarrow> 0x12 | CodeCustom \<Rightarrow> 0xff)"




lemma error_code_roundtrip [simp]: "error_code_try_from (error_code_byte c) = Inr c"
  by (cases c) (simp_all add: error_code_try_from_def error_code_byte_def)

lemma error_code_byte_nonzero [simp]: "error_code_byte c \<noteq> 0"
  by (cases c) (simp_all add: error_code_byte_def)








text \<open>
  The first format never panics; the second one does exactly when the length field, which the
  device sends, is zero or one.
\<close>

lemma control_decode_panics:
  "control_decode fmt buf = None \<longleftrightarrow> fmt = V1 \<and> 2 \<le> length buf \<and> unat (from_le (take 2 buf) :: u16) < 2"
  by (cases fmt) (auto simp: control_decode_def total_packet_size_def codec_max_length_def Let_def)

section \<open>Replies that come too late\<close>

text \<open>
  A line that answers every packet and delivers the replies in order; what it has not delivered
  yet is its state. A reply slower than the timeout of one call is still there at the next.
\<close>

definition fifo_line :: "(u8 list \<Rightarrow> control_response) \<Rightarrow> control_response list line" where
  "fifo_line f =
    \<lparr>ln_send = \<lambda>bs q. (None, q @ [f bs]),
     ln_next = \<lambda>q. case q of [] \<Rightarrow> (NextTimeout, []) | r # rs \<Rightarrow> (NextResponse r, rs)\<rparr>"

text \<open>A sequence of calls, each made whatever the one before it returned.\<close>

fun send_all :: "'d line \<Rightarrow> control_packet list \<Rightarrow> 'd channel \<Rightarrow> (control_error + control_response) list \<times> 'd channel" where
  "send_all L [] s = ([], s)"
| "send_all L (p # ps) s = (case send_packet L p s of (r, t) \<Rightarrow> map_prod (Cons r) id (send_all L ps t))"

fun numbered :: "u8 \<Rightarrow> control_packet list \<Rightarrow> control_packet list" where
  "numbered i [] = []"
| "numbered i (p # ps) = p\<lparr>pk_id := i\<rparr> # numbered (i + 1) ps"

definition fits :: "control_packet \<Rightarrow> bool" where
  "fits p \<longleftrightarrow> length (pk_data p) + 6 \<le> codec_max_length"

lemma encode_id [simp]: "packet_encode p ! 2 = pk_id p"
  by (simp add: packet_encode_def nth_append)

lemma send_on_fifo:
  assumes "fits p" "\<And>bs. rs_id (f bs) = bs ! 2" "\<And>bs. rs_error (f bs) = None"
  shows "ch_device s = [] \<Longrightarrow> send_packet (fifo_line f) p s =
      (Inr (f (packet_encode (p\<lparr>pk_id := ch_next_id s\<rparr>))),
       s\<lparr>ch_next_id := ch_next_id s + 1, ch_log := ch_log s @ [p\<lparr>pk_id := ch_next_id s\<rparr>]\<rparr>)"
    and "ch_device s = [r] \<Longrightarrow> rs_id r = ch_next_id s - 1 \<Longrightarrow> send_packet (fifo_line f) p s =
      (Inl (IdMismatch (ch_next_id s) (ch_next_id s - 1)),
       s\<lparr>ch_next_id := ch_next_id s + 1, ch_log := ch_log s @ [p\<lparr>pk_id := ch_next_id s\<rparr>],
         ch_device := [f (packet_encode (p\<lparr>pk_id := ch_next_id s\<rparr>))]\<rparr>)"
  using assms
  by (simp_all add: send_packet_def hbind_def write_packet_def await_id_def control_encode_def fits_def Let_def
      fifo_line_def hret_def)

text \<open>
  C30: As long as no reply is outstanding, every call gets the reply to its own packet. But one reply
  that came after its call had timed out shifts all later ones: every call from then on is
  answered by the reply to the call before it and fails, although the device answers each packet
  in time. Nothing in the channel takes the stale reply out.
\<close>

theorem stale_reply_persists:
  assumes small: "list_all fits ps" and ids: "\<And>bs. rs_id (f bs) = bs ! 2" and fine: "\<And>bs. rs_error (f bs) = None"
  shows "(ch_device s = [] \<longrightarrow>
      fst (send_all (fifo_line f) ps s) = map (\<lambda>p. Inr (f (packet_encode p))) (numbered (ch_next_id s) ps)) \<and>
    (\<forall>r. ch_device s = [r] \<and> rs_id r = ch_next_id s - 1 \<longrightarrow>
      fst (send_all (fifo_line f) ps s) = map (\<lambda>p. Inl (IdMismatch (pk_id p) (pk_id p - 1))) (numbered (ch_next_id s) ps))"
  using small
proof (induction ps arbitrary: s)
  case (Cons p ps)
  have p: "fits p" and ps: "list_all fits ps" using Cons.prems by simp_all
  note send = send_on_fifo [OF p ids fine]
  have "fst (send_all (fifo_line f) (p # ps) s) = map (\<lambda>p. Inr (f (packet_encode p))) (numbered (ch_next_id s) (p # ps))"
    if d: "ch_device s = []"
    using Cons.IH [OF ps, THEN conjunct1, rule_format, of "snd (send_packet (fifo_line f) p s)"]
    by (simp add: send(1) [OF d] d)
  moreover have "fst (send_all (fifo_line f) (p # ps) s) =
      map (\<lambda>p. Inl (IdMismatch (pk_id p) (pk_id p - 1))) (numbered (ch_next_id s) (p # ps))"
    if d: "ch_device s = [r]" "rs_id r = ch_next_id s - 1" for r
    using Cons.IH [OF ps, THEN conjunct2, rule_format, of "snd (send_packet (fifo_line f) p s)"]
    by (simp add: send(2) [OF d] ids)
  ultimately show ?case by blast
qed simp

section \<open>The hypotheses can hold\<close>


definition echo_device :: "u8 list \<Rightarrow> control_response" where
  "echo_device bs = \<lparr>rs_id = bs ! 2, rs_data = drop 6 bs, rs_error = None\<rparr>"

theorem stale_reply_persists_witness:
  "fst (send_all (fifo_line echo_device) [packet_new PageGPIO 0 [1], packet_new PageGPIO 0 [0]]
      \<lparr>ch_next_id = 1, ch_device = [\<lparr>rs_id = 0, rs_data = [9], rs_error = None\<rparr>], ch_log = []\<rparr>) =
    [Inl (IdMismatch 1 0), Inl (IdMismatch 2 1)]"
  using stale_reply_persists [of "[packet_new PageGPIO 0 [1], packet_new PageGPIO 0 [0]]" echo_device
      "\<lparr>ch_next_id = 1, ch_device = [\<lparr>rs_id = 0, rs_data = [9], rs_error = None\<rparr>], ch_log = []\<rparr>"]
  by (simp add: fits_def packet_new_def codec_max_length_def echo_device_def)

end
