(* ===== verification/Pmbus.thy ===== *)
theory Pmbus
  imports Text_Format
begin

text \<open>
  PMBus (\<open>peripheral/pmbus.rs\<close>, \<open>pmbus/pmbus_types.rs\<close>): command codes, the number formats Linear11
  and Linear16, status registers and their texts. A finite \<open>f32\<close> is the rational it denotes: the
  conversions divide and multiply by powers of two and compare a value with its rounding to such
  a multiple, which single precision does exactly outside of underflow. \<open>round\<close> is to nearest,
  halves away from zero, and \<open>as\<close> from a float saturates.
\<close>

section \<open>Commands\<close>

datatype (plugins only: size code) pmbus_command =
  PmPage | PmOperation | PmOnOffConfig | PmClearFaults | PmPhase
  | PmCapability | PmVoutMode | PmVoutCommand | PmVoutMax | PmVoutMarginHigh
  | PmVoutMarginLow | PmVoutScaleLoop | PmVoutMin | PmFrequencySwitch | PmVinOn
  | PmVinOff | PmInterleave | PmVoutOvFaultLimit | PmVoutOvWarnLimit | PmVoutUvWarnLimit
  | PmVoutUvFaultLimit | PmIoutOcFaultLimit | PmIoutOcFaultResponse | PmIoutOcWarnLimit | PmOtFaultLimit
  | PmOtFaultResponse | PmOtWarnLimit | PmVinOvFaultLimit | PmVinOvFaultResponse | PmVinUvWarnLimit
  | PmTonDelay | PmTonRise | PmTonMaxFaultLimit | PmTonMaxFaultResponse | PmToffDelay
  | PmToffFall | PmStatusWord | PmStatusVout | PmStatusIout | PmStatusInput
  | PmStatusTemperature | PmStatusCml | PmStatusOther | PmStatusMfrSpecific | PmReadVin
  | PmReadVout | PmReadIout | PmReadTemperature1 | PmMfrId | PmMfrModel
  | PmMfrRevision | PmIcDeviceId | PmCompensationConfig | PmSyncConfig | PmStackConfig
  | PmMiscOptions | PmPinDetectOverride | PmSlaveAddress | PmNvmChecksum | PmSimulateFault
  | PmFusionId0 | PmFusionId1

primrec command_code :: "pmbus_command \<Rightarrow> u8" where
  "command_code PmPage = 0x00"
| "command_code PmOperation = 0x01"
| "command_code PmOnOffConfig = 0x02"
| "command_code PmClearFaults = 0x03"
| "command_code PmPhase = 0x04"
| "command_code PmCapability = 0x19"
| "command_code PmVoutMode = 0x20"
| "command_code PmVoutCommand = 0x21"
| "command_code PmVoutMax = 0x24"
| "command_code PmVoutMarginHigh = 0x25"
| "command_code PmVoutMarginLow = 0x26"
| "command_code PmVoutScaleLoop = 0x29"
| "command_code PmVoutMin = 0x2B"
| "command_code PmFrequencySwitch = 0x33"
| "command_code PmVinOn = 0x35"
| "command_code PmVinOff = 0x36"
| "command_code PmInterleave = 0x37"
| "command_code PmVoutOvFaultLimit = 0x40"
| "command_code PmVoutOvWarnLimit = 0x42"
| "command_code PmVoutUvWarnLimit = 0x43"
| "command_code PmVoutUvFaultLimit = 0x44"
| "command_code PmIoutOcFaultLimit = 0x46"
| "command_code PmIoutOcFaultResponse = 0x47"
| "command_code PmIoutOcWarnLimit = 0x4A"
| "command_code PmOtFaultLimit = 0x4F"
| "command_code PmOtFaultResponse = 0x50"
| "command_code PmOtWarnLimit = 0x51"
| "command_code PmVinOvFaultLimit = 0x55"
| "command_code PmVinOvFaultResponse = 0x56"
| "command_code PmVinUvWarnLimit = 0x58"
| "command_code PmTonDelay = 0x60"
| "command_code PmTonRise = 0x61"
| "command_code PmTonMaxFaultLimit = 0x62"
| "command_code PmTonMaxFaultResponse = 0x63"
| "command_code PmToffDelay = 0x64"
| "command_code PmToffFall = 0x65"
| "command_code PmStatusWord = 0x79"
| "command_code PmStatusVout = 0x7A"
| "command_code PmStatusIout = 0x7B"
| "command_code PmStatusInput = 0x7C"
| "command_code PmStatusTemperature = 0x7D"
| "command_code PmStatusCml = 0x7E"
| "command_code PmStatusOther = 0x7F"
| "command_code PmStatusMfrSpecific = 0x80"
| "command_code PmReadVin = 0x88"
| "command_code PmReadVout = 0x8B"
| "command_code PmReadIout = 0x8C"
| "command_code PmReadTemperature1 = 0x8D"
| "command_code PmMfrId = 0x99"
| "command_code PmMfrModel = 0x9A"
| "command_code PmMfrRevision = 0x9B"
| "command_code PmIcDeviceId = 0xAD"
| "command_code PmCompensationConfig = 0xB1"
| "command_code PmSyncConfig = 0xE4"
| "command_code PmStackConfig = 0xEC"
| "command_code PmMiscOptions = 0xED"
| "command_code PmPinDetectOverride = 0xEE"
| "command_code PmSlaveAddress = 0xEF"
| "command_code PmNvmChecksum = 0xF0"
| "command_code PmSimulateFault = 0xF1"
| "command_code PmFusionId0 = 0xFC"
| "command_code PmFusionId1 = 0xFD"

definition command_metadata :: "(u8 \<times> string) list" where
  "command_metadata =
    [(0x00, ''PAGE''), (0x01, ''OPERATION''), (0x02, ''ON_OFF_CONFIG''),
     (0x03, ''CLEAR_FAULTS''), (0x04, ''PHASE''), (0x19, ''CAPABILITY''),
     (0x20, ''VOUT_MODE''), (0x21, ''VOUT_COMMAND''), (0x24, ''VOUT_MAX''),
     (0x25, ''VOUT_MARGIN_HIGH''), (0x26, ''VOUT_MARGIN_LOW''), (0x29, ''VOUT_SCALE_LOOP''),
     (0x2B, ''VOUT_MIN''), (0x33, ''FREQUENCY_SWITCH''), (0x35, ''VIN_ON''),
     (0x36, ''VIN_OFF''), (0x37, ''INTERLEAVE''), (0x40, ''VOUT_OV_FAULT_LIMIT''),
     (0x42, ''VOUT_OV_WARN_LIMIT''), (0x43, ''VOUT_UV_WARN_LIMIT''), (0x44, ''VOUT_UV_FAULT_LIMIT''),
     (0x46, ''IOUT_OC_FAULT_LIMIT''), (0x47, ''IOUT_OC_FAULT_RESPONSE''), (0x4A, ''IOUT_OC_WARN_LIMIT''),
     (0x4F, ''OT_FAULT_LIMIT''), (0x50, ''OT_FAULT_RESPONSE''), (0x51, ''OT_WARN_LIMIT''),
     (0x55, ''VIN_OV_FAULT_LIMIT''), (0x56, ''VIN_OV_FAULT_RESPONSE''), (0x58, ''VIN_UV_WARN_LIMIT''),
     (0x60, ''TON_DELAY''), (0x61, ''TON_RISE''), (0x62, ''TON_MAX_FAULT_LIMIT''),
     (0x63, ''TON_MAX_FAULT_RESPONSE''), (0x64, ''TOFF_DELAY''), (0x65, ''TOFF_FALL''),
     (0x79, ''STATUS_WORD''), (0x7A, ''STATUS_VOUT''), (0x7B, ''STATUS_IOUT''),
     (0x7C, ''STATUS_INPUT''), (0x7D, ''STATUS_TEMPERATURE''), (0x7E, ''STATUS_CML''),
     (0x7F, ''STATUS_OTHER''), (0x80, ''STATUS_MFR_SPECIFIC''), (0x88, ''READ_VIN''),
     (0x8B, ''READ_VOUT''), (0x8C, ''READ_IOUT''), (0x8D, ''READ_TEMPERATURE_1''),
     (0x99, ''MFR_ID''), (0x9A, ''MFR_MODEL''), (0x9B, ''MFR_REVISION''),
     (0xAD, ''IC_DEVICE_ID''), (0xB1, ''COMPENSATION_CONFIG''), (0xE4, ''SYNC_CONFIG''),
     (0xEC, ''STACK_CONFIG''), (0xED, ''MISC_OPTIONS''), (0xEE, ''PIN_DETECT_OVERRIDE''),
     (0xEF, ''SLAVE_ADDRESS''), (0xF0, ''NVM_CHECKSUM''), (0xF1, ''SIMULATE_FAULT''),
     (0xFC, ''FUSION_ID0''), (0xFD, ''FUSION_ID1'')]"

definition command_name :: "pmbus_command \<Rightarrow> string" where
  "command_name c = (case map_of command_metadata (command_code c) of Some name \<Rightarrow> name | None \<Rightarrow> ''UNKNOWN'')"

datatype pmbus_operation =
  OffImmediate | MarginLow | MarginHigh | SoftOff | OpOn | OnMarginLow | OnMarginHigh

definition operation_code :: "pmbus_operation \<Rightarrow> u8" where
  "operation_code p =
    (case p of OffImmediate \<Rightarrow> 0x00 | MarginLow \<Rightarrow> 0x18 | MarginHigh \<Rightarrow> 0x28 | SoftOff \<Rightarrow> 0x40 | OpOn \<Rightarrow> 0x80
     | OnMarginLow \<Rightarrow> 0x98 | OnMarginHigh \<Rightarrow> 0xA8)"

datatype pmbus_error = InvalidDataFormat | ValueOutOfRange | CommandNotSupported | CommunicationError

definition operation_try_from :: "u8 \<Rightarrow> pmbus_error + pmbus_operation" where
  "operation_try_from v =
    (if v = 0x00 then Inr OffImmediate else if v = 0x18 then Inr MarginLow else if v = 0x28 then Inr MarginHigh
     else if v = 0x40 then Inr SoftOff else if v = 0x80 then Inr OpOn else if v = 0x98 then Inr OnMarginLow
     else if v = 0xA8 then Inr OnMarginHigh else Inl InvalidDataFormat)"

text \<open>\<open>DELAY | POLARITY | CP | CMD | PU\<close> are the bits of ON_OFF_CONFIG.\<close>

definition on_off_config_all :: u8 where
  "on_off_config_all = 0x01 OR 0x02 OR 0x04 OR 0x08 OR 0x10"

section \<open>Number formats\<close>

definition round_away :: "rat \<Rightarrow> int" where
  "round_away x = (if 0 \<le> x then \<lfloor>x + 1 / 2\<rfloor> else - \<lfloor>- x + 1 / 2\<rfloor>)"

definition as_i32 :: "int \<Rightarrow> int" where
  "as_i32 i = max (- (2 ^ 31)) (min (2 ^ 31 - 1) i)"

definition as_u32 :: "int \<Rightarrow> int" where
  "as_u32 i = max 0 (min (2 ^ 32 - 1) i)"

text \<open>Truncation towards zero, the first step of \<open>as\<close>.\<close>

definition trunc :: "rat \<Rightarrow> int" where
  "trunc x = (if 0 \<le> x then \<lfloor>x\<rfloor> else \<lceil>x\<rceil>)"

definition f32_max :: rat where
  "f32_max = (2 ^ 24 - 1) * 2 ^ 104"

definition extract_5bit_exponent :: "u8 \<Rightarrow> int" where
  "extract_5bit_exponent raw_exp = (if raw_exp AND 0x10 \<noteq> 0 then sint (raw_exp OR 0xE0) else sint raw_exp)"

definition linear11_exponent :: "u16 \<Rightarrow> int" where
  "linear11_exponent v = extract_5bit_exponent (ucast (drop_bit 11 v AND 0x1F))"

definition linear11_mantissa :: "u16 \<Rightarrow> int" where
  "linear11_mantissa v =
    (let mant_raw = v AND 0x07FF in if mant_raw AND 0x0400 \<noteq> 0 then sint (mant_raw OR 0xF800) else sint mant_raw)"

definition linear11_to_float :: "u16 \<Rightarrow> rat" where
  "linear11_to_float v = of_int (linear11_mantissa v) * 2 powi linear11_exponent v"

definition linear11_to_float_unsigned :: "u16 \<Rightarrow> rat" where
  "linear11_to_float_unsigned v = of_int (uint (v AND 0x07FF)) * 2 powi linear11_exponent v"

text \<open>
  One turn of the search for the exponent: the candidate with the smallest error among those
  whose mantissa lies in \<open>lo..hi\<close>, the first one of several.
\<close>

definition exponent_step :: "rat \<Rightarrow> rat \<Rightarrow> rat \<Rightarrow> int \<times> rat \<Rightarrow> int \<Rightarrow> int \<times> rat" where
  "exponent_step lo hi v best e =
    (let mantissa_f = v / 2 powi e
     in if lo \<le> mantissa_f \<and> mantissa_f < hi
        then let reconstructed = of_int (round_away mantissa_f) * 2 powi e;
                 err = \<bar>reconstructed - v\<bar>
             in if err < snd best then (e, err) else best
        else best)"

definition best_exponent :: "rat \<Rightarrow> rat \<Rightarrow> rat \<Rightarrow> int" where
  "best_exponent lo hi v = fst (foldl (exponent_step lo hi v) (0, f32_max) [-16..15])"

definition linear11_from_float :: "rat \<Rightarrow> u16" where
  "linear11_from_float v =
    (if v = 0 then 0
     else
       let best_exp = best_exponent (- 1024) 1024 v;
           mantissa = as_i32 (round_away (v / 2 powi best_exp));
           exp_bits = (word_of_int best_exp :: u16) AND 0x1F;
           mant_bits = (word_of_int mantissa :: u16) AND 0x07FF
       in push_bit 11 exp_bits OR mant_bits)"

text \<open>The typed value \<open>Linear11\<close>, whose mantissa is unsigned.\<close>

definition linear11_from_f32 :: "rat \<Rightarrow> pmbus_error + u16" where
  "linear11_from_f32 v =
    (if v = 0 then Inr 0
     else
       let best_exp = best_exponent 0 2048 v;
           mantissa = as_u32 (round_away (v / 2 powi best_exp))
       in if 0x07FF < mantissa then Inl ValueOutOfRange
          else
            let exp_bits = (word_of_int best_exp :: u16) AND 0x1F;
                mant_bits = (word_of_int mantissa :: u16) AND 0x07FF
            in Inr (push_bit 11 exp_bits OR mant_bits))"

datatype vout_mode_format = FormatLinear | FormatVid | FormatDirect | FormatIeee754Half | FormatReserved u8

definition vout_exponent :: "u8 \<Rightarrow> int" where
  "vout_exponent mode = extract_5bit_exponent (mode AND 0x1F)"

definition is_tps546_format :: "u8 \<Rightarrow> bool" where
  "is_tps546_format mode \<longleftrightarrow>
    drop_bit 5 mode AND 0x03 = 0 \<and> - 12 \<le> vout_exponent mode \<and> vout_exponent mode \<le> - 4"

definition vout_format :: "u8 \<Rightarrow> vout_mode_format" where
  "vout_format mode =
    (if is_tps546_format mode then FormatLinear
     else
       let m = drop_bit 5 mode AND 0x07
       in if m = 0 then FormatLinear else if m = 1 then FormatVid else if m = 2 then FormatDirect
          else if m = 3 then FormatIeee754Half else FormatReserved m)"

definition decode_linear16 :: "u8 \<Rightarrow> u16 \<Rightarrow> rat" where
  "decode_linear16 mode v = of_int (uint v) * 2 powi vout_exponent mode"

definition encode_linear16 :: "u8 \<Rightarrow> rat \<Rightarrow> pmbus_error + u16" where
  "encode_linear16 mode volts =
    (let mantissa = round_away (volts / 2 powi vout_exponent mode)
     in if mantissa < 0 \<or> 65535 < mantissa then Inl ValueOutOfRange else Inr (word_of_int mantissa))"

datatype pmbus_voltage = VoltageLinear11 u16 | VoltageLinear16 u16 u8 | VoltageDirect rat

definition voltage_value :: "pmbus_voltage \<Rightarrow> rat" where
  "voltage_value p =
    (case p of VoltageLinear11 raw \<Rightarrow> linear11_to_float_unsigned raw | VoltageLinear16 raw mode \<Rightarrow> decode_linear16 mode raw
     | VoltageDirect v \<Rightarrow> v)"

definition voltage_to_linear11 :: "pmbus_voltage \<Rightarrow> u16 option" where
  "voltage_to_linear11 p =
    (case p of VoltageLinear11 raw \<Rightarrow> Some raw
     | _ \<Rightarrow> (case linear11_from_f32 (voltage_value p) of Inr raw \<Rightarrow> Some raw | Inl _ \<Rightarrow> None))"

definition voltage_to_linear16 :: "u8 \<Rightarrow> pmbus_voltage \<Rightarrow> (u16 \<times> u8) option" where
  "voltage_to_linear16 mode p =
    (case (case p of VoltageLinear16 raw m \<Rightarrow> if m = mode then Some raw else None | _ \<Rightarrow> None) of
       Some raw \<Rightarrow> Some (raw, mode)
     | None \<Rightarrow> (case encode_linear16 mode (voltage_value p) of Inr raw \<Rightarrow> Some (raw, mode) | Inl _ \<Rightarrow> None))"

section \<open>Status registers\<close>

text \<open>A set of flags is its bits; \<open>describe\<close> lists the texts of those that are set, in their order.\<close>

definition contains :: "'a::len word \<Rightarrow> 'a word \<Rightarrow> bool" where
  "contains flags f \<longleftrightarrow> flags AND f = f"

definition intersects :: "'a::len word \<Rightarrow> 'a word \<Rightarrow> bool" where
  "intersects flags f \<longleftrightarrow> flags AND f \<noteq> 0"

definition describe :: "('a::len word \<times> string) list \<Rightarrow> 'a word \<Rightarrow> string list" where
  "describe table flags = map snd (filter (\<lambda>(f, _). contains flags f) table)"

definition decode_status_word :: "u16 \<Rightarrow> string list" where
  "decode_status_word status =
    (let desc = describe
       [(0x8000, ''VOUT fault/warning''), (0x4000, ''IOUT fault/warning''), (0x2000, ''INPUT fault/warning''),
        (0x1000, ''MFR specific''), (0x0800, ''PGOOD''), (0x0400, ''FAN fault/warning''),
        (0x0200, ''OTHER''), (0x0100, ''UNKNOWN''), (0x0080, ''BUSY''),
        (0x0040, ''OFF''), (0x0020, ''VOUT_OV fault''), (0x0010, ''IOUT_OC fault''),
        (0x0008, ''VIN_UV fault''), (0x0004, ''TEMP fault/warning''), (0x0002, ''CML fault'')] status
     in if contains status 0x0001 \<and> desc = [] then [''NONE_OF_THE_ABOVE''] else desc)"

definition decode_status_vout :: "u8 \<Rightarrow> string list" where
  "decode_status_vout status = describe
       [(0x80, ''OV fault''), (0x40, ''OV warning''), (0x20, ''UV warning''),
        (0x10, ''UV fault''), (0x08, ''at MAX''), (0x02, ''failed to start''),
        (0x01, ''at MIN'')] status"

definition decode_status_iout :: "u8 \<Rightarrow> string list" where
  "decode_status_iout status = describe
       [(0x80, ''OC fault''), (0x40, ''OC+LV fault''), (0x20, ''OC warning''),
        (0x10, ''UC fault''), (0x08, ''current share fault''), (0x04, ''power limiting''),
        (0x02, ''overpower fault''), (0x01, ''overpower warning'')] status"

definition decode_status_input :: "u8 \<Rightarrow> string list" where
  "decode_status_input status = describe
       [(0x80, ''VIN OV fault''), (0x40, ''VIN OV warning''), (0x20, ''VIN UV warning''),
        (0x10, ''VIN UV fault''), (0x08, ''off due to low VIN''), (0x04, ''IIN OC fault''),
        (0x02, ''IIN OC warning''), (0x01, ''input overpower warning'')] status"

definition decode_status_temp :: "u8 \<Rightarrow> string list" where
  "decode_status_temp status = describe
       [(0x80, ''overtemp fault''), (0x40, ''overtemp warning''), (0x20, ''undertemp warning''),
        (0x10, ''undertemp fault'')] status"

definition decode_status_cml :: "u8 \<Rightarrow> string list" where
  "decode_status_cml status = describe
       [(0x80, ''invalid command''), (0x40, ''invalid data''), (0x20, ''PEC error''),
        (0x10, ''memory fault''), (0x08, ''processor fault''), (0x02, ''other comm fault''),
        (0x01, ''other mem/logic fault'')] status"

definition decode_fault_response :: "u8 \<Rightarrow> string" where
  "decode_fault_response response =
    (let response_type = drop_bit 6 response AND 0x03;
         retry_count = drop_bit 3 response AND 0x07;
         delay_time = response AND 0x07;
         response_desc = (if response_type = 0 then ''ignore'' else if response_type = 1 then ''delayed shutdown''
           else if response_type = 2 then ''immediate shutdown'' else ''special shutdown'');
         retries_desc = (if retry_count = 0 then ''no retries (latch off)''
           else if retry_count \<le> 6 then show_nat (unat retry_count) @ '' retries'' else ''infinite retries'');
         delay_desc = (if delay_time \<le> 1 then ''TON_RISE delay''
           else show_nat (unat delay_time) @ '' x TON_RISE delay'')
     in if response_type = 0 then response_desc
        else response_desc @ '', '' @ retries_desc @ '', '' @ delay_desc)"

end
