(* ===== verification/Tps546.thy ===== *)
theory Tps546
  imports I2c_Bus Pmbus
begin

text \<open>
  The TPS546D24A voltage regulator (\<open>peripheral/tps546.rs\<close>) over any I2C bus. Its state is the bus,
  the configuration and the cached VOUT_MODE. Logged texts are left out; the texts of the critical
  faults, which the error joins by semicolons, are kept as a list. Configured integers are
  small enough for \<open>as f32\<close> to be exact.
\<close>

record tps546_config =
  cf_phase :: u8
  cf_frequency_switch_khz :: int
  cf_vin_on :: rat
  cf_vin_off :: rat
  cf_vin_uv_warn_limit :: rat
  cf_vin_ov_fault_limit :: rat
  cf_vin_ov_fault_response :: u8
  cf_vout_scale_loop :: rat
  cf_vout_min :: rat
  cf_vout_max :: rat
  cf_vout_command :: rat
  cf_vout_ov_fault_limit :: rat
  cf_vout_ov_warn_limit :: rat
  cf_vout_margin_high :: rat
  cf_vout_margin_low :: rat
  cf_vout_uv_warn_limit :: rat
  cf_vout_uv_fault_limit :: rat
  cf_iout_oc_warn_limit :: rat
  cf_iout_oc_fault_limit :: rat
  cf_iout_oc_fault_response :: u8
  cf_ot_warn_limit :: int
  cf_ot_fault_limit :: int
  cf_ot_fault_response :: u8
  cf_ton_delay :: int
  cf_ton_rise :: int
  cf_ton_max_fault_limit :: int
  cf_ton_max_fault_response :: u8
  cf_toff_delay :: int
  cf_toff_fall :: int
  cf_pin_detect_override :: u16

datatype tps546_error =
  TpsHw hw_error | DeviceIdMismatch | VoltageOutOfRange rat rat rat | VoltageEncoding pmbus_error
  | FaultDetected "string list"

record 's tps546 =
  tp_bus :: 's
  tp_config :: tps546_config
  tp_cached_vout_mode :: "u8 option"

type_synonym ('s, 'a) on_tps = "(tps546_error, 's tps546, 'a) hw"

definition tps546_new :: "'s \<Rightarrow> tps546_config \<Rightarrow> 's tps546" where
  "tps546_new b cfg = \<lparr>tp_bus = b, tp_config = cfg, tp_cached_vout_mode = None\<rparr>"

definition tps_address :: u8 where
  "tps_address = 0x24"

definition tps_device_ids :: "u8 list list" where
  "tps_device_ids =
    [[0x54, 0x49, 0x54, 0x6B, 0x24, 0x41], [0x54, 0x49, 0x54, 0x6D, 0x24, 0x41], [0x54, 0x49, 0x54, 0x6D, 0x24, 0x62]]"

section \<open>Register access\<close>

definition on_bus :: "(hw_error, 's, 'a) hw \<Rightarrow> ('s, 'a) on_tps" where
  "on_bus m = hzoom tp_bus (\<lambda>b t. t\<lparr>tp_bus := b\<rparr>) (hmaperr TpsHw m)"

definition read_bytes :: "'s i2c_ops \<Rightarrow> pmbus_command \<Rightarrow> nat \<Rightarrow> ('s, u8 list) on_tps" where
  "read_bytes B c n = on_bus (bus_write_read B tps_address [command_code c] n)"

definition read_byte :: "'s i2c_ops \<Rightarrow> pmbus_command \<Rightarrow> ('s, u8) on_tps" where
  "read_byte B c = hbind (read_bytes B c 1) (\<lambda>data. hret (data ! 0))"

definition write_byte :: "'s i2c_ops \<Rightarrow> pmbus_command \<Rightarrow> u8 \<Rightarrow> ('s, unit) on_tps" where
  "write_byte B c v = on_bus (bus_write B tps_address [command_code c, v])"

definition read_word :: "'s i2c_ops \<Rightarrow> pmbus_command \<Rightarrow> ('s, u16) on_tps" where
  "read_word B c = hbind (read_bytes B c 2) (\<lambda>data. hret (from_le data))"

definition write_word :: "'s i2c_ops \<Rightarrow> pmbus_command \<Rightarrow> u16 \<Rightarrow> ('s, unit) on_tps" where
  "write_word B c v = on_bus (bus_write B tps_address (command_code c # to_le 2 v))"

definition read_block :: "'s i2c_ops \<Rightarrow> pmbus_command \<Rightarrow> nat \<Rightarrow> ('s, u8 list) on_tps" where
  "read_block B c n = hbind (read_bytes B c (n + 1)) (\<lambda>buffer. hret (take n (drop 1 buffer)))"

definition get_vout_mode :: "'s i2c_ops \<Rightarrow> ('s, u8) on_tps" where
  "get_vout_mode B t =
    (case tp_cached_vout_mode t of
       Some cached \<Rightarrow> (Inr cached, t)
     | None \<Rightarrow> hbind (read_byte B PmVoutMode) (\<lambda>mode t. (Inr mode, t\<lparr>tp_cached_vout_mode := Some mode\<rparr>)) t)"

definition encode_voltage :: "'s i2c_ops \<Rightarrow> rat \<Rightarrow> ('s, u16) on_tps" where
  "encode_voltage B volts =
    hbind (get_vout_mode B) (\<lambda>mode.
      case encode_linear16 mode volts of Inl e \<Rightarrow> hthrow (VoltageEncoding e) | Inr w \<Rightarrow> hret w)"

definition decode_voltage :: "'s i2c_ops \<Rightarrow> u16 \<Rightarrow> ('s, rat) on_tps" where
  "decode_voltage B v = hbind (get_vout_mode B) (\<lambda>mode. hret (decode_linear16 mode v))"

definition int_to_slinear11 :: "int \<Rightarrow> u16" where
  "int_to_slinear11 i = linear11_from_float (of_int i)"

definition slinear11_to_int :: "u16 \<Rightarrow> int" where
  "slinear11_to_int v = as_i32 (trunc (linear11_to_float v))"

section \<open>Initialisation\<close>

definition verify_device_id :: "'s i2c_ops \<Rightarrow> ('s, unit) on_tps" where
  "verify_device_id B =
    hbind (read_bytes B PmIcDeviceId 7) (\<lambda>id_data.
      if take 6 (drop 1 id_data) \<notin> set tps_device_ids then hthrow DeviceIdMismatch else hret ())"

definition write_voltage :: "'s i2c_ops \<Rightarrow> pmbus_command \<Rightarrow> rat \<Rightarrow> ('s, unit) on_tps" where
  "write_voltage B c volts = hbind (encode_voltage B volts) (write_word B c)"

definition config_steps :: "'s i2c_ops \<Rightarrow> tps546_config \<Rightarrow> ('s, unit) on_tps list" where
  "config_steps B cfg =
    [write_byte B PmPhase (cf_phase cfg),
     write_word B PmFrequencySwitch (int_to_slinear11 (cf_frequency_switch_khz cfg)),
     hwhen (0 < cf_vin_uv_warn_limit cfg)
       (write_word B PmVinUvWarnLimit (linear11_from_float (cf_vin_uv_warn_limit cfg))),
     write_word B PmVinOn (linear11_from_float (cf_vin_on cfg)),
     write_word B PmVinOff (linear11_from_float (cf_vin_off cfg)),
     write_word B PmVinOvFaultLimit (linear11_from_float (cf_vin_ov_fault_limit cfg)),
     write_byte B PmVinOvFaultResponse (cf_vin_ov_fault_response cfg),
     write_word B PmVoutScaleLoop (linear11_from_float (cf_vout_scale_loop cfg)),
     write_voltage B PmVoutCommand (cf_vout_command cfg),
     write_voltage B PmVoutMax (cf_vout_max cfg),
     write_voltage B PmVoutMin (cf_vout_min cfg),
     write_voltage B PmVoutOvFaultLimit (cf_vout_ov_fault_limit cfg),
     write_voltage B PmVoutOvWarnLimit (cf_vout_ov_warn_limit cfg),
     write_voltage B PmVoutMarginHigh (cf_vout_margin_high cfg),
     write_voltage B PmVoutMarginLow (cf_vout_margin_low cfg),
     write_voltage B PmVoutUvWarnLimit (cf_vout_uv_warn_limit cfg),
     write_voltage B PmVoutUvFaultLimit (cf_vout_uv_fault_limit cfg),
     write_word B PmIoutOcWarnLimit (linear11_from_float (cf_iout_oc_warn_limit cfg)),
     write_word B PmIoutOcFaultLimit (linear11_from_float (cf_iout_oc_fault_limit cfg)),
     write_byte B PmIoutOcFaultResponse (cf_iout_oc_fault_response cfg),
     write_word B PmOtWarnLimit (int_to_slinear11 (cf_ot_warn_limit cfg)),
     write_word B PmOtFaultLimit (int_to_slinear11 (cf_ot_fault_limit cfg)),
     write_byte B PmOtFaultResponse (cf_ot_fault_response cfg),
     write_word B PmTonDelay (int_to_slinear11 (cf_ton_delay cfg)),
     write_word B PmTonRise (int_to_slinear11 (cf_ton_rise cfg)),
     write_word B PmTonMaxFaultLimit (int_to_slinear11 (cf_ton_max_fault_limit cfg)),
     write_byte B PmTonMaxFaultResponse (cf_ton_max_fault_response cfg),
     write_word B PmToffDelay (int_to_slinear11 (cf_toff_delay cfg)),
     write_word B PmToffFall (int_to_slinear11 (cf_toff_fall cfg)),
     write_word B PmPinDetectOverride (cf_pin_detect_override cfg)]"

definition write_config :: "'s i2c_ops \<Rightarrow> ('s, unit) on_tps" where
  "write_config B t = hseq (config_steps B (tp_config t)) t"

definition hdrop :: "('e, 's, 'a) hw \<Rightarrow> ('e, 's, unit) hw" where
  "hdrop m = hbind m (\<lambda>_. hret ())"

definition tps_init :: "'s i2c_ops \<Rightarrow> ('s, unit) on_tps" where
  "tps_init B = hseq
    [verify_device_id B,
     write_byte B PmOperation (operation_code OffImmediate),
     write_byte B PmOnOffConfig on_off_config_all,
     hdrop (read_byte B PmVoutMode),
     write_config B,
     hdrop (read_word B PmStatusWord)]"

section \<open>Output voltage\<close>

definition clear_faults :: "'s i2c_ops \<Rightarrow> ('s, unit) on_tps" where
  "clear_faults B = on_bus (bus_write B tps_address [command_code PmClearFaults])"

text \<open>What the regulator answers after it was turned on is logged and does not change the result.\<close>

definition after_turn_on :: "'s i2c_ops \<Rightarrow> ('s, unit) on_tps" where
  "after_turn_on B = hseq
    [hdrop (read_byte B PmOperation),
     hbind (read_word B PmStatusWord) (\<lambda>status.
       hwhen (contains status 0x0040)
         (hseq [hdrop (hattempt (read_byte B PmStatusVout)), hdrop (hattempt (read_byte B PmStatusIout))]))]"

definition set_vout :: "'s i2c_ops \<Rightarrow> rat \<Rightarrow> ('s, unit) on_tps" where
  "set_vout B volts t =
    (if volts = 0 then write_byte B PmOperation (operation_code OffImmediate) t
     else if volts < cf_vout_min (tp_config t) \<or> cf_vout_max (tp_config t) < volts
     then hthrow (VoltageOutOfRange volts (cf_vout_min (tp_config t)) (cf_vout_max (tp_config t))) t
     else hbind (encode_voltage B volts) (\<lambda>w. hseq
       [write_word B PmVoutCommand w, clear_faults B, write_byte B PmOperation (operation_code OpOn), after_turn_on B]) t)"

section \<open>Readings\<close>

definition get_vin :: "'s i2c_ops \<Rightarrow> ('s, int) on_tps" where
  "get_vin B = hbind (read_word B PmReadVin) (\<lambda>v. hret (as_u32 (trunc (linear11_to_float v * 1000))))"

definition get_vout :: "'s i2c_ops \<Rightarrow> ('s, int) on_tps" where
  "get_vout B =
    hbind (read_word B PmReadVout) (\<lambda>v. hbind (decode_voltage B v) (\<lambda>volts. hret (as_u32 (trunc (volts * 1000)))))"

definition get_iout :: "'s i2c_ops \<Rightarrow> ('s, int) on_tps" where
  "get_iout B =
    hbind (write_byte B PmPhase 0xFF) (\<lambda>_.
    hbind (read_word B PmReadIout) (\<lambda>v. hret (as_u32 (trunc (linear11_to_float v * 1000)))))"

definition get_temperature :: "'s i2c_ops \<Rightarrow> ('s, int) on_tps" where
  "get_temperature B = hbind (read_word B PmReadTemperature1) (\<lambda>v. hret (slinear11_to_int v))"

definition get_power :: "'s i2c_ops \<Rightarrow> ('s, int) on_tps" where
  "get_power B =
    hbind (get_vout B) (\<lambda>vout_mv. hbind (get_iout B) (\<lambda>iout_ma. hret (vout_mv * iout_ma div 1000 mod 2 ^ 32)))"

section \<open>Status\<close>

fun join_strings :: "string \<Rightarrow> string list \<Rightarrow> string" where
  "join_strings sep [] = []"
| "join_strings sep [x] = x"
| "join_strings sep (x # xs) = x @ sep @ join_strings sep xs"

text \<open>The critical fault a status register reports, when its flag is set in STATUS_WORD.\<close>

definition fault_in ::
  "'s i2c_ops \<Rightarrow> u16 \<Rightarrow> u16 \<Rightarrow> pmbus_command \<Rightarrow> (u8 \<Rightarrow> bool) \<Rightarrow> string \<Rightarrow> (u8 \<Rightarrow> string list) \<Rightarrow> ('s, string list) on_tps" where
  "fault_in B status flag c critical label decode =
    (if contains status flag
     then hbind (read_byte B c) (\<lambda>v. hret (if critical v then [label @ join_strings '', '' (decode v)] else []))
     else hret [])"

definition off_diagnostics :: "'s i2c_ops \<Rightarrow> ('s, unit) on_tps" where
  "off_diagnostics B = hseq
    [hdrop (hattempt (read_byte B PmStatusVout)), hdrop (hattempt (read_byte B PmStatusIout)),
     hdrop (hattempt (read_byte B PmStatusInput)), hdrop (hattempt (read_byte B PmStatusTemperature)),
     hdrop (hattempt (read_byte B PmStatusCml)), hdrop (hattempt (get_vout B)), hdrop (hattempt (get_iout B)),
     hdrop (hattempt (get_vin B)), hdrop (hattempt (get_temperature B))]"

definition off_fault :: "'s i2c_ops \<Rightarrow> u16 \<Rightarrow> ('s, string list) on_tps" where
  "off_fault B status =
    (if contains status 0x0040
     then hbind (off_diagnostics B) (\<lambda>_. hret [''Power controller is OFF'']) else hret [])"

fun collect :: "('e, 's, 'a list) hw list \<Rightarrow> ('e, 's, 'a list) hw" where
  "collect [] = hret []"
| "collect (m # ms) = hbind m (\<lambda>xs. hbind (collect ms) (\<lambda>ys. hret (xs @ ys)))"

definition critical_faults :: "'s i2c_ops \<Rightarrow> u16 \<Rightarrow> ('s, string list) on_tps" where
  "critical_faults B status = collect
    [fault_in B status 0x8000 PmStatusVout (\<lambda>v. intersects v (0x80 OR 0x10)) ''VOUT fault: '' decode_status_vout,
     fault_in B status 0x4000 PmStatusIout (\<lambda>v. contains v 0x80) ''IOUT overcurrent: '' decode_status_iout,
     fault_in B status 0x2000 PmStatusInput (\<lambda>v. intersects v (0x08 OR 0x10 OR 0x80)) ''INPUT fault: '' decode_status_input,
     fault_in B status 0x0004 PmStatusTemperature (\<lambda>v. contains v 0x80) ''Overtemperature: '' decode_status_temp,
     fault_in B status 0x0002 PmStatusCml (\<lambda>v. True) ''CML fault: '' decode_status_cml,
     off_fault B status]"

definition check_status :: "'s i2c_ops \<Rightarrow> ('s, unit) on_tps" where
  "check_status B =
    hbind (read_word B PmStatusWord) (\<lambda>status.
      if status = 0 then hret ()
      else hbind (critical_faults B status) (\<lambda>faults. if faults \<noteq> [] then hthrow (FaultDetected faults) else hret ()))"

section \<open>The configuration dump\<close>

definition dump_voltage :: "'s i2c_ops \<Rightarrow> pmbus_command \<Rightarrow> ('s, unit) on_tps" where
  "dump_voltage B c = hbind (read_word B c) (\<lambda>v. hdrop (decode_voltage B v))"

definition dump_status :: "'s i2c_ops \<Rightarrow> ('s, unit) on_tps" where
  "dump_status B =
    hbind (read_word B PmStatusWord) (\<lambda>status. hseq (map
      (\<lambda>(flag, c). hwhen (contains status flag) (hdrop (read_byte B c)))
      [(0x8000, PmStatusVout), (0x4000, PmStatusIout), (0x2000, PmStatusInput),
       (0x0004, PmStatusTemperature), (0x0002, PmStatusCml)]))"

definition dump_configuration :: "'s i2c_ops \<Rightarrow> ('s, unit) on_tps" where
  "dump_configuration B =
    (let word = (\<lambda>c. hdrop (read_word B c)); byte = (\<lambda>c. hdrop (read_byte B c))
     in hseq
       (map word [PmVinOn, PmVinOff, PmVinOvFaultLimit, PmVinUvWarnLimit] @
        [byte PmVinOvFaultResponse] @
        map (dump_voltage B)
          [PmVoutMax, PmVoutOvFaultLimit, PmVoutOvWarnLimit, PmVoutMarginHigh, PmVoutCommand, PmVoutMarginLow,
           PmVoutUvWarnLimit, PmVoutUvFaultLimit, PmVoutMin] @
        map word [PmIoutOcWarnLimit, PmIoutOcFaultLimit] @ [byte PmIoutOcFaultResponse] @
        map word [PmOtWarnLimit, PmOtFaultLimit] @ [byte PmOtFaultResponse] @
        [word PmReadVin, dump_voltage B PmReadVout, word PmReadIout, word PmReadTemperature1] @
        map word [PmTonDelay, PmTonRise, PmTonMaxFaultLimit] @ [byte PmTonMaxFaultResponse] @
        map word [PmToffDelay, PmToffFall] @
        [byte PmPhase, word PmStackConfig, byte PmSyncConfig, word PmInterleave, byte PmCapability, byte PmOperation,
         byte PmOnOffConfig, hdrop (hattempt (read_block B PmCompensationConfig 5)), dump_status B]))"

section \<open>The configuration of the Bitaxe board\<close>

text \<open>The fractions are the values of the single-precision literals of \<open>init_power_controller\<close>.\<close>

definition bitaxe_regulator_config :: tps546_config where
  "bitaxe_regulator_config =
    \<lparr>cf_phase = 0x00, cf_frequency_switch_khz = 650,
     cf_vin_on = 5033165 / 1048576, cf_vin_off = 9 / 2, cf_vin_uv_warn_limit = 0,
     cf_vin_ov_fault_limit = 13 / 2, cf_vin_ov_fault_response = 0xB7,
     cf_vout_scale_loop = 1 / 4, cf_vout_min = 1, cf_vout_max = 2, cf_vout_command = 9646899 / 8388608,
     cf_vout_ov_fault_limit = 5 / 4, cf_vout_ov_warn_limit = 9730785 / 8388608,
     cf_vout_margin_high = 9227469 / 8388608, cf_vout_margin_low = 15099494 / 16777216,
     cf_vout_uv_warn_limit = 15099494 / 16777216, cf_vout_uv_fault_limit = 3 / 4,
     cf_iout_oc_warn_limit = 25, cf_iout_oc_fault_limit = 30, cf_iout_oc_fault_response = 0xC0,
     cf_ot_warn_limit = 105, cf_ot_fault_limit = 145, cf_ot_fault_response = 0xFF,
     cf_ton_delay = 0, cf_ton_rise = 3, cf_ton_max_fault_limit = 0, cf_ton_max_fault_response = 0x3B,
     cf_toff_delay = 0, cf_toff_fall = 0, cf_pin_detect_override = 0xFFFF\<rparr>"

end
