(* ===== verification/Sensors.thy ===== *)
theory Sensors
  imports I2c_Bus
begin

text \<open>
  The fan controller EMC2101 and the temperature sensors TMP1075 and TMP451 over any I2C bus
  (\<open>peripheral/emc2101.rs\<close>, \<open>tmp1075.rs\<close>, \<open>tmp451.rs\<close>). A temperature is the rational its
  single-precision value denotes: a small integer times a power of two, which is exact.
\<close>

section \<open>EMC2101\<close>

type_synonym percent = u8

definition percent_new_clamped :: "u8 \<Rightarrow> percent" where
  "percent_new_clamped v = (if 100 < v then 100 else v)"

definition percent_new :: "u8 \<Rightarrow> percent option" where
  "percent_new v = (if v \<le> 100 then Some v else None)"

definition percent_of :: "percent \<Rightarrow> u8 \<Rightarrow> u8" where
  "percent_of p v = ucast ((ucast p * ucast v :: u16) div 100)"

definition emc_address :: u8 where
  "emc_address = 0x4C"

definition pwm_max :: u8 where
  "pwm_max = 63"

definition emc_read_register :: "'s i2c_ops \<Rightarrow> u8 \<Rightarrow> u8 \<Rightarrow> (hw_error, 's, u8) hw" where
  "emc_read_register B addr reg = hbind (bus_write_read B addr [reg] 1) (\<lambda>buf. hret (buf ! 0))"

definition emc_write_register :: "'s i2c_ops \<Rightarrow> u8 \<Rightarrow> u8 \<Rightarrow> u8 \<Rightarrow> (hw_error, 's, unit) hw" where
  "emc_write_register B addr reg v = bus_write B addr [reg, v]"

text \<open>Manufacturer, product and revision are read before anything is checked.\<close>

definition emc_init :: "'s i2c_ops \<Rightarrow> u8 \<Rightarrow> (hw_error, 's, unit) hw" where
  "emc_init B addr =
    hbind (emc_read_register B addr 0xFE) (\<lambda>mfg_id.
    hbind (emc_read_register B addr 0xFD) (\<lambda>product_id.
    hbind (emc_read_register B addr 0xFF) (\<lambda>revision.
      if mfg_id \<noteq> 0x5D then hthrow (HwInvalidParameter ''Wrong manufacturer ID'')
      else if product_id \<noteq> 0x16 \<and> product_id \<noteq> 0x28 then hthrow (HwInvalidParameter ''Wrong product ID'')
      else
        hbind (emc_read_register B addr 0x03) (\<lambda>config.
        hthen (emc_write_register B addr 0x03 (config OR 0x04)) (emc_write_register B addr 0x4A 0x23)))))"

definition set_fan_speed :: "'s i2c_ops \<Rightarrow> u8 \<Rightarrow> percent \<Rightarrow> (hw_error, 's, unit) hw" where
  "set_fan_speed B addr p = emc_write_register B addr 0x4C (percent_of p pwm_max)"

definition duty_percent :: "u8 \<Rightarrow> percent" where
  "duty_percent duty = percent_new_clamped (ucast ((ucast duty * 100 :: u16) div ucast pwm_max))"

definition get_fan_speed :: "'s i2c_ops \<Rightarrow> u8 \<Rightarrow> (hw_error, 's, percent) hw" where
  "get_fan_speed B addr = hbind (emc_read_register B addr 0x4C) (\<lambda>duty. hret (duty_percent duty))"

text \<open>The two bytes of the external temperature: a diode fault or a value in eighths of a degree.\<close>

definition external_temperature :: "u8 \<Rightarrow> u8 \<Rightarrow> hw_error + rat" where
  "external_temperature high low =
    (let raw = push_bit 3 (ucast high :: u16) OR drop_bit 5 (ucast low)
     in if raw = 0x3F8 then Inl (HwOther ''external diode open circuit'')
        else if raw = 0x3FF then Inl (HwOther ''external diode short'')
        else if raw AND 0x400 \<noteq> 0 then Inr (- of_int (uint ((NOT raw AND 0x7FF) + 1)) / 8)
        else Inr (of_int (uint raw) / 8))"

definition get_external_temperature :: "'s i2c_ops \<Rightarrow> u8 \<Rightarrow> (hw_error, 's, rat) hw" where
  "get_external_temperature B addr =
    hbind (emc_read_register B addr 0x01) (\<lambda>high.
    hbind (emc_read_register B addr 0x10) (\<lambda>low.
      case external_temperature high low of Inl e \<Rightarrow> hthrow e | Inr t \<Rightarrow> hret t))"

definition get_internal_temperature :: "'s i2c_ops \<Rightarrow> u8 \<Rightarrow> (hw_error, 's, rat) hw" where
  "get_internal_temperature B addr = hbind (emc_read_register B addr 0x00) (\<lambda>raw. hret (of_int (sint raw)))"

text \<open>The low byte is read first, which latches the high one.\<close>

definition get_tach_count :: "'s i2c_ops \<Rightarrow> u8 \<Rightarrow> (hw_error, 's, u16) hw" where
  "get_tach_count B addr =
    hbind (emc_read_register B addr 0x46) (\<lambda>low.
    hbind (emc_read_register B addr 0x47) (\<lambda>high. hret (push_bit 8 (ucast high) OR ucast low)))"

definition tach_rpm :: "u16 \<Rightarrow> u32" where
  "tach_rpm tach =
    (if tach = 0 \<or> tach = 0xFFFF then 0
     else let rpm = 5400000 div ucast tach in if rpm = 82 then 0 else rpm)"

definition get_rpm :: "'s i2c_ops \<Rightarrow> u8 \<Rightarrow> (hw_error, 's, u32) hw" where
  "get_rpm B addr = hbind (get_tach_count B addr) (\<lambda>tach. hret (tach_rpm tach))"

section \<open>TMP1075\<close>

datatype 'i sensor_error = SensorI2c hw_error | UnexpectedId 'i | RemoteDiodeOpen

definition tmp1075_read_register :: "'s i2c_ops \<Rightarrow> u8 \<Rightarrow> u8 \<Rightarrow> (u16 sensor_error, 's, u16) hw" where
  "tmp1075_read_register B addr reg =
    hbind (hmaperr SensorI2c (bus_write_read B addr [reg] 2)) (\<lambda>buf. hret (from_be buf))"

definition tmp1075_init :: "'s i2c_ops \<Rightarrow> u8 \<Rightarrow> (u16 sensor_error, 's, unit) hw" where
  "tmp1075_init B addr =
    hbind (tmp1075_read_register B addr 0x0F) (\<lambda>i. if i \<noteq> 0x7500 then hthrow (UnexpectedId i) else hret ())"

text \<open>A reading is a 12-bit number of sixteenths of a degree, sign extended.\<close>

definition tmp1075_from_raw :: "u16 \<Rightarrow> int" where
  "tmp1075_from_raw raw = drop_bit 4 (sint raw)"

definition as_degrees_c :: "int \<Rightarrow> rat" where
  "as_degrees_c r = of_int r / 16"

definition tmp1075_read :: "'s i2c_ops \<Rightarrow> u8 \<Rightarrow> (u16 sensor_error, 's, int) hw" where
  "tmp1075_read B addr = hbind (tmp1075_read_register B addr 0x00) (\<lambda>raw. hret (tmp1075_from_raw raw))"

section \<open>TMP451\<close>

definition tmp451_read_byte :: "'s i2c_ops \<Rightarrow> u8 \<Rightarrow> u8 \<Rightarrow> (u8 sensor_error, 's, u8) hw" where
  "tmp451_read_byte B addr reg = hbind (hmaperr SensorI2c (bus_write_read B addr [reg] 1)) (\<lambda>buf. hret (buf ! 0))"

definition tmp451_init :: "'s i2c_ops \<Rightarrow> u8 \<Rightarrow> (u8 sensor_error, 's, unit) hw" where
  "tmp451_init B addr =
    hbind (tmp451_read_byte B addr 0xFE) (\<lambda>i. if i \<noteq> 0x55 then hthrow (UnexpectedId i) else hret ())"

definition tmp451_from_high_low :: "u8 \<Rightarrow> u8 \<Rightarrow> int" where
  "tmp451_from_high_low high low = sint (push_bit 4 (ucast high :: u16) OR ucast (drop_bit 4 low))"

definition tmp451_read_local :: "'s i2c_ops \<Rightarrow> u8 \<Rightarrow> (u8 sensor_error, 's, int) hw" where
  "tmp451_read_local B addr =
    hbind (tmp451_read_byte B addr 0x00) (\<lambda>high.
    hbind (tmp451_read_byte B addr 0x15) (\<lambda>low. hret (tmp451_from_high_low high low)))"

definition tmp451_read_remote :: "'s i2c_ops \<Rightarrow> u8 \<Rightarrow> (u8 sensor_error, 's, int) hw" where
  "tmp451_read_remote B addr =
    hbind (tmp451_read_byte B addr 0x02) (\<lambda>st.
      if st AND 0x04 \<noteq> 0 then hthrow RemoteDiodeOpen
      else
        hbind (tmp451_read_byte B addr 0x01) (\<lambda>high.
        hbind (tmp451_read_byte B addr 0x10) (\<lambda>low. hret (tmp451_from_high_low high low))))"

definition tmp451_set_remote_offset :: "'s i2c_ops \<Rightarrow> u8 \<Rightarrow> int \<Rightarrow> (u8 sensor_error, 's, unit) hw" where
  "tmp451_set_remote_offset B addr degrees = hmaperr SensorI2c (bus_write B addr [0x11, word_of_int degrees])"

section \<open>Readings\<close>

text \<open>A fan speed read back is at most the one set, and at most two percent below it.\<close>

lemma unat_percent_of: "unat (percent_of p v) = unat p * unat v div 100" if "p \<le> 100"
proof -
  have "unat p \<le> 100" "unat v < 256" using that unsigned_less [of v] by (simp_all add: word_le_nat_alt)
  then have "unat p * unat v \<le> 100 * 255" by (intro mult_le_mono) simp_all
  moreover have "unat p < 65536" "unat v < 65536" by (rule order_less_le_trans [OF unsigned_less], simp)+
  ultimately have "unat (ucast p * ucast v :: u16) = unat p * unat v"
    by (simp add: unat_word_ariths(2) unsigned_ucast_eq take_bit_nat_eq_self)
  moreover from \<open>unat p * unat v \<le> 100 * 255\<close> have "unat p * unat v div 100 < 256" by simp
  ultimately show ?thesis by (simp add: percent_of_def unsigned_ucast_eq unat_div take_bit_nat_eq_self)
qed

lemma fan_speed_readback:
  assumes "p \<le> 100"
  shows "unat (duty_percent (percent_of p pwm_max)) \<le> unat p \<and> unat p \<le> unat (duty_percent (percent_of p pwm_max)) + 2"
proof -
  define d where "d = percent_of p pwm_max"
  have k: "unat p \<le> 100" using assms by (simp add: word_le_nat_alt)
  have d: "unat d = unat p * 63 div 100" using unat_percent_of [OF assms, of pwm_max] by (simp add: d_def pwm_max_def)
  then have "unat d \<le> 63" using k by simp
  then have "unat (ucast d * 100 :: u16) = unat d * 100"
    by (simp add: unat_word_ariths(2) unsigned_ucast_eq take_bit_nat_eq_self)
  then have "unat ((ucast d * 100 :: u16) div ucast pwm_max) = unat d * 100 div 63"
    by (simp add: unat_div pwm_max_def)
  moreover have q: "unat d * 100 div 63 \<le> unat p" "unat p \<le> unat d * 100 div 63 + 2" using d by auto
  ultimately have "unat (ucast ((ucast d * 100 :: u16) div ucast pwm_max) :: u8) = unat d * 100 div 63"
    using k by (simp add: unsigned_ucast_eq take_bit_nat_eq_self)
  then show ?thesis using q k unfolding d_def [symmetric]
    by (simp add: duty_percent_def percent_new_clamped_def word_less_nat_alt)
qed

text \<open>The temperature is the two's complement number of the eleven bits.\<close>

lemma external_temperature_value:
  assumes "external_temperature high low = Inr t"
  shows "t = of_int (signed_take_bit 10 (uint (push_bit 3 (ucast high :: u16) OR drop_bit 5 (ucast low)))) / 8"
proof -
  define raw where "raw = push_bit 3 (ucast high :: u16) OR drop_bit 5 (ucast low)"
  have m: "(0x7FF :: u16) = mask 11" by (simp add: mask_eq_exp_minus_1)
  have sub: "raw AND mask 11 = raw"
    unfolding raw_def by (rule bit_word_eqI) (auto simp: bit_simps dest: bit_imp_le_length)
  then have "take_bit 11 (uint raw) = uint raw"
    using unsigned_take_bit_eq [of 11 raw, where 'a = int] by (simp add: take_bit_eq_mask)
  then have less: "uint raw < 2048" using take_bit_int_less_exp [of 11 "uint raw"] by simp
  have "NOT raw AND mask 11 = mask 11 - raw"
  proof -
    have "NOT (mask 11) AND (raw AND mask 11) = 0" by (rule bit_word_eqI) (auto simp: bit_simps)
    then have "mask 11 - raw = mask 11 AND NOT raw" unfolding sub by (rule disjunctive_diff_eq_and_not)
    then show ?thesis by (simp add: and.commute)
  qed
  moreover have "2047 - raw + 1 = 2048 - raw" using add_diff_eq [of 1 2047 raw] by (simp add: add.commute)
  ultimately have "(NOT raw AND 0x7FF) + 1 = 2048 - raw" using m by metis
  moreover have "uint (2048 - raw) = 2048 - uint raw"
    using uint_sub_lem [of raw 2048] less by simp
  ultimately have neg: "uint ((NOT raw AND 0x7FF) + 1) = 2048 - uint raw" by simp
  have "raw AND 0x400 \<noteq> 0 \<longleftrightarrow> bit raw 10"
    using bit_iff_and_push_bit_not_eq_0 [of raw 10] by simp
  then have t: "t = (if bit raw 10 then of_int (uint raw - 2048) else of_int (uint raw)) / 8"
    using assms neg by (auto simp: external_temperature_def Let_def simp flip: raw_def split: if_splits)
  have "signed_take_bit 10 (uint raw) = uint raw - (if bit raw 10 then 2048 else 0)"
    using \<open>take_bit 11 (uint raw) = uint raw\<close>
    by (simp add: signed_take_bit_eq_take_bit_minus bit_uint_iff)
  then show ?thesis unfolding t raw_def [symmetric] by simp
qed

end
