(* ===== verification/Bitaxe_Board.thy ===== *)
theory Bitaxe_Board
  imports Tps546 Sensors Frames
begin

text \<open>
  The Bitaxe board (\<open>board/bitaxe.rs\<close>): bring-up of the peripherals and the discovery of the chips,
  the reset line the hash thread drives, and the monitor that watches the temperature, publishes
  telemetry and powers the board down. All of them share one control channel, which is the bus of
  the regulator. Times are milliseconds; waits are left out, as are the lock of the
  enable time, which no holder can poison, and the constant texts of the telemetry.
\<close>

section \<open>State\<close>

text \<open>One message of telemetry, in the units the readings have before they are scaled.\<close>

record bitaxe_telemetry =
  bt_fan_rpm :: "u32 option"
  bt_fan_percent :: "percent option"
  bt_asic_temp :: "rat option"
  bt_vr_temp :: "int option"
  bt_vin_mv :: "int option"
  bt_vout_mv :: "int option"
  bt_iout_ma :: "int option"
  bt_power_mw :: "int option"

record 'd bitaxe_state =
  bx_regulator :: "'d channel tps546"
  bx_bad_thermal_count :: u32
  bx_enabled_since :: "nat option"
  bx_shutdown_sent :: bool
  bx_published :: "bitaxe_telemetry list"

datatype board_error =
  BoardHw hw_error | BoardRegulator tps546_error | CommandNotSent string | NoChips
  | WrongChip "u8 list" | ThermalEmergency u32

type_synonym ('d, 'a) on_board = "(board_error, 'd bitaxe_state, 'a) hw"

definition bitaxe_new :: "'d channel \<Rightarrow> 'd bitaxe_state" where
  "bitaxe_new ch =
    \<lparr>bx_regulator = tps546_new ch bitaxe_regulator_config, bx_bad_thermal_count = 0, bx_enabled_since = None,
     bx_shutdown_sent = False, bx_published = []\<rparr>"

definition on_regulator :: "(tps546_error, 'd channel tps546, 'a) hw \<Rightarrow> ('d, 'a) on_board" where
  "on_regulator m = hzoom bx_regulator (\<lambda>r s. s\<lparr>bx_regulator := r\<rparr>) (hmaperr BoardRegulator m)"

definition set_board_channel :: "'d channel \<Rightarrow> 'd bitaxe_state \<Rightarrow> 'd bitaxe_state" where
  "set_board_channel ch s = s\<lparr>bx_regulator := (bx_regulator s)\<lparr>tp_bus := ch\<rparr>\<rparr>"

definition on_board_channel :: "(hw_error, 'd channel, 'a) hw \<Rightarrow> ('d, 'a) on_board" where
  "on_board_channel m = hzoom (\<lambda>s. tp_bus (bx_regulator s)) set_board_channel (hmaperr BoardHw m)"

text \<open>\<open>.ok()\<close> of a result.\<close>

definition hok :: "('e, 's, 'a) hw \<Rightarrow> ('f, 's, 'a option) hw" where
  "hok m = hbind (hattempt m) (\<lambda>r. hret (case r of Inr a \<Rightarrow> Some a | Inl _ \<Rightarrow> None))"

definition htry :: "('e, 's, 'a) hw \<Rightarrow> ('f, 's, unit) hw" where
  "htry m = hbind (hattempt m) (\<lambda>_. hret ())"

section \<open>The reset line\<close>

definition asic_reset_pin :: u8 where
  "asic_reset_pin = 0"

definition write_nrst :: "'d line \<Rightarrow> pin_value \<Rightarrow> ('d, unit) on_board" where
  "write_nrst L v = on_board_channel (gpio_write L asic_reset_pin v)"

definition asic_enable :: "'d line \<Rightarrow> nat \<Rightarrow> ('d, unit) on_board" where
  "asic_enable L now =
    hbind (write_nrst L High) (\<lambda>_ s. (Inr (), s\<lparr>bx_enabled_since := Some now\<rparr>))"

definition asic_disable :: "'d line \<Rightarrow> ('d, unit) on_board" where
  "asic_disable L = hbind (write_nrst L Low) (\<lambda>_ s. (Inr (), s\<lparr>bx_enabled_since := None\<rparr>))"

section \<open>The monitor\<close>

definition diode_ready :: "nat \<Rightarrow> nat option \<Rightarrow> bool" where
  "diode_ready now since = (case since of Some t \<Rightarrow> 500 \<le> now - t | None \<Rightarrow> False)"

text \<open>The temperature to show and the new count of consecutive bad readings.\<close>

definition classify_temperature :: "bool \<Rightarrow> 'e + rat \<Rightarrow> u32 \<Rightarrow> rat option \<times> u32" where
  "classify_temperature ready raw_temp bad =
    (if ready
     then case raw_temp of
       Inr t \<Rightarrow>
         if \<not> (0 \<le> t \<and> t \<le> 120) then (None, bad + 1)
         else if 80 \<le> t then (Some t, bad + 1)
         else (Some t, 0)
     | Inl _ \<Rightarrow> (None, bad + 1)
     else (None, 0))"

definition bad_reading_limit :: u32 where
  "bad_reading_limit = 3"

definition fan_to :: "'d line \<Rightarrow> percent \<Rightarrow> ('d, unit) on_board" where
  "fan_to L p = on_board_channel (set_fan_speed (bitaxe_i2c L) emc_address p)"

text \<open>The readings of one cycle; an error of any but the temperature is dropped.\<close>

definition check_regulator :: "'d line \<Rightarrow> ('d, unit) on_board" where
  "check_regulator L =
    hbind (hattempt (on_regulator (check_status (bitaxe_i2c L)))) (\<lambda>r.
      hwhen (isl r) (htry (on_regulator (clear_faults (bitaxe_i2c L)))))"

definition read_sensors :: "'d line \<Rightarrow> ('d, (board_error + rat) \<times> bitaxe_telemetry) on_board" where
  "read_sensors L =
    (let B = bitaxe_i2c L
     in hbind (hattempt (on_board_channel (get_external_temperature B emc_address))) (\<lambda>raw_temp.
        hbind (hok (on_board_channel (get_fan_speed B emc_address))) (\<lambda>fan_percent.
        hbind (hok (on_board_channel (get_rpm B emc_address))) (\<lambda>fan_rpm.
        hbind (check_regulator L) (\<lambda>_.
        hbind (hok (on_regulator (get_vin B))) (\<lambda>vin_mv.
        hbind (hok (on_regulator (get_vout B))) (\<lambda>vout_mv.
        hbind (hok (on_regulator (get_iout B))) (\<lambda>iout_ma.
        hbind (hok (on_regulator (get_power B))) (\<lambda>power_mw.
        hbind (hok (on_regulator (get_temperature B))) (\<lambda>vr_temp.
          hret (raw_temp,
            \<lparr>bt_fan_rpm = fan_rpm, bt_fan_percent = fan_percent, bt_asic_temp = None, bt_vr_temp = vr_temp,
             bt_vin_mv = vin_mv, bt_vout_mv = vout_mv, bt_iout_ma = iout_ma, bt_power_mw = power_mw\<rparr>)))))))))))"

definition monitor_tick :: "'d line \<Rightarrow> nat \<Rightarrow> ('d, unit) on_board" where
  "monitor_tick L now =
    hbind (read_sensors L) (\<lambda>(raw_temp, readings) s.
      case classify_temperature (diode_ready now (bx_enabled_since s)) raw_temp (bx_bad_thermal_count s) of
        (asic_temp, bad) \<Rightarrow>
          let s = s\<lparr>bx_bad_thermal_count := bad\<rparr>
          in if bad_reading_limit \<le> bad
             then hthen (htry (fan_to L 100)) (hthrow (ThermalEmergency bad)) s
             else (Inr (), s\<lparr>bx_published := bx_published s @ [readings\<lparr>bt_asic_temp := asic_temp\<rparr>]\<rparr>))"

definition board_shutdown :: "'d line \<Rightarrow> ('d, unit) on_board" where
  "board_shutdown L =
    hseq [\<lambda>s. (Inr (), s\<lparr>bx_shutdown_sent := True\<rparr>),
          htry (asic_disable L),
          htry (on_regulator (set_vout (bitaxe_i2c L) 0))]"

text \<open>
  What the monitor's loop selects, and the calls of the hash thread that come between; the
  enabling and disabling of the chips by the thread returns its result to the thread.
\<close>

datatype monitor_event = MonitorTick nat | MonitorCancelled | ThreadEnables nat | ThreadDisables

datatype monitor_end = StillRunning | MonitorFailed board_error | MonitorCancelledEnd

fun run_monitor :: "'d line \<Rightarrow> monitor_event list \<Rightarrow> 'd bitaxe_state \<Rightarrow> monitor_end \<times> 'd bitaxe_state" where
  "run_monitor L [] s = (StillRunning, s)"
| "run_monitor L (MonitorTick now # es) s =
    (case monitor_tick L now s of
       (Inl e, t) \<Rightarrow> (MonitorFailed e, snd (board_shutdown L t))
     | (Inr _, t) \<Rightarrow> run_monitor L es t)"
| "run_monitor L (MonitorCancelled # es) s =
    (MonitorCancelledEnd, snd (hthen (board_shutdown L) (htry (fan_to L (percent_new_clamped 25))) s))"
| "run_monitor L (ThreadEnables now # es) s = run_monitor L es (snd (asic_enable L now s))"
| "run_monitor L (ThreadDisables # es) s = run_monitor L es (snd (asic_disable L s))"

section \<open>Bring-up\<close>

definition init_fan_controller :: "'d line \<Rightarrow> ('d, unit) on_board" where
  "init_fan_controller L =
    hthen (on_board_channel (emc_init (bitaxe_i2c L) emc_address)) (fan_to L 100)"

definition default_vout :: rat where
  "default_vout = 9646899 / 8388608"

definition init_power_controller :: "'d line \<Rightarrow> ('d, unit) on_board" where
  "init_power_controller L =
    hseq [on_regulator (tps_init (bitaxe_i2c L)),
          on_regulator (set_vout (bitaxe_i2c L) default_vout),
          htry (on_regulator (get_vout (bitaxe_i2c L))),
          htry (on_regulator (dump_configuration (bitaxe_i2c L)))]"

text \<open>
  The data port: \<open>dp_send\<close> gives the error of sending a command after those already sent,
  \<open>dp_received\<close> is what the reader yields before the deadline of half a second, in order; a
  \<open>None\<close> inside an entry is an error of the stream, and its end is the end of the list or the deadline.
\<close>

record data_port =
  dp_send :: "command list \<Rightarrow> command \<Rightarrow> string option"
  dp_received :: "response option list"

record chip_info =
  ci_chip_id :: "u8 list"
  ci_core_count :: u32
  ci_address :: u8
  ci_version_rolling :: bool

definition chip_info_of :: "response option \<Rightarrow> chip_info option" where
  "chip_info_of r =
    (case r of
       Some (RegisterResponse _ (ChipId t cores a)) \<Rightarrow>
         Some \<lparr>ci_chip_id = id_bytes t, ci_core_count = ucast cores, ci_address = a, ci_version_rolling = True\<rparr>
     | _ \<Rightarrow> None)"

fun board_send_commands :: "data_port \<Rightarrow> command list \<Rightarrow> command list \<Rightarrow> ('d, unit) on_board" where
  "board_send_commands D sent [] = hret ()"
| "board_send_commands D sent (c # cs) =
    (case dp_send D sent c of Some e \<Rightarrow> hthrow (CommandNotSent e) | None \<Rightarrow> board_send_commands D (sent @ [c]) cs)"

definition version_mask_command :: command where
  "version_mask_command = WriteRegister True 0x00 (VersionMask version_mask_full_rolling)"

definition board_discover_chips :: "data_port \<Rightarrow> ('d, chip_info list) on_board" where
  "board_discover_chips D =
    (case dp_send D (replicate 3 version_mask_command) discover_chips of
       Some e \<Rightarrow> hthrow (CommandNotSent e)
     | None \<Rightarrow>
         let chip_infos = List.map_filter chip_info_of (dp_received D)
         in if chip_infos = [] then hthrow NoChips else hret chip_infos)"

definition check_chip_id :: "chip_info list \<Rightarrow> ('d, unit) on_board" where
  "check_chip_id chip_infos =
    (case chip_infos of
       first_chip # _ \<Rightarrow>
         if ci_chip_id first_chip \<noteq> [0x13, 0x70] then hthrow (WrongChip (ci_chip_id first_chip)) else hret ()
     | [] \<Rightarrow> hret ())"

text \<open>From the opened ports to the hand-over to the hash thread.\<close>

definition create_from_usb :: "'d line \<Rightarrow> data_port \<Rightarrow> ('d, chip_info list) on_board" where
  "create_from_usb L D =
    hbind (hseq
      [write_nrst L Low,
       on_board_channel (i2c_set_frequency L 100000),
       init_fan_controller L,
       init_power_controller L,
       write_nrst L High,
       board_send_commands D [] (replicate 3 version_mask_command)]) (\<lambda>_.
    hbind (board_discover_chips D) (\<lambda>chip_infos.
    hbind (check_chip_id chip_infos) (\<lambda>_.
    hbind (write_nrst L Low) (\<lambda>_. hret chip_infos))))"

end
