(* ===== verification/Pmbus_Properties.thy ===== *)
theory Pmbus_Properties
  imports Pmbus
begin

text \<open>
  The number formats: rounding, the search for the exponent, how far an encoded value is from the
  number it stands for, and where the encoding is wrong.
\<close>

section \<open>Rounding\<close>

lemma round_away_near: "\<bar>of_int (round_away x) - x\<bar> \<le> 1 / 2"
proof (cases "0 \<le> x")
  case True
  then show ?thesis unfolding round_away_def using floor_correct [of "x + 1 / 2"] by (simp only: if_True) linarith
next
  case False
  then show ?thesis unfolding round_away_def using floor_correct [of "- x + 1 / 2"]
    by (simp only: if_False of_int_minus) linarith
qed

lemma sint_word_of_int:
  "- (2 ^ (LENGTH('a) - 1)) \<le> i \<Longrightarrow> i < 2 ^ (LENGTH('a) - 1) \<Longrightarrow> sint (word_of_int i :: 'a::len word) = i"
  by (simp add: sint_sbintrunc' signed_take_bit_int_eq_self)

lemma bit_single: "bit (1024 :: int) n \<longleftrightarrow> n = 10" "bit (16 :: int) n \<longleftrightarrow> n = 4"
  using bit_exp_iff [of 10 n, where 'a = int] bit_exp_iff [of 4 n, where 'a = int] by simp_all

lemma round_away_nearest: "\<bar>of_int (round_away x) - x\<bar> \<le> \<bar>of_int j - x\<bar>"
proof (cases "j = round_away x")
  case False
  then have "1 \<le> \<bar>j - round_away x\<bar>" by simp
  then have "1 \<le> \<bar>of_int j - of_int (round_away x) :: rat\<bar>" by (simp flip: of_int_diff of_int_abs add: of_int_1_le_iff)
  then show ?thesis using round_away_near [of x] by linarith
qed simp

lemma round_away_int [simp]: "round_away (of_int i) = i"
  using round_away_nearest [of "of_int i" i] by simp

lemma powi_pos [simp]: "0 < (2 :: rat) powi e"
  by (simp add: zero_less_power_int)

lemma scale_mono: "(a :: rat) \<le> b \<Longrightarrow> a * 2 powi e \<le> b * 2 powi e"
  by (rule mult_right_mono) (simp_all add: less_imp_le)

lemma powi_split: "e \<le> e' \<Longrightarrow> (2 :: rat) powi e' = of_int (2 ^ nat (e' - e)) * 2 powi e"
  using power_int_add [of "2 :: rat" "e' - e" e] by (simp add: power_int_def)

text \<open>The distance of a value to the nearest multiple of a power of two.\<close>

definition grid_error :: "rat \<Rightarrow> int \<Rightarrow> rat" where
  "grid_error v e = \<bar>of_int (round_away (v / 2 powi e)) * 2 powi e - v\<bar>"

lemma scale_distance: "\<bar>of_int j * 2 powi e - v\<bar> = \<bar>of_int j - v / 2 powi e\<bar> * (2 :: rat) powi e"
proof -
  have "of_int j * 2 powi e - v = (of_int j - v / 2 powi e) * (2 :: rat) powi e"
    using powi_pos [of e] by (simp add: left_diff_distrib)
  then show ?thesis using powi_pos [of e] by (simp add: abs_mult abs_of_pos)
qed

lemma grid_error_least: "grid_error v e \<le> \<bar>of_int j * 2 powi e - v\<bar>"
  unfolding grid_error_def scale_distance
  by (rule mult_right_mono [OF round_away_nearest]) (simp add: less_imp_le)

lemma grid_error_mono: "e \<le> e' \<Longrightarrow> grid_error v e \<le> grid_error v e'"
  using grid_error_least [of v e "round_away (v / 2 powi e') * 2 ^ nat (e' - e)"]
  by (simp add: grid_error_def powi_split [of e e'] mult.assoc)

lemma grid_error_half: "grid_error v e \<le> 2 powi e / 2"
  using mult_right_mono [OF round_away_near, of "2 powi e" "v / 2 powi e"] powi_pos [of e]
  by (simp add: grid_error_def scale_distance less_imp_le)

section \<open>The search for the exponent\<close>

definition in_range :: "rat \<Rightarrow> rat \<Rightarrow> rat \<Rightarrow> int \<Rightarrow> bool" where
  "in_range lo hi v e \<longleftrightarrow> lo \<le> v / 2 powi e \<and> v / 2 powi e < hi"

lemma exponent_step_alt:
  "exponent_step lo hi v best e =
    (if in_range lo hi v e \<and> grid_error v e < snd best then (e, grid_error v e) else best)"
  by (simp add: exponent_step_def in_range_def grid_error_def Let_def)

lemma steps_keep:
  "\<forall>e \<in> set es. in_range lo hi v e \<longrightarrow> snd best \<le> grid_error v e \<Longrightarrow> foldl (exponent_step lo hi v) best es = best"
  by (induction es) (auto simp: exponent_step_alt)

text \<open>
  A finer grid is never worse, so the exponent found is simply the smallest that is in range.
\<close>

lemma best_exponent_least:
  assumes ex: "\<exists>e \<in> {-16..15}. in_range lo hi v e"
  shows "best_exponent lo hi v \<in> {-16..15} \<and> in_range lo hi v (best_exponent lo hi v) \<and>
    (\<forall>e \<in> {-16..15}. in_range lo hi v e \<longrightarrow> best_exponent lo hi v \<le> e)"
proof -
  have "\<exists>e \<in> set [-16..15]. in_range lo hi v e" using ex by (simp only: set_upto)
  then obtain pre e post where es: "[-16..15] = pre @ e # post" and e: "in_range lo hi v e"
    and pre: "\<forall>x \<in> set pre. \<not> in_range lo hi v x"
    using split_list_first_prop [of "[-16..15]" "in_range lo hi v"] by blast
  have "sorted_wrt (<) (pre @ e # post)" unfolding es [symmetric] by (rule sorted_wrt_upto)
  then have post: "\<forall>x \<in> set post. e < x" by (simp add: sorted_wrt_append)
  have "e \<in> set [-16..15]" unfolding es by simp
  then have b: "e \<in> {-16..15}" by (simp only: set_upto)
  have "(2 :: rat) powi e \<le> 2 powi 15" using b by (intro power_int_increasing) auto
  then have "grid_error v e < f32_max" using grid_error_half [of v e] by (simp add: f32_max_def)
  then have "foldl (exponent_step lo hi v) (0, f32_max) (pre @ e # post) =
      foldl (exponent_step lo hi v) (e, grid_error v e) post"
    using pre e by (simp add: steps_keep [of pre] exponent_step_alt)
  also have "\<dots> = (e, grid_error v e)"
    using post by (intro steps_keep) (auto intro: grid_error_mono less_imp_le)
  finally have best: "best_exponent lo hi v = e" unfolding best_exponent_def es by simp
  have "e \<le> x" if "x \<in> {-16..15}" "in_range lo hi v x" for x
  proof -
    have "x \<in> set (pre @ e # post)" unfolding es [symmetric] using that by (simp only: set_upto)
    then show ?thesis using post pre that(2) by auto
  qed
  then show ?thesis using best b e by simp
qed

lemma best_exponent_none:
  "\<not> (\<exists>e \<in> {-16..15}. in_range lo hi v e) \<Longrightarrow> best_exponent lo hi v = 0"
  unfolding best_exponent_def by (subst steps_keep) (simp_all only: set_upto, auto)

section \<open>Packing\<close>

definition pack11 :: "int \<Rightarrow> int \<Rightarrow> u16" where
  "pack11 e m = push_bit 11 ((word_of_int e :: u16) AND 0x1F) OR ((word_of_int m :: u16) AND 0x07FF)"

lemma mask_words: "(0x1F :: u16) = mask 5" "(0x07FF :: u16) = mask 11" "(0x0400 :: u16) = push_bit 10 1"
  "(0xF800 :: u16) = push_bit 11 (mask 5)"
  by (simp_all add: mask_eq_exp_minus_1)

lemma pack11_exponent_bits: "drop_bit 11 (pack11 e m) AND 0x1F = (word_of_int e :: u16) AND 0x1F"
  unfolding pack11_def mask_words
  by (rule bit_word_eqI) (auto simp: bit_simps)

lemma pack11_mantissa_bits: "pack11 e m AND 0x07FF = (word_of_int m :: u16) AND 0x07FF"
  unfolding pack11_def mask_words
  by (rule bit_word_eqI) (auto simp: bit_simps)

lemma high_bits_nat: "0 \<le> k \<Longrightarrow> k < 2 ^ i \<Longrightarrow> i \<le> n \<Longrightarrow> \<not> bit (k :: int) n"
  by (metis bit_take_bit_iff linorder_not_less take_bit_int_eq_self)

lemma high_bits_neg:
  assumes "- (2 ^ i) \<le> k" "k < 0" "i \<le> n"
  shows "bit (k :: int) n"
proof -
  have "0 \<le> NOT k" "NOT k < 2 ^ i" using assms by (simp_all add: not_int_def)
  from high_bits_nat [OF this assms(3)] show ?thesis by (simp add: bit_not_int_iff)
qed

lemma pack11_exponent [simp]:
  assumes "e \<in> {-16..15}"
  shows "linear11_exponent (pack11 e m) = e"
proof -
  let ?w = "ucast ((word_of_int e :: u16) AND 0x1F) :: u8"
  have m: "(0x10 :: u8) = push_bit 4 1" "(0xE0 :: u8) = push_bit 5 (mask 3)" by (simp_all add: mask_eq_exp_minus_1)
  have s: "sint (word_of_int e :: u8) = e" using assms by (intro sint_word_of_int) auto
  have "extract_5bit_exponent ?w = e"
  proof (cases "e < 0")
    case True
    have b: "4 \<le> n \<Longrightarrow> bit e n" for n using high_bits_neg [of 4 e n] assms True by simp
    have "?w OR 0xE0 = word_of_int e"
      unfolding mask_words m by (rule bit_word_eqI) (auto simp: bit_simps b)
    moreover have "bit (?w AND 0x10) 4" unfolding mask_words m using b [of 4] by (simp add: bit_simps)
    then have "?w AND 0x10 \<noteq> 0" by (metis bit_0_eq bot_apply bot_bool_def)
    ultimately show ?thesis using s by (simp add: extract_5bit_exponent_def)
  next
    case False
    have b: "4 \<le> n \<Longrightarrow> \<not> bit e n" for n using high_bits_nat [of e 4 n] assms False by simp
    have "?w = word_of_int e"
      unfolding mask_words m by (rule bit_word_eqI) (auto simp: bit_simps b not_less intro: ccontr)
    moreover have "?w AND 0x10 = 0"
      unfolding mask_words m by (rule bit_word_eqI) (auto simp: bit_simps b bit_single)
    ultimately show ?thesis using s by (simp add: extract_5bit_exponent_def)
  qed
  then show ?thesis unfolding linear11_exponent_def pack11_exponent_bits .
qed

lemma pack11_mantissa [simp]:
  assumes "- 1024 \<le> m" "m < 1024"
  shows "linear11_mantissa (pack11 e m) = m"
proof (cases "m < 0")
  case True
  have b: "10 \<le> n \<Longrightarrow> bit m n" for n using high_bits_neg [of 10 m n] assms True by simp
  have "((word_of_int m :: u16) AND 0x07FF) OR 0xF800 = word_of_int m"
    unfolding mask_words by (rule bit_word_eqI) (auto simp: bit_simps b)
  moreover have "((word_of_int m :: u16) AND 0x07FF) AND 0x0400 \<noteq> 0"
  proof
    assume "((word_of_int m :: u16) AND 0x07FF) AND 0x0400 = 0"
    then have "bit (((word_of_int m :: u16) AND 0x07FF) AND 0x0400) 10 = bit (0 :: u16) 10" by simp
    then show False unfolding mask_words using b [of 10] by (simp add: bit_simps)
  qed
  moreover have "sint (word_of_int m :: u16) = m" using assms by (intro sint_word_of_int) auto
  ultimately show ?thesis by (simp add: linear11_mantissa_def pack11_mantissa_bits)
next
  case False
  have b: "10 \<le> n \<Longrightarrow> \<not> bit m n" for n using high_bits_nat [of m 10 n] assms False by simp
  have "(word_of_int m :: u16) AND 0x07FF = word_of_int m"
    unfolding mask_words by (rule bit_word_eqI) (auto simp: bit_simps b not_less intro: ccontr)
  moreover have "((word_of_int m :: u16) AND 0x07FF) AND 0x0400 = 0"
    unfolding mask_words by (rule bit_word_eqI) (auto simp: bit_simps b bit_single)
  moreover have "sint (word_of_int m :: u16) = m" using assms False by (intro sint_word_of_int) auto
  ultimately show ?thesis by (simp add: linear11_mantissa_def pack11_mantissa_bits)
qed

lemma pack11_wraps: "pack11 e 1024 = pack11 e (- 1024)"
  by (simp add: pack11_def)

text \<open>Every word is a packed pair, so its mantissa and exponent are in range.\<close>

lemma mantissa_bounds: "- 1024 \<le> linear11_mantissa x \<and> linear11_mantissa x < 1024"
proof -
  define m where "m = signed_take_bit 10 (uint x)"
  have m: "- 1024 \<le> m" "m < 1024"
    using signed_take_bit_int_greater_eq_minus_exp [of 10 "uint x"] signed_take_bit_int_less_exp [of 10 "uint x"]
    by (simp_all add: m_def)
  have c: "n < 11 \<longleftrightarrow> n = 10 \<or> n < (10 :: nat)" for n by auto
  have "x AND 0x07FF = pack11 0 m AND 0x07FF"
    unfolding pack11_mantissa_bits unfolding mask_words m_def
    by (rule bit_word_eqI) (auto simp: bit_simps bit_uint_iff min_def c)
  then have "linear11_mantissa x = linear11_mantissa (pack11 0 m)" by (simp add: linear11_mantissa_def)
  then show ?thesis using m by simp
qed

lemma exponent_bounds: "linear11_exponent x \<in> {-16..15}"
proof -
  define e where "e = signed_take_bit 4 (uint (drop_bit 11 x))"
  have e: "e \<in> {-16..15}"
    using signed_take_bit_int_greater_eq_minus_exp [of 4 "uint (drop_bit 11 x)"]
      signed_take_bit_int_less_exp [of 4 "uint (drop_bit 11 x)"]
    by (simp add: e_def)
  have c: "n < 5 \<longleftrightarrow> n = 4 \<or> n < (4 :: nat)" for n by auto
  have "drop_bit 11 x AND 0x1F = drop_bit 11 (pack11 e 0) AND 0x1F"
    unfolding pack11_exponent_bits unfolding mask_words e_def
    by (rule bit_word_eqI) (auto simp: bit_simps bit_uint_iff min_def c)
  then have "linear11_exponent x = linear11_exponent (pack11 e 0)" by (simp add: linear11_exponent_def)
  then show ?thesis using e by simp
qed

section \<open>Linear11\<close>

lemma from_float_packed:
  assumes v: "v \<noteq> 0" and ex: "\<exists>e \<in> {-16..15}. in_range (- 1024) 1024 v e"
  defines "e \<equiv> best_exponent (- 1024) 1024 v"
  defines "m \<equiv> round_away (v / 2 powi e)"
  shows "linear11_from_float v = pack11 e m \<and> e \<in> {-16..15} \<and> - 1024 \<le> m \<and> m \<le> 1024"
proof -
  have e: "e \<in> {-16..15}" "in_range (- 1024) 1024 v e" using best_exponent_least [OF ex] by (simp_all add: e_def)
  have "\<bar>of_int m - v / 2 powi e\<bar> \<le> 1 / 2" unfolding m_def by (rule round_away_near)
  then have "(- 1025 :: rat) < of_int m" "of_int m < (1025 :: rat)"
    using e(2) unfolding in_range_def abs_le_iff by linarith+
  then have "- 1024 \<le> m" "m \<le> 1024" by simp_all
  then show ?thesis using e v
    by (simp add: linear11_from_float_def pack11_def as_i32_def Let_def flip: e_def m_def)
qed

lemma powi_pred: "(2 :: rat) powi e = 2 * 2 powi (e - 1)"
  using power_int_add_1 [of "2 :: rat" "e - 1"] by simp

text \<open>The values whose nearest multiple is the power of two just above the mantissa's range.\<close>

definition mantissa_window :: "rat \<Rightarrow> int \<Rightarrow> bool" where
  "mantissa_window v e \<longleftrightarrow> e \<in> {-16..15} \<and> 2047 / 2 * 2 powi e \<le> v \<and> v < 1024 * 2 powi e"

lemma range_iff: "in_range lo hi v e \<longleftrightarrow> lo * 2 powi e \<le> v \<and> v < hi * 2 powi e"
  using powi_pos [of e] by (simp add: in_range_def pos_le_divide_eq pos_divide_less_eq)

lemma powi_le: "e \<le> e' \<Longrightarrow> (2 :: rat) powi e \<le> 2 powi e'"
  by (rule power_int_increasing) simp_all

lemma window_exponent:
  assumes "mantissa_window v e"
  shows "best_exponent (- 1024) 1024 v = e \<and> round_away (v / 2 powi e) = 1024"
proof -
  have w: "e \<in> {-16..15}" "2047 / 2 * 2 powi e \<le> v" "v < 1024 * 2 powi e"
    using assms by (simp_all add: mantissa_window_def)
  have pos: "0 < v" using w(2) powi_pos [of e] by (meson less_le_trans mult_pos_pos zero_less_divide_iff zero_less_numeral)
  have r: "in_range (- 1024) 1024 v e" using w pos powi_pos [of e] by (simp add: range_iff)
  have above: "e \<le> x" if "in_range (- 1024) 1024 v x" for x
  proof (rule ccontr)
    assume "\<not> e \<le> x"
    then have "(2 :: rat) powi x \<le> 2 powi (e - 1)" by (intro powi_le) simp
    moreover have "v < 1024 * 2 powi x" using that by (simp add: range_iff)
    ultimately show False using w(2) powi_pred [of e] powi_pos [of "e - 1"] by linarith
  qed
  have "best_exponent (- 1024) 1024 v = e"
    using best_exponent_least [of "- 1024" 1024 v] w(1) r above by (metis order_antisym)
  moreover have "2047 / 2 \<le> v / 2 powi e" "v / 2 powi e < 1024"
    using w powi_pos [of e] by (simp_all add: pos_le_divide_eq pos_divide_less_eq)
  then have "1024 \<le> v / 2 powi e + 1 / 2" "v / 2 powi e + 1 / 2 < 1025" by linarith+
  then have "\<lfloor>v / 2 powi e + 1 / 2\<rfloor> = 1024" by (simp add: floor_eq_iff)
  then have "round_away (v / 2 powi e) = 1024" using pos by (simp add: round_away_def)
  ultimately show ?thesis by simp
qed

lemma coarse_enough:
  assumes E: "E \<in> {-16..15}" "\<forall>e \<in> {-16..15}. in_range (- 1024) 1024 v e \<longrightarrow> E \<le> e"
    and e: "e \<in> {-16..15}" and k: "- 1024 \<le> k" "k < 1024"
  shows "grid_error v E \<le> \<bar>of_int k * 2 powi e - v\<bar>"
proof (cases "E \<le> e")
  case True
  then show ?thesis using grid_error_mono [of E e v] grid_error_least [of v e k] by linarith
next
  case False
  then have d: "E - 1 \<in> {-16..15}" "e \<le> E - 1" using E(1) e by auto
  then have p: "(2 :: rat) powi e \<le> 2 powi (E - 1)" by (intro powi_le)
  have out: "1024 * 2 powi (E - 1) \<le> v \<or> v < - 1024 * 2 powi (E - 1)"
  proof -
    have "\<not> in_range (- 1024) 1024 v (E - 1)" using E(2) [rule_format, OF d(1)] by auto
    then show ?thesis unfolding range_iff by linarith
  qed
  have k': "(of_int k :: rat) \<le> 1023" "- 1024 \<le> (of_int k :: rat)" using k by simp_all
  have q: "of_int k * 2 powi e \<le> (1023 :: rat) * 2 powi e" "- 1024 * 2 powi e \<le> of_int k * (2 :: rat) powi e"
    by (rule scale_mono [OF k'(1)], rule scale_mono [OF k'(2)])
  show ?thesis
  proof (cases "1024 * 2 powi (E - 1) \<le> v")
    case True
    have "\<bar>of_int 512 * 2 powi E - v\<bar> = v - 1024 * 2 powi (E - 1)" using True powi_pred [of E] by simp
    then show ?thesis using grid_error_least [of v E 512] q(1) p powi_pos [of e] True by linarith
  next
    case False
    have "\<bar>of_int (- 512) * 2 powi E - v\<bar> = - 1024 * 2 powi (E - 1) - v" using False out powi_pred [of E] by simp
    then show ?thesis using grid_error_least [of v E "- 512"] q(2) p out False by linarith
  qed
qed

lemma linear11_nearest:
  assumes "- 1024 * 2 powi 15 \<le> v" "v < 1024 * 2 powi 15"
  shows "(\<exists>e. mantissa_window v e \<and> linear11_to_float (linear11_from_float v) = - 1024 * 2 powi e) \<or>
    (\<nexists>e. mantissa_window v e) \<and>
      \<bar>linear11_to_float (linear11_from_float v) - v\<bar> \<le> \<bar>linear11_to_float x - v\<bar>"
proof (cases "v = 0")
  case True
  have "\<not> mantissa_window 0 e" for e
    using powi_pos [of e] by (auto simp: mantissa_window_def not_le intro!: mult_pos_pos)
  moreover have "linear11_to_float 0 = 0" by (simp add: linear11_to_float_def linear11_mantissa_def)
  ultimately show ?thesis by (simp add: True linear11_from_float_def)
next
  case False
  define E where "E = best_exponent (- 1024) 1024 v"
  define m where "m = round_away (v / 2 powi E)"
  have ex: "\<exists>e \<in> {-16..15}. in_range (- 1024) 1024 v e"
    using assms by (intro bexI [of _ 15]) (simp_all add: range_iff)
  have f: "linear11_from_float v = pack11 E m" "E \<in> {-16..15}" "- 1024 \<le> m" "m \<le> 1024"
    using from_float_packed [OF False ex] by (simp_all add: E_def m_def)
  note best = best_exponent_least [OF ex, folded E_def]
  show ?thesis
  proof (cases "\<exists>e. mantissa_window v e")
    case True
    then obtain e where w: "mantissa_window v e" ..
    then have "linear11_from_float v = pack11 e (- 1024)"
      using window_exponent [OF w] f(1) by (simp add: E_def m_def pack11_wraps)
    then have "linear11_to_float (linear11_from_float v) = - 1024 * 2 powi e"
      using w by (simp add: linear11_to_float_def mantissa_window_def)
    then show ?thesis using w by blast
  next
    case nw: False
    have "m \<noteq> 1024"
    proof
      assume "m = 1024"
      then have "2047 / 2 \<le> v / 2 powi E" 
        using round_away_near [of "v / 2 powi E"] unfolding m_def [symmetric]
        by (simp only: abs_le_iff of_int_numeral) linarith
      then have "mantissa_window v E"
        using best f(2) powi_pos [of E] by (simp add: mantissa_window_def range_iff pos_le_divide_eq)
      then show False using nw by blast
    qed
    then have "linear11_to_float (linear11_from_float v) = of_int m * 2 powi E"
      using f by (simp add: linear11_to_float_def)
    then have "\<bar>linear11_to_float (linear11_from_float v) - v\<bar> = grid_error v E" by (simp add: grid_error_def m_def)
    moreover have "grid_error v E \<le> \<bar>linear11_to_float x - v\<bar>"
      unfolding linear11_to_float_def using best mantissa_bounds [of x] exponent_bounds [of x]
      by (intro coarse_enough) auto
    ultimately show ?thesis using nw by simp
  qed
qed

text \<open>
  C31: A number in the range of the format is encoded as the nearest value the format has, except in
  the window just below 1024 units of some exponent: there the mantissa is rounded up to 1024,
  does not fit and is stored as -1024, so the register gets the negated value.
\<close>

theorem linear11_encoding:
  assumes "- 1024 * 2 powi 15 \<le> v" "v < 1024 * 2 powi 15"
  shows "(\<exists>e. mantissa_window v e \<and> linear11_to_float (linear11_from_float v) = - 1024 * 2 powi e) \<or>
    (\<nexists>e. mantissa_window v e) \<and>
      \<bar>linear11_to_float (linear11_from_float v) - v\<bar> \<le> \<bar>linear11_to_float x - v\<bar>"
  by (rule linear11_nearest [OF assms])

text \<open>A value read from a register lies in no window: it is a multiple of its own unit.\<close>

lemma value_not_in_window: "\<not> mantissa_window (linear11_to_float x) e"
proof
  let ?k = "linear11_mantissa x" and ?e = "linear11_exponent x"
  assume "mantissa_window (linear11_to_float x) e"
  then have w: "2047 / 2 * (2 :: rat) powi e \<le> of_int ?k * 2 powi ?e" "of_int ?k * 2 powi ?e < 1024 * (2 :: rat) powi e"
    by (simp_all add: mantissa_window_def linear11_to_float_def)
  show False
  proof (cases "e \<le> ?e")
    case True
    define j where "j = ?k * 2 ^ nat (?e - e)"
    have j: "of_int ?k * (2 :: rat) powi ?e = of_int j * 2 powi e"
      by (simp add: j_def powi_split [OF True])
    have "2047 / 2 \<le> (of_int j :: rat)" "(of_int j :: rat) < 1024"
      using w powi_pos [of e] unfolding j by simp_all
    then have "(1023 :: rat) < of_int j" "(of_int j :: rat) < 1024" by linarith+
    then show False by simp
  next
    case False
    then have "(2 :: rat) powi (?e + 1) \<le> 2 powi e" by (intro powi_le) simp
    then have "2 * (2 :: rat) powi ?e \<le> 2 powi e" using powi_pred [of "?e + 1"] by simp
    moreover have "(of_int ?k :: rat) * 2 powi ?e \<le> 1023 * 2 powi ?e"
      using mantissa_bounds [of x] by (intro scale_mono) simp
    ultimately show False using w(1) powi_pos [of ?e] by linarith
  qed
qed

lemma to_float_bounds: "- 1024 * 2 powi 15 \<le> linear11_to_float x" "linear11_to_float x < 1024 * 2 powi 15"
proof -
  let ?k = "linear11_mantissa x" and ?e = "linear11_exponent x"
  have p: "(2 :: rat) powi ?e \<le> 2 powi 15" using exponent_bounds [of x] by (intro powi_le) simp
  have k: "(- 1024 :: rat) \<le> of_int ?k" "(of_int ?k :: rat) \<le> 1023" using mantissa_bounds [of x] by simp_all
  note b = scale_mono [OF k(1), of ?e] scale_mono [OF k(2), of ?e]
  then show "- 1024 * 2 powi 15 \<le> linear11_to_float x" "linear11_to_float x < 1024 * 2 powi 15"
    unfolding linear11_to_float_def using p powi_pos [of ?e] b by linarith+
qed

text \<open>
  Encoding what was read from a register gives a register of the same value, although not always
  the same bits.
\<close>

theorem linear11_exact: "linear11_to_float (linear11_from_float (linear11_to_float x)) = linear11_to_float x"
proof -
  have "\<bar>linear11_to_float (linear11_from_float (linear11_to_float x)) - linear11_to_float x\<bar>
      \<le> \<bar>linear11_to_float x - linear11_to_float x\<bar>"
    using linear11_nearest [OF to_float_bounds [of x]] value_not_in_window [of x] by blast
  then show ?thesis by simp
qed

section \<open>Linear16\<close>

lemma linear16_cases:
  "case encode_linear16 mode v of
     Inr w \<Rightarrow> \<bar>decode_linear16 mode w - v\<bar> \<le> 2 powi vout_exponent mode / 2
   | Inl e \<Rightarrow> e = ValueOutOfRange \<and>
       (v < 0 \<or> (65535 + 1 / 2) * 2 powi vout_exponent mode \<le> v)"
proof -
  define p where "p = (2 :: rat) powi vout_exponent mode"
  define m where "m = round_away (v / p)"
  have p: "0 < p" by (simp add: p_def)
  have near: "\<bar>of_int m - v / p\<bar> \<le> 1 / 2" unfolding m_def by (rule round_away_near)
  have enc: "encode_linear16 mode v = (if m < 0 \<or> 65535 < m then Inl ValueOutOfRange else Inr (word_of_int m))"
    by (simp add: encode_linear16_def m_def p_def)
  show ?thesis
  proof (cases "m < 0 \<or> 65535 < m")
    case True
    have "v < 0" if "m < 0"
    proof (rule ccontr)
      assume "\<not> v < 0"
      then have "0 \<le> v / p" using p by simp
      then have "0 \<le> m" by (simp add: m_def round_away_def)
      then show False using that by simp
    qed
    moreover have "(65535 + 1 / 2) * p \<le> v" if "65535 < m"
    proof -
      have "(65536 :: rat) \<le> of_int m" using that by simp
      then have "65535 + 1 / 2 \<le> v / p" using near unfolding abs_le_iff by linarith
      then show ?thesis using p by (simp add: pos_le_divide_eq)
    qed
    ultimately show ?thesis using True by (auto simp: enc simp flip: p_def)
  next
    case False
    then have "uint (word_of_int m :: u16) = m" by (simp add: uint_word_of_int)
    then have "\<bar>decode_linear16 mode (word_of_int m) - v\<bar> = grid_error v (vout_exponent mode)"
      by (simp add: decode_linear16_def grid_error_def m_def p_def)
    then show ?thesis using False grid_error_half [of v "vout_exponent mode"] by (simp add: enc)
  qed
qed

lemma linear16_near: "encode_linear16 mode v = Inr w \<Longrightarrow> \<bar>decode_linear16 mode w - v\<bar> \<le> 2 powi vout_exponent mode / 2"
  using linear16_cases [where mode = mode and v = v] by simp

text \<open>
  A voltage is encoded within half a unit of the mode's exponent, and refused exactly when its
  rounding does not fit the register.
\<close>

theorem linear16_encoding:
  "case encode_linear16 mode v of
     Inr w \<Rightarrow> \<bar>decode_linear16 mode w - v\<bar> \<le> 2 powi vout_exponent mode / 2
   | Inl e \<Rightarrow> e = ValueOutOfRange \<and>
       (v < 0 \<or> (65535 + 1 / 2) * 2 powi vout_exponent mode \<le> v)"
  by (rule linear16_cases)

lemma linear16_exact: "encode_linear16 mode (decode_linear16 mode w) = Inr w"
proof -
  have "decode_linear16 mode w / 2 powi vout_exponent mode = of_int (uint w)"
    using powi_pos [of "vout_exponent mode"] unfolding decode_linear16_def by (intro nonzero_mult_div_cancel_right) simp
  then have "round_away (decode_linear16 mode w / 2 powi vout_exponent mode) = uint w" by (simp only: round_away_int)
  then show ?thesis using uint_bounded [of w] by (simp add: encode_linear16_def Let_def)
qed

section \<open>Command and operation codes\<close>

lemma operation_roundtrip: "operation_try_from (operation_code p) = Inr p"
  by (cases p) (simp_all add: operation_code_def operation_try_from_def)

text \<open>The table of names is searched by code and finds each command's own entry.\<close>

lemma command_codes_distinct: "distinct (map fst command_metadata)"
  by (simp add: command_metadata_def)

theorem linear11_encoding_witness:
  "mantissa_window (2047 / 2048) (- 10) \<and> linear11_to_float (linear11_from_float (2047 / 2048)) = - 1"
proof -
  have w: "mantissa_window (2047 / 2048) (- 10)" by (simp add: mantissa_window_def power_int_def power_one_over)
  then have only: "mantissa_window (2047 / 2048) e \<Longrightarrow> e = - 10" for e
    using window_exponent by metis
  have "(\<exists>e. mantissa_window (2047 / 2048) e \<and>
      linear11_to_float (linear11_from_float (2047 / 2048)) = - 1024 * 2 powi e) \<or> (\<nexists>e. mantissa_window (2047 / 2048) e)"
    using linear11_encoding [of "2047 / 2048" 0] by (auto simp: power_int_def power_one_over)
  then obtain e where "e = - 10" "linear11_to_float (linear11_from_float (2047 / 2048)) = - 1024 * 2 powi e"
    using w only by blast
  then show ?thesis using w by (simp add: power_int_def power_one_over)
qed

end
