(* ===== verification/Tps546_Properties.thy ===== *)
theory Tps546_Properties
  imports Tps546 Pmbus_Properties
begin

text \<open>
  The regulator: what its operations put on the bus, proved once for every bus that keeps the laws
  and then stated for the bus of a Bitaxe board.
\<close>

section \<open>On any bus\<close>

definition is_read :: "i2c_op \<Rightarrow> bool" where
  "is_read p \<longleftrightarrow> (case p of OpWriteRead a bs n \<Rightarrow> True | _ \<Rightarrow> False)"

definition reg_write :: "pmbus_command \<Rightarrow> u8 list \<Rightarrow> i2c_op" where
  "reg_write c bs = OpWrite tps_address (command_code c # bs)"

definition switch_on :: i2c_op where
  "switch_on = reg_write PmOperation [operation_code OpOn]"

definition switch_off :: i2c_op where
  "switch_off = reg_write PmOperation [operation_code OffImmediate]"

lemma is_read_simps [simp]: "is_read (OpWriteRead a bs n)" "\<not> is_read (OpWrite a bs)" "\<not> is_read (reg_write c bs)"
  by (simp_all add: is_read_def reg_write_def)

lemma reg_write_eq [simp]: "reg_write c bs = reg_write d cs \<longleftrightarrow> command_code c = command_code d \<and> bs = cs"
  by (simp add: reg_write_def)

definition tps_log :: "('s \<Rightarrow> i2c_op list) \<Rightarrow> 's tps546 \<Rightarrow> i2c_op list" where
  "tps_log lg t = lg (tp_bus t)"

text \<open>Operations never take back a transaction, forget the mode or change the configuration.\<close>

definition tps_later :: "('s \<Rightarrow> i2c_op list) \<Rightarrow> 's tps546 \<Rightarrow> 's tps546 \<Rightarrow> bool" where
  "tps_later lg s t \<longleftrightarrow>
    prefix (tps_log lg s) (tps_log lg t) \<and> tp_config t = tp_config s \<and>
    (\<forall>m. tp_cached_vout_mode s = Some m \<longrightarrow> tp_cached_vout_mode t = Some m)"

lemma later_refl: "tps_later lg s s"
  by (simp add: tps_later_def)

lemma later_trans: "tps_later lg s t \<Longrightarrow> tps_later lg t u \<Longrightarrow> tps_later lg s u"
  unfolding tps_later_def using prefix_order.trans by metis

lemma get_vout_mode_alt:
  "get_vout_mode B t =
    (case tp_cached_vout_mode t of
       Some cached \<Rightarrow> (Inr cached, t)
     | None \<Rightarrow> (case read_byte B PmVoutMode t of
                (Inl e, u) \<Rightarrow> (Inl e, u) | (Inr mode, u) \<Rightarrow> (Inr mode, u\<lparr>tp_cached_vout_mode := Some mode\<rparr>)))"
  by (simp add: get_vout_mode_def hbind_def split: option.split prod.split sum.split)

lemma map_sum_Inr [simp]: "map_sum f id r = Inr x \<longleftrightarrow> r = Inr x"
  by (cases r) auto

context i2c_bus
begin

lemma on_bus_emits:
  assumes "emits lg m X" "\<And>es r. X es r \<Longrightarrow> Y es (map_sum TpsHw id r)"
  shows "emits (tps_log lg) (on_bus m) Y"
  unfolding on_bus_def
  by (rule emits_zoom, rule emits_maperr, rule assms(1), erule assms(2)) (simp_all add: tps_log_def)

lemma on_bus_later:
  assumes "emits lg m X"
  shows "moves_by (tps_later lg) (on_bus m)"
  unfolding moves_by_def
proof
  fix t :: "'s tps546"
  obtain es where "lg (snd (m (tp_bus t))) = lg (tp_bus t) @ es" using emitsD [OF assms] by blast
  then show "tps_later lg t (snd (on_bus m t))"
    by (simp add: tps_later_def tps_log_def on_bus_def hzoom_def hmaperr_def)
qed

lemma read_bytes_emits:
  assumes "n < 256"
  shows "emits (tps_log lg) (read_bytes B c n) (\<lambda>es r. list_all is_read es \<and> (\<forall>out. r = Inr out \<longrightarrow> length out = n))"
  unfolding read_bytes_def using assms by (intro on_bus_emits [OF read_law]) auto

lemma reads_only:
  "n < 256 \<Longrightarrow> emits_only (tps_log lg) (read_bytes B c n) is_read"
  "emits_only (tps_log lg) (read_byte B c) is_read"
  "emits_only (tps_log lg) (read_word B c) is_read"
proof -
  have r: "emits_only (tps_log lg) (read_bytes B c n) is_read" if "n < 256" for n
    unfolding emits_only_def using read_bytes_emits [OF that] by (rule emits_weaken) simp
  show "n < 256 \<Longrightarrow> emits_only (tps_log lg) (read_bytes B c n) is_read" by (rule r)
  show "emits_only (tps_log lg) (read_byte B c) is_read" "emits_only (tps_log lg) (read_word B c) is_read"
    unfolding read_byte_def read_word_def by (intro emits_only_intros r; simp)+
qed

lemma get_vout_mode_only: "emits_only (tps_log lg) (get_vout_mode B) is_read"
  unfolding emits_only_def
proof (rule emitsI)
  fix t :: "'s tps546"
  obtain es where "tps_log lg (snd (read_byte B PmVoutMode t)) = tps_log lg t @ es" "list_all is_read es"
    using emitsD [OF reads_only(2) [unfolded emits_only_def]] by blast
  then show "\<exists>es. tps_log lg (snd (get_vout_mode B t)) = tps_log lg t @ es \<and> list_all is_read es"
    by (cases "read_byte B PmVoutMode t") (auto simp: get_vout_mode_alt tps_log_def split: option.split sum.split)
qed

lemma encode_voltage_only: "emits_only (tps_log lg) (encode_voltage B v) is_read"
  unfolding encode_voltage_def
  by (intro emits_only_bind get_vout_mode_only) (auto intro: emits_only_ret split: sum.split)

lemma decode_voltage_only: "emits_only (tps_log lg) (decode_voltage B w) is_read"
  unfolding decode_voltage_def by (intro emits_only_intros get_vout_mode_only)

lemma read_block_only: "n < 255 \<Longrightarrow> emits_only (tps_log lg) (read_block B c n) is_read"
  unfolding read_block_def by (intro emits_only_intros reads_only) simp

lemma hdrop_only: "emits_only l m P \<Longrightarrow> emits_only l (hdrop m) P"
  unfolding hdrop_def by (intro emits_only_intros)

lemma dump_reads_only: "emits_only (tps_log lg) (dump_configuration B) is_read"
proof -
  have w: "emits_only (tps_log lg) (hdrop (read_word B c)) is_read" for c by (intro hdrop_only reads_only)
  have b: "emits_only (tps_log lg) (hdrop (read_byte B c)) is_read" for c by (intro hdrop_only reads_only)
  have v: "emits_only (tps_log lg) (dump_voltage B c) is_read" for c
    unfolding dump_voltage_def by (intro emits_only_bind reads_only hdrop_only decode_voltage_only)
  have k: "emits_only (tps_log lg) (hdrop (hattempt (read_block B PmCompensationConfig 5))) is_read"
    by (intro hdrop_only emits_only_attempt read_block_only) simp
  have s: "emits_only (tps_log lg) (dump_status B) is_read"
    unfolding dump_status_def by (intro emits_only_bind reads_only emits_only_seq) (auto intro: emits_only_when b)
  show ?thesis
    unfolding dump_configuration_def Let_def by (rule emits_only_seq) (auto intro: w b v k s)
qed

lemma write_emits:
  "emits (tps_log lg) (write_byte B c x) (\<lambda>es _. es = [reg_write c [x]])"
  "emits (tps_log lg) (write_word B c w) (\<lambda>es _. es = [reg_write c (to_le 2 w)])"
  "emits (tps_log lg) (clear_faults B) (\<lambda>es _. es = [reg_write PmClearFaults []])"
  unfolding write_byte_def write_word_def clear_faults_def reg_write_def
  by (rule on_bus_emits [OF write_law]; simp)+

subsection \<open>Every operation moves on\<close>

lemmas moves_tps = moves_ret [of "tps_later lg", OF later_refl] moves_bind [of "tps_later lg", OF later_trans]
  moves_attempt moves_maperr moves_when [of "tps_later lg", OF later_refl]

lemma access_later:
  "n < 256 \<Longrightarrow> moves_by (tps_later lg) (read_bytes B c n)"
  "moves_by (tps_later lg) (write_byte B c x)"
  "moves_by (tps_later lg) (write_word B c w)"
  unfolding read_bytes_def write_byte_def write_word_def
  by (rule on_bus_later [OF read_law] on_bus_later [OF write_law]; simp)+

lemma read_later:
  "moves_by (tps_later lg) (read_byte B c)" "moves_by (tps_later lg) (read_word B c)"
  unfolding read_byte_def read_word_def
  by (rule moves_bind [of "tps_later lg", OF later_trans]; simp add: access_later moves_ret later_refl)+

lemma get_vout_mode_later: "moves_by (tps_later lg) (get_vout_mode B)"
  unfolding moves_by_def
proof
  fix t :: "'s tps546"
  have "tps_later lg t (snd (read_byte B PmVoutMode t))" using read_later(1) by (simp add: moves_by_def)
  then show "tps_later lg t (snd (get_vout_mode B t))"
    by (cases "read_byte B PmVoutMode t")
       (auto simp: get_vout_mode_alt tps_later_def tps_log_def split: option.split sum.split)
qed

lemma encode_voltage_later: "moves_by (tps_later lg) (encode_voltage B v)"
  unfolding encode_voltage_def
  by (rule moves_bind [of "tps_later lg", OF later_trans])
     (auto intro: get_vout_mode_later moves_ret later_refl split: sum.split)

lemma write_voltage_later: "moves_by (tps_later lg) (write_voltage B c v)"
  unfolding write_voltage_def
  by (rule moves_bind [of "tps_later lg", OF later_trans]) (auto intro: encode_voltage_later access_later)

text \<open>A voltage that was encoded is within half a unit of the mode the driver keeps from then on.\<close>

lemma encode_voltage_value:
  assumes "encode_voltage B v s = (Inr w, t)"
  shows "\<exists>mode. tp_cached_vout_mode t = Some mode \<and> \<bar>decode_linear16 mode w - v\<bar> \<le> 2 powi vout_exponent mode / 2"
proof -
  obtain mode u where g: "get_vout_mode B s = (Inr mode, u)"
    and r: "(case encode_linear16 mode v of Inl e \<Rightarrow> hthrow (VoltageEncoding e) | Inr w \<Rightarrow> hret w) u = (Inr w, t)"
    using assms unfolding encode_voltage_def hbind_Inr by blast
  have e: "encode_linear16 mode v = Inr w" "u = t"
    using r by (cases "encode_linear16 mode v"; simp add: hthrow_def hret_def)+
  from g this have "tp_cached_vout_mode t = Some mode"
    by (auto simp: get_vout_mode_alt split: option.splits sum.splits prod.splits)
  then show ?thesis using linear16_near e(1) by blast
qed

end

section \<open>Setting the voltage\<close>

definition reads :: "i2c_op list \<Rightarrow> bool" where
  "reads es \<longleftrightarrow> list_all is_read es"

text \<open>What turning the output on may leave on the bus, whatever fails.\<close>

definition turn_on_log :: "u16 \<Rightarrow> i2c_op list \<Rightarrow> bool" where
  "turn_on_log w es \<longleftrightarrow>
    es = [reg_write PmVoutCommand (to_le 2 w)] \<or>
    es = [reg_write PmVoutCommand (to_le 2 w), reg_write PmClearFaults []] \<or>
    (\<exists>post. es = [reg_write PmVoutCommand (to_le 2 w), reg_write PmClearFaults [], switch_on] @ post \<and> reads post)"

lemma switch_simps [simp]:
  "switch_on \<noteq> reg_write PmVoutCommand bs" "switch_on \<noteq> reg_write PmClearFaults bs" "switch_on \<noteq> switch_off"
  "reg_write PmVoutCommand bs \<noteq> switch_on" "reg_write PmClearFaults bs \<noteq> switch_on" "switch_off \<noteq> switch_on"
  "\<not> is_read switch_on" "\<not> is_read switch_off"
  by (simp_all add: switch_on_def switch_off_def operation_code_def)

lemma switch_on_not_read: "list_all is_read es \<Longrightarrow> switch_on \<notin> set es"
  using switch_simps(7) by (auto simp: list_all_iff)

context i2c_bus
begin

lemma after_turn_on_reads: "emits (tps_log lg) (after_turn_on B) (\<lambda>es _. reads es)"
proof -
  have r: "emits_only (tps_log lg) (read_byte B c) is_read" for c by (rule reads_only)
  have "emits_only (tps_log lg) (after_turn_on B) is_read"
    unfolding after_turn_on_def
    by (rule emits_only_seq)
       (auto intro!: hdrop_only r emits_only_bind reads_only emits_only_when emits_only_then emits_only_ret
          emits_only_attempt)
  then show ?thesis by (simp add: emits_only_def reads_def)
qed

lemma turn_on_emits:
  "emits (tps_log lg)
    (hseq [write_word B PmVoutCommand w, clear_faults B, write_byte B PmOperation (operation_code OpOn), after_turn_on B])
    (\<lambda>es _. turn_on_log w es)"
proof -
  have on: "emits (tps_log lg) (hseq [write_byte B PmOperation (operation_code OpOn), after_turn_on B])
      (\<lambda>es _. \<exists>post. es = switch_on # post \<and> reads post)"
    unfolding hseq.simps hthen_def
    by (rule emits_bind [OF write_emits(1) emits_bind [OF after_turn_on_reads emits_ret]])
       (auto simp: reads_def switch_on_def)
  show ?thesis
    unfolding hseq.simps(2) [of _ "_ # _ # _"] hthen_def
    by (rule emits_bind [OF write_emits(2) emits_bind [OF write_emits(3) on]])
       (auto simp: turn_on_log_def)
qed

lemma turn_on_later:
  "moves_by (tps_later lg)
    (hseq [write_word B PmVoutCommand w, clear_faults B, write_byte B PmOperation (operation_code OpOn), after_turn_on B])"
proof -
  have c: "moves_by (tps_later lg) (clear_faults B)"
    unfolding clear_faults_def by (rule on_bus_later [OF write_law]) simp
  have d: "moves_by (tps_later lg) (hdrop m)" if "moves_by (tps_later lg) m" for m :: "('s, 'b) on_tps"
    unfolding hdrop_def by (rule moves_bind [OF later_trans that]) (auto intro: moves_ret later_refl)
  have a: "moves_by (tps_later lg) (after_turn_on B)"
    unfolding after_turn_on_def
    by (rule moves_seq [OF later_refl later_trans])
       (auto intro!: d read_later moves_tps(3) moves_tps(6) moves_attempt moves_tps(1,2) simp: hthen_def)
  show ?thesis
    by (rule moves_seq [OF later_refl later_trans]) (auto intro: c a access_later)
qed

lemma set_vout_log:
  fixes s :: "'s tps546" and v :: rat
  defines "t \<equiv> snd (set_vout B v s)" and "lo \<equiv> cf_vout_min (tp_config s)" and "hi \<equiv> cf_vout_max (tp_config s)"
  shows "\<exists>es. tps_log lg t = tps_log lg s @ es \<and>
    (v = 0 \<longrightarrow> es = [switch_off]) \<and> (v \<noteq> 0 \<and> (v < lo \<or> hi < v) \<longrightarrow> es = []) \<and>
    (switch_on \<in> set es \<longrightarrow> lo \<le> v \<and> v \<le> hi \<and>
      (\<exists>mode w pre post. tp_cached_vout_mode t = Some mode \<and>
         \<bar>decode_linear16 mode w - v\<bar> \<le> 2 powi vout_exponent mode / 2 \<and>
         es = pre @ [reg_write PmVoutCommand (to_le 2 w), reg_write PmClearFaults [], switch_on] @ post \<and>
         reads pre \<and> reads post))"
proof -
  consider (off) "v = 0" | (range) "v \<noteq> 0" "v < lo \<or> hi < v" | (on) "v \<noteq> 0" "lo \<le> v" "v \<le> hi" by linarith
  then show ?thesis
  proof cases
    case off
    then have t: "t = snd (write_byte B PmOperation (operation_code OffImmediate) s)" by (simp add: t_def set_vout_def)
    obtain es where "tps_log lg t = tps_log lg s @ es" "es = [switch_off]"
      unfolding t switch_off_def using emitsD [OF write_emits(1)] by blast
    then show ?thesis using off by simp
  next
    case range
    then show ?thesis by (simp add: t_def set_vout_def hthrow_def lo_def hi_def)
  next
    case on
    let ?m = "\<lambda>w. hseq [write_word B PmVoutCommand w, clear_faults B, write_byte B PmOperation (operation_code OpOn), after_turn_on B]"
    have t: "t = snd (hbind (encode_voltage B v) ?m s)"
      using on by (auto simp: t_def set_vout_def lo_def hi_def)
    obtain pre where pre: "tps_log lg (snd (encode_voltage B v s)) = tps_log lg s @ pre" "reads pre"
      using emitsD [OF encode_voltage_only [unfolded emits_only_def]] unfolding reads_def by blast
    show ?thesis
    proof (cases "fst (encode_voltage B v s)")
      case (Inl e)
      then have "tps_log lg t = tps_log lg s @ pre" using pre(1) by (simp add: t hbind_run)
      then show ?thesis using pre(2) on switch_on_not_read by (intro exI [of _ pre]) (auto simp: reads_def)
    next
      case (Inr w)
      define u where "u = snd (encode_voltage B v s)"
      have u: "encode_voltage B v s = (Inr w, u)" using Inr by (simp add: u_def prod_eq_iff)
      have tu: "t = snd (?m w u)" using u by (simp add: t hbind_run)
      obtain es where es: "tps_log lg t = tps_log lg u @ es" "turn_on_log w es"
        unfolding tu using emitsD [OF turn_on_emits] by blast
      obtain mode where "tp_cached_vout_mode u = Some mode"
        and mode: "\<bar>decode_linear16 mode w - v\<bar> \<le> 2 powi vout_exponent mode / 2"
        using encode_voltage_value [OF u] by blast
      moreover have "tps_later lg u t" unfolding tu using turn_on_later by (simp only: moves_by_def)
      ultimately have cached: "tp_cached_vout_mode t = Some mode" by (simp add: tps_later_def)
      have log: "tps_log lg t = tps_log lg s @ (pre @ es)" using es(1) pre(1) by (simp add: u_def)
      have "\<exists>post. pre @ es = pre @ [reg_write PmVoutCommand (to_le 2 w), reg_write PmClearFaults [], switch_on] @ post \<and> reads post"
        if "switch_on \<in> set (pre @ es)"
        using that es(2) switch_on_not_read [OF pre(2) [unfolded reads_def]] by (auto simp: turn_on_log_def)
      then have "switch_on \<in> set (pre @ es) \<longrightarrow> lo \<le> v \<and> v \<le> hi \<and>
          (\<exists>mode w pre' post. tp_cached_vout_mode t = Some mode \<and>
             \<bar>decode_linear16 mode w - v\<bar> \<le> 2 powi vout_exponent mode / 2 \<and>
             pre @ es = pre' @ [reg_write PmVoutCommand (to_le 2 w), reg_write PmClearFaults [], switch_on] @ post \<and>
             reads pre' \<and> reads post)"
        using on(2,3) cached mode pre(2) by meson
      then show ?thesis using log on by (intro exI [of _ "pre @ es"]) simp
    qed
  qed
qed

end

text \<open>
  C32: The regulator is only ever switched on at a voltage inside the configured range, and only
  after this voltage, within half a unit of the register, and a clearing of the faults were written. Zero
  switches it off and a voltage out of range leaves the bus alone, whatever the device answers.
\<close>

theorem set_vout_guard:
  fixes s :: "'d channel tps546" and v :: rat and L :: "'d line"
  defines "t \<equiv> snd (set_vout (bitaxe_i2c L) v s)"
    and "lo \<equiv> cf_vout_min (tp_config s)" and "hi \<equiv> cf_vout_max (tp_config s)"
  shows "\<exists>es. i2c_log (tp_bus t) = i2c_log (tp_bus s) @ es \<and>
    (v = 0 \<longrightarrow> es = [switch_off]) \<and> (v \<noteq> 0 \<and> (v < lo \<or> hi < v) \<longrightarrow> es = []) \<and>
    (switch_on \<in> set es \<longrightarrow> lo \<le> v \<and> v \<le> hi \<and>
      (\<exists>mode w pre post. tp_cached_vout_mode t = Some mode \<and>
         \<bar>decode_linear16 mode w - v\<bar> \<le> 2 powi vout_exponent mode / 2 \<and>
         es = pre @ [reg_write PmVoutCommand (to_le 2 w), reg_write PmClearFaults [], switch_on] @ post \<and>
         reads pre \<and> reads post))"
  unfolding t_def lo_def hi_def using bitaxe.set_vout_log [of L v s] by (simp add: tps_log_def)

text \<open>A line nobody answers on.\<close>

definition dead_line :: "unit line" where
  "dead_line = \<lparr>ln_send = \<lambda>_ d. (None, d), ln_next = \<lambda>d. (NextTimeout, d)\<rparr>"

definition idle_channel :: "'d \<Rightarrow> 'd channel" where
  "idle_channel d = \<lparr>ch_next_id = 0, ch_device = d, ch_log = []\<rparr>"

lemma i2c_log_idle [simp]: "i2c_log (idle_channel d) = []"
  by (simp add: i2c_log_def idle_channel_def)

theorem set_vout_guard_witness:
  "i2c_log (tp_bus (snd (set_vout (bitaxe_i2c dead_line) 0 (tps546_new (idle_channel ()) bitaxe_regulator_config)))) = [switch_off]
   \<and> i2c_log (tp_bus (snd (set_vout (bitaxe_i2c dead_line) 3 (tps546_new (idle_channel ()) bitaxe_regulator_config)))) = []"
  using set_vout_guard [of dead_line 0 "tps546_new (idle_channel ()) bitaxe_regulator_config"]
    set_vout_guard [of dead_line 3 "tps546_new (idle_channel ()) bitaxe_regulator_config"]
  by (auto simp: tps546_new_def bitaxe_regulator_config_def)

section \<open>Initialisation\<close>

text \<open>The voltages of a configuration and the registers they belong in.\<close>

definition voltage_settings :: "tps546_config \<Rightarrow> (pmbus_command \<times> rat) list" where
  "voltage_settings cfg =
    [(PmVoutCommand, cf_vout_command cfg), (PmVoutMax, cf_vout_max cfg), (PmVoutMin, cf_vout_min cfg),
     (PmVoutOvFaultLimit, cf_vout_ov_fault_limit cfg), (PmVoutOvWarnLimit, cf_vout_ov_warn_limit cfg),
     (PmVoutMarginHigh, cf_vout_margin_high cfg), (PmVoutMarginLow, cf_vout_margin_low cfg),
     (PmVoutUvWarnLimit, cf_vout_uv_warn_limit cfg), (PmVoutUvFaultLimit, cf_vout_uv_fault_limit cfg)]"

text \<open>A transaction on the bus that does not write OPERATION.\<close>

definition no_operation :: "i2c_op \<Rightarrow> bool" where
  "no_operation p \<longleftrightarrow>
    (case p of OpOther pg c bs \<Rightarrow> False | _ \<Rightarrow> True) \<and> (\<forall>bs. p \<noteq> reg_write PmOperation bs)"

lemma no_operation_simps [simp]:
  "is_read p \<Longrightarrow> no_operation p"
  "no_operation (reg_write c bs) \<longleftrightarrow> command_code c \<noteq> command_code PmOperation"
  by (auto simp: no_operation_def is_read_def reg_write_def split: i2c_op.splits)

text \<open>The writes among the transactions.\<close>

definition writes :: "i2c_op list \<Rightarrow> i2c_op list" where
  "writes es = filter (\<lambda>p. \<not> is_read p) es"

lemma writes_simps [simp]:
  "writes [] = []" "writes (es @ fs) = writes es @ writes fs" "list_all is_read es \<Longrightarrow> writes es = []"
  "writes (reg_write c bs # es) = reg_write c bs # writes es" "writes (switch_off # es) = switch_off # writes es"
  by (auto simp: writes_def list_all_iff switch_off_def)

lemma set_writes: "set (writes es) \<subseteq> set es"
  by (auto simp: writes_def)

definition init_log :: "i2c_op list \<Rightarrow> bool" where
  "init_log es \<longleftrightarrow> writes es = [] \<or> (\<exists>rest. writes es = switch_off # rest \<and> list_all no_operation rest)"

context i2c_bus
begin

lemma write_only_no_operation:
  "command_code c \<noteq> command_code PmOperation \<Longrightarrow> emits_only (tps_log lg) (write_byte B c x) no_operation"
  "command_code c \<noteq> command_code PmOperation \<Longrightarrow> emits_only (tps_log lg) (write_word B c w) no_operation"
  unfolding emits_only_def by (rule emits_weaken [OF write_emits(1)], simp) (rule emits_weaken [OF write_emits(2)], simp)

lemma reads_no_operation: "emits_only (tps_log lg) m is_read \<Longrightarrow> emits_only (tps_log lg) m no_operation"
  by (erule emits_only_mono) simp

lemma write_voltage_only:
  "command_code c \<noteq> command_code PmOperation \<Longrightarrow> emits_only (tps_log lg) (write_voltage B c v) no_operation"
  unfolding write_voltage_def
  by (intro emits_only_bind write_only_no_operation reads_no_operation encode_voltage_only)

lemma config_steps_only: "m \<in> set (config_steps B cfg) \<Longrightarrow> emits_only (tps_log lg) m no_operation"
  unfolding config_steps_def
  by (simp, elim disjE; simp only:; intro emits_only_when write_only_no_operation write_voltage_only; simp)

lemma write_config_only: "emits_only (tps_log lg) (write_config B) no_operation"
proof -
  have "emits_only (tps_log lg) (hseq (config_steps B cfg)) no_operation" for cfg
    by (intro emits_only_seq config_steps_only)
  then show ?thesis by (simp add: emits_only_def emits_def write_config_def)
qed

lemma verify_reads: "emits (tps_log lg) (verify_device_id B) (\<lambda>es _. reads es)"
proof -
  have "emits_only (tps_log lg) (verify_device_id B) is_read"
    unfolding verify_device_id_def by (intro emits_only_bind reads_only emits_only_if emits_only_ret) simp
  then show ?thesis by (simp add: emits_only_def reads_def)
qed

lemma init_emits: "emits (tps_log lg) (tps_init B) (\<lambda>es _. init_log es)"
proof -
  let ?rest = "hseq [write_byte B PmOnOffConfig on_off_config_all, hdrop (read_byte B PmVoutMode), write_config B,
     hdrop (read_word B PmStatusWord)]"
  have "emits_only (tps_log lg) ?rest no_operation"
    by (rule emits_only_seq)
       (auto intro: write_only_no_operation reads_no_operation hdrop_only reads_only write_config_only)
  then have rest: "emits (tps_log lg) ?rest (\<lambda>es _. list_all no_operation es)" by (simp add: emits_only_def)
  have w: "list_all no_operation es \<Longrightarrow> list_all no_operation (writes es)" for es
    using set_writes [of es] by (auto simp: list_all_iff)
  have off: "emits (tps_log lg) (hthen (write_byte B PmOperation (operation_code OffImmediate)) ?rest)
      (\<lambda>es _. \<exists>rest. es = switch_off # rest \<and> list_all no_operation rest)"
    unfolding hthen_def by (rule emits_bind [OF write_emits(1) rest]) (auto simp: switch_off_def)
  show ?thesis
    unfolding tps_init_def hseq.simps(2) [of "verify_device_id B"] hseq.simps(2) [of "write_byte B PmOperation _"] hthen_def
    by (rule emits_bind [OF verify_reads off [unfolded hthen_def]])
       (auto simp: init_log_def reads_def intro: w)
qed

end

context i2c_bus
begin

lemma hdrop_later: "moves_by (tps_later lg) m \<Longrightarrow> moves_by (tps_later lg) (hdrop m)"
  unfolding hdrop_def by (rule moves_tps(3)) (auto intro: moves_tps(1))

lemma config_steps_later: "m \<in> set (config_steps B cfg) \<Longrightarrow> moves_by (tps_later lg) m"
  unfolding config_steps_def
  by (simp, elim disjE; simp only:; intro moves_tps(6) access_later write_voltage_later)

lemma write_config_later: "moves_by (tps_later lg) (write_config B)"
  using moves_seq [OF later_refl later_trans config_steps_later] by (simp add: moves_by_def write_config_def)

lemma init_steps_later:
  "m \<in> set [verify_device_id B, write_byte B PmOperation (operation_code OffImmediate),
     write_byte B PmOnOffConfig on_off_config_all, hdrop (read_byte B PmVoutMode), write_config B,
     hdrop (read_word B PmStatusWord)] \<Longrightarrow> moves_by (tps_later lg) m"
proof -
  have "moves_by (tps_later lg) (verify_device_id B)"
    unfolding verify_device_id_def by (rule moves_tps(3)) (auto intro: access_later moves_tps(1,2))
  then show "m \<in> set [verify_device_id B, write_byte B PmOperation (operation_code OffImmediate),
     write_byte B PmOnOffConfig on_off_config_all, hdrop (read_byte B PmVoutMode), write_config B,
     hdrop (read_word B PmStatusWord)] \<Longrightarrow> moves_by (tps_later lg) m"
    by (auto intro: access_later hdrop_later read_later write_config_later)
qed

lemma write_voltage_done:
  assumes "write_voltage B c v s = (Inr (), t)"
  shows "\<exists>mode w pre. tp_cached_vout_mode t = Some mode \<and> \<bar>decode_linear16 mode w - v\<bar> \<le> 2 powi vout_exponent mode / 2 \<and>
    tps_log lg t = tps_log lg s @ pre @ [reg_write c (to_le 2 w)]"
proof -
  obtain w u where u: "encode_voltage B v s = (Inr w, u)" "write_word B c w u = (Inr (), t)"
    using assms unfolding write_voltage_def hbind_Inr by blast
  obtain mode where m: "tp_cached_vout_mode u = Some mode" "\<bar>decode_linear16 mode w - v\<bar> \<le> 2 powi vout_exponent mode / 2"
    using encode_voltage_value [OF u(1)] by blast
  have "tps_later lg u t" using access_later(3) u(2) unfolding moves_by_def by (metis snd_conv)
  moreover obtain pre where "tps_log lg u = tps_log lg s @ pre"
    using emitsD [OF encode_voltage_only [unfolded emits_only_def], of v s] u(1) by auto
  moreover have "tps_log lg t = tps_log lg u @ [reg_write c (to_le 2 w)]"
    using emitsD [OF write_emits(2), of c w u] u(2) by auto
  ultimately show ?thesis using m by (intro exI [of _ mode] exI [of _ w] exI [of _ pre]) (simp add: tps_later_def)
qed

lemma steps_done:
  assumes "hseq ms s = (Inr (), t)" "\<And>m. m \<in> set ms \<Longrightarrow> moves_by (tps_later lg) m" "m \<in> set ms"
  shows "\<exists>u v. tps_later lg s u \<and> m u = (Inr (), v) \<and> tps_later lg v t"
  by (rule hseq_success [where R = "tps_later lg" and ms = ms])
     (fact later_refl, erule (1) later_trans, fact assms(2), fact assms(1), fact assms(3))

lemma init_protected:
  assumes "tps_init B s = (Inr (), t)" "(c, v) \<in> set (voltage_settings (tp_config s))"
  shows "\<exists>mode w es. tp_cached_vout_mode t = Some mode \<and> \<bar>decode_linear16 mode w - v\<bar> \<le> 2 powi vout_exponent mode / 2 \<and>
    tps_log lg t = tps_log lg s @ es \<and> reg_write c (to_le 2 w) \<in> set es"
proof -
  obtain u x where u: "tps_later lg s u" "write_config B u = (Inr (), x)" "tps_later lg x t"
    using steps_done [OF assms(1) [unfolded tps_init_def] init_steps_later] by (meson list.set_intros)
  have "tp_config u = tp_config s" using u(1) by (simp add: tps_later_def)
  then have "write_voltage B c v \<in> set (config_steps B (tp_config u))"
    using assms(2) by (auto simp: voltage_settings_def config_steps_def)
  moreover have q: "hseq (config_steps B (tp_config u)) u = (Inr (), x)" using u(2) by (simp add: write_config_def)
  ultimately obtain y z where y: "tps_later lg u y" "write_voltage B c v y = (Inr (), z)" "tps_later lg z x"
    using steps_done [OF q config_steps_later [where cfg = "tp_config u"]] by blast
  obtain mode w pre where w: "tp_cached_vout_mode z = Some mode"
    "\<bar>decode_linear16 mode w - v\<bar> \<le> 2 powi vout_exponent mode / 2"
    "tps_log lg z = tps_log lg y @ pre @ [reg_write c (to_le 2 w)]"
    using write_voltage_done [OF y(2)] by blast
  have "tps_later lg s y" "tps_later lg z t" using u(1,3) y(1,3) later_trans by blast+
  then have "tp_cached_vout_mode t = Some mode" "prefix (tps_log lg s) (tps_log lg y)" "prefix (tps_log lg z) (tps_log lg t)"
    using w(1) by (simp_all add: tps_later_def)
  then show ?thesis using w(2,3) by (auto simp: prefix_def)
qed

end

text \<open>
  C33: Initialising the regulator never switches the output on, whatever the device answers: the first
  register written is OPERATION, with the code for off, and it is not written again. When the
  initialisation succeeds, every voltage of the configuration, the fault limits included, was
  written within half a unit of the mode the driver keeps.
\<close>

theorem init_keeps_output_off:
  fixes s t :: "'d channel tps546" and L :: "'d line"
  assumes "tps_init (bitaxe_i2c L) s = (r, t)"
  shows "\<exists>es. i2c_log (tp_bus t) = i2c_log (tp_bus s) @ es \<and> init_log es \<and>
    (r = Inr () \<longrightarrow> (\<exists>mode. tp_cached_vout_mode t = Some mode \<and>
      (\<forall>(c, v) \<in> set (voltage_settings (tp_config s)).
         \<exists>w. reg_write c (to_le 2 w) \<in> set es \<and> \<bar>decode_linear16 mode w - v\<bar> \<le> 2 powi vout_exponent mode / 2)))"
proof -
  obtain es where es: "i2c_log (tp_bus t) = i2c_log (tp_bus s) @ es" "init_log es"
    using emitsD [OF bitaxe.init_emits, of L s] assms by (auto simp: tps_log_def)
  have "\<exists>mode w. tp_cached_vout_mode t = Some mode \<and> reg_write c (to_le 2 w) \<in> set es \<and>
      \<bar>decode_linear16 mode w - v\<bar> \<le> 2 powi vout_exponent mode / 2"
    if "r = Inr ()" "(c, v) \<in> set (voltage_settings (tp_config s))" for c v
    using bitaxe.init_protected [OF assms [unfolded that(1)] that(2)] es(1) unfolding tps_log_def by (metis same_append_eq)
  note written = this
  have "\<exists>mode. tp_cached_vout_mode t = Some mode \<and>
      (\<forall>(c, v) \<in> set (voltage_settings (tp_config s)).
         \<exists>w. reg_write c (to_le 2 w) \<in> set es \<and> \<bar>decode_linear16 mode w - v\<bar> \<le> 2 powi vout_exponent mode / 2)"
    if r: "r = Inr ()"
  proof -
    have "(PmVoutCommand, cf_vout_command (tp_config s)) \<in> set (voltage_settings (tp_config s))"
      by (simp add: voltage_settings_def)
    from written [OF r this] obtain mode where mode: "tp_cached_vout_mode t = Some mode" by blast
    have "\<exists>w. reg_write c (to_le 2 w) \<in> set es \<and> \<bar>decode_linear16 mode w - v\<bar> \<le> 2 powi vout_exponent mode / 2"
      if "(c, v) \<in> set (voltage_settings (tp_config s))" for c v
      using written [OF r that] unfolding mode by blast
    then show ?thesis using mode by blast
  qed
  then show ?thesis using es by blast
qed

text \<open>A regulator that answers every request, with the identity of a TPS546D24A.\<close>

definition tps_reply :: "u8 list \<Rightarrow> u8 list" where
  "tps_reply request =
    (if request ! 5 \<noteq> i2c_command_byte I2cWriteRead then []
     else if last request = 7 then [6, 0x54, 0x49, 0x54, 0x6B, 0x24, 0x41]
     else replicate (unat (last request)) 0x17)"

definition tps_line :: "u8 list line" where
  "tps_line =
    \<lparr>ln_send = \<lambda>bs d. (None, bs),
     ln_next = \<lambda>d. (NextResponse \<lparr>rs_id = d ! 2, rs_data = tps_reply d, rs_error = None\<rparr>, d)\<rparr>"

text \<open>What an operation gives and keeps in the states of an invariant.\<close>

definition hw_ok :: "('s \<Rightarrow> bool) \<Rightarrow> ('e, 's, 'a) hw \<Rightarrow> ('a \<Rightarrow> bool) \<Rightarrow> bool" where
  "hw_ok I m P \<longleftrightarrow> (\<forall>s. I s \<longrightarrow> (\<exists>a. fst (m s) = Inr a \<and> P a) \<and> I (snd (m s)))"

lemma hw_ok_ret: "P a \<Longrightarrow> hw_ok I (hret a) P"
  by (simp add: hw_ok_def hret_def)

lemma hw_ok_bind: "hw_ok I m P \<Longrightarrow> (\<And>a. P a \<Longrightarrow> hw_ok I (f a) Q) \<Longrightarrow> hw_ok I (hbind m f) Q"
  unfolding hw_ok_def hbind_run by fastforce

lemma hw_ok_seq: "(\<And>m. m \<in> set ms \<Longrightarrow> hw_ok I m (\<lambda>_. True)) \<Longrightarrow> hw_ok I (hseq ms) (\<lambda>_. True)"
  by (induction ms) (auto simp: hthen_def intro: hw_ok_ret hw_ok_bind)

lemma hw_ok_when: "hw_ok I m (\<lambda>_. True) \<Longrightarrow> hw_ok I (hwhen b m) (\<lambda>_. True)"
  by (simp add: hwhen_def hw_ok_ret)

lemma send_packet_tps_line:
  assumes "length (pk_data p) + 6 \<le> codec_max_length"
  shows "\<exists>i. fst (send_packet tps_line p s) =
    Inr \<lparr>rs_id = i, rs_data = tps_reply (packet_encode (p\<lparr>pk_id := i\<rparr>)), rs_error = None\<rparr>"
proof -
  have "packet_encode q ! 2 = pk_id q" for q
    by (simp add: packet_encode_def nth_append)
  then show ?thesis
    using assms
    by (simp add: send_packet_def hbind_run write_packet_def control_encode_def Let_def await_id_def tps_line_def hret_def)
qed

text \<open>The states of the example: the mode is unread or the one the line answers with.\<close>

definition tps_ready :: "'s tps546 \<Rightarrow> bool" where
  "tps_ready t \<longleftrightarrow> tp_config t = bitaxe_regulator_config \<and> tp_cached_vout_mode t \<in> {None, Some 0x17}"

lemma on_bus_ok: "(\<And>s. fst (m s) = Inr a) \<Longrightarrow> P a \<Longrightarrow> hw_ok tps_ready (on_bus m) P"
  by (simp add: hw_ok_def tps_ready_def on_bus_def hzoom_def hmaperr_def split_beta)

definition tps_bytes :: "nat \<Rightarrow> u8 list" where
  "tps_bytes n = (if n = 7 then [6, 0x54, 0x49, 0x54, 0x6B, 0x24, 0x41] else replicate n 0x17)"

lemma bus_write_tps_line: "length bs < 256 \<Longrightarrow> fst (bus_write (bitaxe_i2c tps_line) a bs s) = Inr ()"
  using send_packet_tps_line [of "packet_new PageI2C (i2c_command_byte I2cWrite) (a # bs)" s]
  by (auto simp: bitaxe_i2c_def i2c_write_def hbind_run hmaperr_def hret_def packet_new_def codec_max_length_def)

lemma bus_read_tps_line:
  assumes "n < 256"
  shows "fst (bus_write_read (bitaxe_i2c tps_line) a [c] n s) = Inr (tps_bytes n)"
proof -
  have "tps_reply (packet_encode (packet_new PageI2C (i2c_command_byte I2cWriteRead) [a, c, word_of_nat n]\<lparr>pk_id := i\<rparr>))
      = tps_bytes n" for i
  proof -
    have u: "unat (word_of_nat n :: u8) = n" using assms by (simp add: unat_word_of_nat)
    have "(word_of_nat n :: u8) = 7 \<longleftrightarrow> n = 7"
    proof
      assume "(word_of_nat n :: u8) = 7"
      with u show "n = 7" by simp
    qed simp
    then show ?thesis
      using assms by (simp add: tps_reply_def tps_bytes_def packet_encode_def packet_new_def nth_append unat_word_of_nat)
  qed
  then show ?thesis
    using send_packet_tps_line [of "packet_new PageI2C (i2c_command_byte I2cWriteRead) [a, c, word_of_nat n]" s]
    by (auto simp: bitaxe_i2c_def i2c_write_read_def hbind_run hmaperr_def read_into_def hret_def packet_new_def
        codec_max_length_def tps_bytes_def)
qed

lemma access_ok:
  "hw_ok tps_ready (write_byte (bitaxe_i2c tps_line) c x) (\<lambda>_. True)"
  "hw_ok tps_ready (write_word (bitaxe_i2c tps_line) c w) (\<lambda>_. True)"
  "n < 256 \<Longrightarrow> hw_ok tps_ready (read_bytes (bitaxe_i2c tps_line) c n) (\<lambda>r. r = tps_bytes n)"
  "hw_ok tps_ready (read_byte (bitaxe_i2c tps_line) c) (\<lambda>r. r = 0x17)"
  "hw_ok tps_ready (read_word (bitaxe_i2c tps_line) c) (\<lambda>_. True)"
proof -
  show "hw_ok tps_ready (write_byte (bitaxe_i2c tps_line) c x) (\<lambda>_. True)"
    "hw_ok tps_ready (write_word (bitaxe_i2c tps_line) c w) (\<lambda>_. True)"
    unfolding write_byte_def write_word_def by (rule on_bus_ok [OF bus_write_tps_line]; simp)+
  show r: "n < 256 \<Longrightarrow> hw_ok tps_ready (read_bytes (bitaxe_i2c tps_line) c n) (\<lambda>r. r = tps_bytes n)" for n
    unfolding read_bytes_def by (rule on_bus_ok [OF bus_read_tps_line]) simp_all
  show "hw_ok tps_ready (read_byte (bitaxe_i2c tps_line) c) (\<lambda>r. r = 0x17)"
    "hw_ok tps_ready (read_word (bitaxe_i2c tps_line) c) (\<lambda>_. True)"
    unfolding read_byte_def read_word_def by (rule hw_ok_bind [OF r]; simp add: tps_bytes_def hw_ok_ret)+
qed

lemma vout_mode_ok: "hw_ok tps_ready (get_vout_mode (bitaxe_i2c tps_line)) (\<lambda>r. r = 0x17)"
  unfolding hw_ok_def
proof (intro allI impI)
  fix s :: "u8 list channel tps546"
  assume s: "tps_ready s"
  have "fst (read_byte (bitaxe_i2c tps_line) PmVoutMode s) = Inr 0x17"
    "tps_ready (snd (read_byte (bitaxe_i2c tps_line) PmVoutMode s))"
    using access_ok(4) [of PmVoutMode] s by (auto simp: hw_ok_def)
  then show "(\<exists>a. fst (get_vout_mode (bitaxe_i2c tps_line) s) = Inr a \<and> a = 0x17) \<and>
      tps_ready (snd (get_vout_mode (bitaxe_i2c tps_line) s))"
    using s by (cases "read_byte (bitaxe_i2c tps_line) PmVoutMode s")
      (auto simp: get_vout_mode_alt tps_ready_def)
qed

lemma write_voltage_ok:
  assumes "\<not> isl (encode_linear16 0x17 v)"
  shows "hw_ok tps_ready (write_voltage (bitaxe_i2c tps_line) c v) (\<lambda>_. True)"
  unfolding write_voltage_def encode_voltage_def
  by (rule hw_ok_bind [OF hw_ok_bind [OF vout_mode_ok, where Q = "\<lambda>_. True"]])
     (use assms in \<open>auto simp: access_ok hw_ok_ret split: sum.split\<close>)

lemma config_voltages_encode: "list_all (\<lambda>(c, v). \<not> isl (encode_linear16 0x17 v)) (voltage_settings bitaxe_regulator_config)"
  by code_simp

lemma write_config_ok: "hw_ok tps_ready (write_config (bitaxe_i2c tps_line)) (\<lambda>_. True)"
proof -
  have "hw_ok tps_ready m (\<lambda>_. True)"
    if "m \<in> set (config_steps (bitaxe_i2c tps_line) bitaxe_regulator_config)" for m
    using that config_voltages_encode unfolding config_steps_def voltage_settings_def
    by (simp, elim disjE; simp only:; intro hw_ok_when access_ok write_voltage_ok; simp)
  then have "hw_ok tps_ready (hseq (config_steps (bitaxe_i2c tps_line) bitaxe_regulator_config)) (\<lambda>_. True)"
    by (rule hw_ok_seq)
  then show ?thesis by (simp add: hw_ok_def write_config_def tps_ready_def)
qed

lemma tps_init_ok: "hw_ok tps_ready (tps_init (bitaxe_i2c tps_line)) (\<lambda>_. True)"
proof -
  have drop: "hw_ok tps_ready (hdrop m) (\<lambda>_. True)" if "hw_ok tps_ready m P" for m :: "(u8 list channel, 'a) on_tps" and P
    unfolding hdrop_def by (rule hw_ok_bind [OF that]) (simp add: hw_ok_ret)
  have verify: "hw_ok tps_ready (verify_device_id (bitaxe_i2c tps_line)) (\<lambda>_. True)"
    unfolding verify_device_id_def
    by (rule hw_ok_bind [OF access_ok(3)]) (simp_all add: tps_bytes_def tps_device_ids_def hw_ok_ret)
  show ?thesis
    unfolding tps_init_def
    by (rule hw_ok_seq) (auto intro: verify access_ok write_config_ok drop [OF access_ok(4)] drop [OF access_ok(5)])
qed

theorem init_keeps_output_off_witness:
  "\<exists>t. tps_init (bitaxe_i2c tps_line) (tps546_new (idle_channel []) bitaxe_regulator_config) = (Inr (), t) \<and>
     init_log (i2c_log (tp_bus t)) \<and>
     (\<exists>mode w. tp_cached_vout_mode t = Some mode \<and> reg_write PmVoutMax (to_le 2 w) \<in> set (i2c_log (tp_bus t)) \<and>
        \<bar>decode_linear16 mode w - 2\<bar> \<le> 2 powi vout_exponent mode / 2)"
proof -
  let ?s = "tps546_new (idle_channel []) bitaxe_regulator_config"
  have "tps_ready ?s" by (simp add: tps_ready_def tps546_new_def)
  then obtain t where t: "tps_init (bitaxe_i2c tps_line) ?s = (Inr (), t)"
    using tps_init_ok by (auto simp: hw_ok_def prod_eq_iff)
  have "(PmVoutMax, 2) \<in> set (voltage_settings (tp_config ?s))"
    by (simp add: voltage_settings_def tps546_new_def bitaxe_regulator_config_def)
  then show ?thesis
    using init_keeps_output_off [OF t] t by (fastforce simp: tps546_new_def)
qed

section \<open>The status check\<close>












lemma contains_0 [simp]: "contains 0 f \<longleftrightarrow> f = 0"
  by (auto simp: contains_def)



end
