(* ===== verification/Bitaxe_Properties.thy ===== *)
theory Bitaxe_Properties
  imports Bitaxe_Board Tps546_Properties
begin

text \<open>
  The board: what its operations put on the control channel, when the monitor gives up and
  how it leaves the chips and the core voltage, and the order of the bring-up.
\<close>

section \<open>The channel of the board\<close>

definition board_log :: "'d bitaxe_state \<Rightarrow> i2c_op list" where
  "board_log s = i2c_log (tp_bus (bx_regulator s))"

definition nrst :: "pin_value \<Rightarrow> i2c_op" where
  "nrst v = OpOther PageGPIO asic_reset_pin [case v of High \<Rightarrow> 1 | Low \<Rightarrow> 0]"

definition fan_write :: "percent \<Rightarrow> i2c_op" where
  "fan_write p = OpWrite emc_address [0x4C, percent_of p pwm_max]"

text \<open>Everything but the regulator.\<close>

definition same_board :: "'d bitaxe_state \<Rightarrow> 'd bitaxe_state \<Rightarrow> bool" where
  "same_board s t \<longleftrightarrow> (\<exists>r. t = s\<lparr>bx_regulator := r\<rparr>)"

lemma same_refl: "same_board s s"
  by (auto simp: same_board_def intro: exI [of _ "bx_regulator s"])

lemma same_trans: "same_board s t \<Longrightarrow> same_board t u \<Longrightarrow> same_board s u"
  by (auto simp: same_board_def)

lemma same_board_fields:
  "same_board s t \<Longrightarrow> bx_bad_thermal_count t = bx_bad_thermal_count s \<and> bx_enabled_since t = bx_enabled_since s \<and>
    bx_shutdown_sent t = bx_shutdown_sent s \<and> bx_published t = bx_published s"
  by (auto simp: same_board_def)

lemma zoom_same: "moves_by same_board (on_regulator m)" "moves_by same_board (on_board_channel n)"
  by (auto simp: moves_by_def on_regulator_def on_board_channel_def hzoom_def hmaperr_def set_board_channel_def
      same_board_def split_beta)

lemmas moves_same = moves_ret [of same_board, OF same_refl] moves_bind [of same_board, OF same_trans]
  moves_attempt moves_when [of same_board, OF same_refl] zoom_same

lemma hok_same: "moves_by same_board m \<Longrightarrow> moves_by same_board (hok m)"
  and htry_same: "moves_by same_board m \<Longrightarrow> moves_by same_board (htry m)"
  unfolding hok_def htry_def by (intro moves_same; simp)+

lemma on_board_emits:
  assumes "emits i2c_log m X" "\<And>es r. X es r \<Longrightarrow> Y es (map_sum BoardHw id r)"
  shows "emits board_log (on_board_channel m) Y"
  unfolding on_board_channel_def
  by (rule emits_zoom, rule emits_maperr, rule assms(1), erule assms(2)) (simp_all add: board_log_def set_board_channel_def)

lemma on_regulator_emits:
  assumes "emits (tps_log i2c_log) m X" "\<And>es r. X es r \<Longrightarrow> Y es (map_sum BoardRegulator id r)"
  shows "emits board_log (on_regulator m) Y"
  unfolding on_regulator_def
  by (rule emits_zoom, rule emits_maperr, rule assms(1), erule assms(2)) (simp_all add: board_log_def tps_log_def)

lemma gpio_write_emits: "emits i2c_log (gpio_write L n v) (\<lambda>es _. es = [OpOther PageGPIO n [case v of High \<Rightarrow> 1 | Low \<Rightarrow> 0]])"
proof -
  let ?p = "packet_new PageGPIO n [case v of High \<Rightarrow> 0x01 | Low \<Rightarrow> 0x00]"
  have "emits ch_log (gpio_write L n v) (\<lambda>es r. (\<exists>i. es = [?p\<lparr>pk_id := i\<rparr>]) \<and> True)"
    unfolding gpio_write_def
    by (intro emits_bind_result maperr_send_emits)
       (auto simp: packet_new_def codec_max_length_def intro!: emits_ret)
  then have "emits i2c_log (gpio_write L n v) (\<lambda>es r. es = [OpOther PageGPIO n [case v of High \<Rightarrow> 1 | Low \<Rightarrow> 0]] \<and> True)"
    by (rule emits_i2c_log) (simp add: i2c_op_of_def packet_new_def split: pin_value.split)
  then show ?thesis by simp
qed

lemma write_nrst_emits: "emits board_log (write_nrst L v) (\<lambda>es _. es = [nrst v])"
  unfolding write_nrst_def nrst_def by (rule on_board_emits [OF gpio_write_emits]) simp

lemma state_emits: "(\<And>s. board_log (f s) = board_log s) \<Longrightarrow> emits board_log (\<lambda>s. (Inr a, f s)) (\<lambda>es _. es = [])"
  by (simp add: emits_def)

lemma asic_emits:
  "emits board_log (asic_enable L now) (\<lambda>es _. es = [nrst High])" "emits board_log (asic_disable L) (\<lambda>es _. es = [nrst Low])"
  unfolding asic_enable_def asic_disable_def
  by (intro emits_bind_silent write_nrst_emits state_emits; simp add: board_log_def)+

lemma fan_to_emits: "emits board_log (fan_to L p) (\<lambda>es _. es = [fan_write p])"
  unfolding fan_to_def set_fan_speed_def emc_write_register_def fan_write_def
  by (rule on_board_emits [OF bitaxe.write_law]) simp_all

lemma htry_emits: "emits lg m (\<lambda>es _. P es) \<Longrightarrow> emits lg (htry m) (\<lambda>es _. P es)"
  unfolding htry_def by (rule emits_bind_silent [OF emits_attempt]) (auto intro: emits_ret)

lemma hthen_emits_exact:
  "emits lg m (\<lambda>es _. es = xs) \<Longrightarrow> (\<And>s. fst (m s) = Inr a) \<Longrightarrow> emits lg n (\<lambda>es _. es = ys) \<Longrightarrow>
    emits lg (hthen m n) (\<lambda>es _. es = xs @ ys)"
  by (simp add: emits_def hthen_def hbind_run)

lemma htry_Inr [simp]: "fst (htry m s) = Inr ()"
  by (simp add: htry_def hbind_run hattempt_def hret_def)

lemma set_vout_off_emits: "emits (tps_log i2c_log) (set_vout (bitaxe_i2c L) 0) (\<lambda>es _. es = [switch_off])"
proof -
  have "set_vout (bitaxe_i2c L) 0 = write_byte (bitaxe_i2c L) PmOperation (operation_code OffImmediate)"
    by (simp add: set_vout_def fun_eq_iff)
  then show ?thesis using bitaxe.write_emits(1) [of L PmOperation "operation_code OffImmediate"] by (simp add: switch_off_def)
qed

section \<open>Powering down\<close>

lemma shutdown_emits: "emits board_log (board_shutdown L) (\<lambda>es _. es = [nrst Low, switch_off])"
proof -
  have off: "emits board_log (htry (on_regulator (set_vout (bitaxe_i2c L) 0))) (\<lambda>es _. es = [switch_off])"
    by (rule htry_emits [OF on_regulator_emits [OF set_vout_off_emits]])
  have "emits board_log (hthen (htry (on_regulator (set_vout (bitaxe_i2c L) 0))) (hret ())) (\<lambda>es _. es = [switch_off] @ [])"
    by (rule hthen_emits_exact [OF off htry_Inr]) (simp add: emits_ret)
  from hthen_emits_exact [OF htry_emits [OF asic_emits(2)] htry_Inr this]
  have "emits board_log (hthen (htry (asic_disable L)) (hseq [htry (on_regulator (set_vout (bitaxe_i2c L) 0))]))
      (\<lambda>es _. es = [nrst Low] @ [switch_off] @ [])" by simp
  from hthen_emits_exact [OF state_emits _ this, of "\<lambda>s. s\<lparr>bx_shutdown_sent := True\<rparr>" "()" "()"]
  show ?thesis by (simp add: board_shutdown_def board_log_def)
qed

lemma shutdown_Inr: "fst (board_shutdown L s) = Inr ()"
  by (simp add: board_shutdown_def hthen_def hbind_run hret_def)

section \<open>Observing\<close>

text \<open>The transactions of a monitoring cycle: reads, the selection of all phases and the clearing of faults.\<close>

definition observing :: "i2c_op \<Rightarrow> bool" where
  "observing p \<longleftrightarrow> is_read p \<or> p = reg_write PmPhase [0xFF] \<or> p = reg_write PmClearFaults []"

context i2c_bus
begin

lemma reads_observe: "emits_only (tps_log lg) m is_read \<Longrightarrow> emits_only (tps_log lg) m observing"
  by (erule emits_only_mono) (simp add: observing_def)

lemma clear_faults_observes: "emits_only (tps_log lg) (clear_faults B) observing"
  unfolding emits_only_def by (rule emits_weaken [OF write_emits(3)]) (simp add: observing_def)

lemma readings_observe:
  "emits_only (tps_log lg) (get_vin B) observing" "emits_only (tps_log lg) (get_vout B) observing"
  "emits_only (tps_log lg) (get_iout B) observing" "emits_only (tps_log lg) (get_temperature B) observing"
  "emits_only (tps_log lg) (get_power B) observing"
proof -
  note r = reads_observe [OF reads_only(3)]
  have phase: "emits_only (tps_log lg) (write_byte B PmPhase 0xFF) observing"
    unfolding emits_only_def by (rule emits_weaken [OF write_emits(1)]) (simp add: observing_def)
  show "emits_only (tps_log lg) (get_vin B) observing" "emits_only (tps_log lg) (get_temperature B) observing"
    unfolding get_vin_def get_temperature_def by (intro emits_only_bind r emits_only_ret)+
  show vout: "emits_only (tps_log lg) (get_vout B) observing"
    unfolding get_vout_def by (intro emits_only_bind r reads_observe [OF decode_voltage_only] emits_only_ret)
  show iout: "emits_only (tps_log lg) (get_iout B) observing"
    unfolding get_iout_def by (intro emits_only_bind phase r emits_only_ret)
  show "emits_only (tps_log lg) (get_power B) observing"
    unfolding get_power_def by (intro emits_only_bind vout iout emits_only_ret)
qed

lemma collect_only: "(\<And>m. m \<in> set ms \<Longrightarrow> emits_only l m P) \<Longrightarrow> emits_only l (collect ms) P"
  by (induction ms) (auto intro: emits_only_bind emits_only_ret)

lemma check_status_observes: "emits_only (tps_log lg) (check_status B) observing"
proof -
  note r = reads_observe [OF reads_only(2)]
  have drop: "emits_only (tps_log lg) (hdrop (hattempt m)) observing" if "emits_only (tps_log lg) m observing"
    for m :: "('s, 'b) on_tps"
    unfolding hdrop_def by (intro emits_only_bind emits_only_attempt that emits_only_ret)
  have diag: "emits_only (tps_log lg) (off_diagnostics B) observing"
    unfolding off_diagnostics_def by (rule emits_only_seq) (auto intro: drop r readings_observe)
  have f: "emits_only (tps_log lg) (fault_in B st flag c critical label decode) observing" for st flag c critical label decode
    unfolding fault_in_def by (intro emits_only_if emits_only_bind r emits_only_ret)
  have "emits_only (tps_log lg) (off_fault B st) observing" for st
    unfolding off_fault_def by (intro emits_only_if emits_only_bind diag emits_only_ret)
  then have "emits_only (tps_log lg) (critical_faults B st) observing" for st
    unfolding critical_faults_def by (intro collect_only) (auto intro: f)
  then show ?thesis
    unfolding check_status_def by (intro emits_only_bind emits_only_if reads_observe [OF reads_only(3)] emits_only_ret)
qed

end

lemma board_only:
  "emits_only i2c_log n P \<Longrightarrow> emits_only board_log (on_board_channel n) P"
  "emits_only (tps_log i2c_log) m P \<Longrightarrow> emits_only board_log (on_regulator m) P"
  unfolding emits_only_def by (erule on_board_emits on_regulator_emits; assumption)+

lemma hok_only: "emits_only l m P \<Longrightarrow> emits_only l (hok m) P"
  and htry_only: "emits_only l m P \<Longrightarrow> emits_only l (htry m) P"
  unfolding hok_def htry_def by (intro emits_only_bind emits_only_attempt emits_only_ret; assumption)+

lemma fan_reads_observe:
  "emits_only i2c_log (get_external_temperature (bitaxe_i2c L) emc_address) observing"
  "emits_only i2c_log (get_fan_speed (bitaxe_i2c L) emc_address) observing"
  "emits_only i2c_log (get_rpm (bitaxe_i2c L) emc_address) observing"
proof -
  have r: "emits_only i2c_log (emc_read_register (bitaxe_i2c L) a reg) observing" for a reg
    unfolding emc_read_register_def
    by (intro emits_only_bind emits_only_ret bitaxe.read_only) (simp_all add: observing_def)
  have "emits_only i2c_log (case x of Inl e \<Rightarrow> hthrow e | Inr t \<Rightarrow> hret t) observing" for x :: "hw_error + rat"
    by (cases x) (simp_all add: emits_only_ret)
  then show "emits_only i2c_log (get_external_temperature (bitaxe_i2c L) emc_address) observing"
    unfolding get_external_temperature_def by (intro emits_only_bind r)
  show "emits_only i2c_log (get_fan_speed (bitaxe_i2c L) emc_address) observing"
    "emits_only i2c_log (get_rpm (bitaxe_i2c L) emc_address) observing"
    unfolding get_fan_speed_def get_rpm_def get_tach_count_def by (intro emits_only_bind r emits_only_ret)+
qed

lemma check_regulator_observes: "emits_only board_log (check_regulator L) observing"
  unfolding check_regulator_def
  by (intro emits_only_bind emits_only_attempt emits_only_when htry_only board_only
      bitaxe.check_status_observes bitaxe.clear_faults_observes)

lemma read_sensors_observe: "emits_only board_log (read_sensors L) observing"
  unfolding read_sensors_def Let_def
  by (intro emits_only_bind emits_only_attempt hok_only board_only check_regulator_observes
      fan_reads_observe bitaxe.readings_observe emits_only_ret)

lemma read_sensors_same: "moves_by same_board (read_sensors L)"
  unfolding read_sensors_def Let_def check_regulator_def
  by (intro moves_same hok_same htry_same)

lemma hok_run: "fst (hok m s) = Inr (case fst (m s) of Inr a \<Rightarrow> Some a | Inl _ \<Rightarrow> None)" "snd (hok m s) = snd (m s)"
  by (simp_all add: hok_def hbind_run hattempt_def hret_def)

lemma check_regulator_Inr: "fst (check_regulator L s) = Inr ()"
  by (simp add: check_regulator_def hbind_run hattempt_def hwhen_def hret_def)

lemma read_sensors_Inr: "\<exists>raw readings t. read_sensors L s = (Inr (raw, readings), t) \<and> same_board s t"
proof -
  have "\<exists>x. fst (read_sensors L s) = Inr x"
    unfolding read_sensors_def Let_def
    by (simp add: hbind_run hok_run check_regulator_Inr hret_def hattempt_def)
  then show ?thesis
    using read_sensors_same [of L] unfolding moves_by_def by (metis prod.collapse surj_pair)
qed

section \<open>The end of the monitor\<close>

text \<open>Whether the temperature of a cycle is bad: the chips are enabled, and it is missing or not below 80.\<close>

definition tick_bad :: "'d line \<Rightarrow> nat \<Rightarrow> 'd bitaxe_state \<Rightarrow> bool" where
  "tick_bad L now s \<longleftrightarrow>
    (case read_sensors L s of
       (Inr (raw_temp, _), _) \<Rightarrow>
         diode_ready now (bx_enabled_since s) \<and> (case raw_temp of Inr t \<Rightarrow> \<not> (0 \<le> t \<and> t < 80) | Inl _ \<Rightarrow> True)
     | _ \<Rightarrow> False)"

lemma classify_count:
  "snd (classify_temperature ready raw bad) =
    (if ready \<and> (case raw of Inr t \<Rightarrow> \<not> (0 \<le> t \<and> t < 80) | Inl _ \<Rightarrow> True) then bad + 1 else 0)"
  by (cases raw) (auto simp: classify_temperature_def)

lemma monitor_tick_run:
  fixes L :: "'d line" and now :: nat
  assumes "read_sensors L s = (Inr (raw, readings), t)"
  defines "c \<equiv> classify_temperature (diode_ready now (bx_enabled_since s)) raw (bx_bad_thermal_count s)"
  shows "monitor_tick L now s =
    (if bad_reading_limit \<le> snd c
     then (Inl (ThermalEmergency (snd c)), snd ((htry (fan_to L 100) :: ('d, unit) on_board) (t\<lparr>bx_bad_thermal_count := snd c\<rparr>)))
     else (Inr (), t\<lparr>bx_bad_thermal_count := snd c, bx_published := bx_published t @ [readings\<lparr>bt_asic_temp := fst c\<rparr>]\<rparr>))"
proof -
  have "same_board s t" using read_sensors_same [of L] assms(1) unfolding moves_by_def by (metis snd_conv)
  then have "bx_enabled_since t = bx_enabled_since s" "bx_bad_thermal_count t = bx_bad_thermal_count s"
    using same_board_fields by blast+
  then show ?thesis
    by (simp add: monitor_tick_def hbind_def assms(1) c_def hthen_def hthrow_def htry_def hattempt_def hret_def Let_def split_beta)
qed

lemma fan_to_keeps:
  "bx_bad_thermal_count (snd ((htry (fan_to L p) :: ('d, unit) on_board) u)) = bx_bad_thermal_count u"
  "bx_enabled_since (snd ((htry (fan_to L p) :: ('d, unit) on_board) u)) = bx_enabled_since u"
  "bx_shutdown_sent (snd ((htry (fan_to L p) :: ('d, unit) on_board) u)) = bx_shutdown_sent u"
  "board_log (snd ((htry (fan_to L p) :: ('d, unit) on_board) u)) = board_log u @ [fan_write p]"
proof -
  have "same_board u (snd ((htry (fan_to L p) :: ('d, unit) on_board) u))"
    using htry_same [OF zoom_same(2)] unfolding moves_by_def fan_to_def by blast
  then show "bx_bad_thermal_count (snd ((htry (fan_to L p) :: ('d, unit) on_board) u)) = bx_bad_thermal_count u"
    "bx_enabled_since (snd ((htry (fan_to L p) :: ('d, unit) on_board) u)) = bx_enabled_since u"
    "bx_shutdown_sent (snd ((htry (fan_to L p) :: ('d, unit) on_board) u)) = bx_shutdown_sent u"
    using same_board_fields by blast+
  have "emits board_log (htry (fan_to L p) :: ('d, unit) on_board) (\<lambda>es _. es = [fan_write p])"
    by (rule htry_emits [OF fan_to_emits])
  then show "board_log (snd ((htry (fan_to L p) :: ('d, unit) on_board) u)) = board_log u @ [fan_write p]"
    by (simp add: emits_def)
qed

lemma monitor_tick_verdict:
  fixes L :: "'d line" and now :: nat and s :: "'d bitaxe_state"
  defines "bad \<equiv> if tick_bad L now s then bx_bad_thermal_count s + 1 else 0"
  shows "fst (monitor_tick L now s) = (if bad_reading_limit \<le> bad then Inl (ThermalEmergency bad) else Inr ())"
    "bx_bad_thermal_count (snd (monitor_tick L now s)) = bad"
proof -
  obtain raw readings t where r: "read_sensors L s = (Inr (raw, readings), t)" using read_sensors_Inr by blast
  have b: "snd (classify_temperature (diode_ready now (bx_enabled_since s)) raw (bx_bad_thermal_count s)) = bad"
    by (simp add: classify_count bad_def tick_bad_def r)
  show "fst (monitor_tick L now s) = (if bad_reading_limit \<le> bad then Inl (ThermalEmergency bad) else Inr ())"
    "bx_bad_thermal_count (snd (monitor_tick L now s)) = bad"
    by (simp_all add: monitor_tick_run [OF r] b fan_to_keeps)
qed

text \<open>The verdicts of the cycles the monitor runs.\<close>

fun tick_verdicts :: "'d line \<Rightarrow> monitor_event list \<Rightarrow> 'd bitaxe_state \<Rightarrow> bool list" where
  "tick_verdicts L [] s = []"
| "tick_verdicts L (MonitorTick now # es) s =
    tick_bad L now s # (case monitor_tick L now s of (Inl _, _) \<Rightarrow> [] | (Inr _, t) \<Rightarrow> tick_verdicts L es t)"
| "tick_verdicts L (MonitorCancelled # es) s = []"
| "tick_verdicts L (ThreadEnables now # es) s = tick_verdicts L es (snd (asic_enable L now s))"
| "tick_verdicts L (ThreadDisables # es) s = tick_verdicts L es (snd (asic_disable L s))"

definition three_bad :: "bool list \<Rightarrow> bool" where
  "three_bad vs \<longleftrightarrow> sublist [True, True, True] vs"

lemma three_bad_Cons_False: "three_bad (replicate n True @ False # vs) \<longleftrightarrow> three_bad vs" if "n < 3"
  using that unfolding three_bad_def
  by (cases n; simp) (auto simp: numeral_3_eq_3 less_Suc_eq numeral_2_eq_2 sublist_Cons_right)

lemma three_bad_short: "n < 3 \<Longrightarrow> \<not> three_bad (replicate n True)"
  by (auto simp: three_bad_def dest: sublist_length_le)

lemma asic_state:
  "\<exists>r e. snd (asic_enable L now s) = s\<lparr>bx_regulator := r, bx_enabled_since := e\<rparr>"
  "\<exists>r e. snd (asic_disable L s) = s\<lparr>bx_regulator := r, bx_enabled_since := e\<rparr>"
proof -
  have f: "\<exists>r. snd (write_nrst L v s) = s\<lparr>bx_regulator := r\<rparr>" for v
    using zoom_same(2) unfolding moves_by_def write_nrst_def same_board_def by blast
  have g: "\<exists>r e. s\<lparr>bx_regulator := r'\<rparr> = s\<lparr>bx_regulator := r, bx_enabled_since := e\<rparr>" for r'
    by (rule exI [of _ r'], rule exI [of _ "bx_enabled_since s"]) simp
  obtain h l where hl: "snd (write_nrst L High s) = s\<lparr>bx_regulator := h\<rparr>" "snd (write_nrst L Low s) = s\<lparr>bx_regulator := l\<rparr>"
    using f by blast
  have "snd (asic_enable L now s) = s\<lparr>bx_regulator := h\<rparr> \<or>
      snd (asic_enable L now s) = s\<lparr>bx_regulator := h, bx_enabled_since := Some now\<rparr>"
    "snd (asic_disable L s) = s\<lparr>bx_regulator := l\<rparr> \<or>
      snd (asic_disable L s) = s\<lparr>bx_regulator := l, bx_enabled_since := None\<rparr>"
    unfolding asic_enable_def asic_disable_def hbind_run by (simp_all add: hl split: sum.split)
  then show "\<exists>r e. snd (asic_enable L now s) = s\<lparr>bx_regulator := r, bx_enabled_since := e\<rparr>"
    "\<exists>r e. snd (asic_disable L s) = s\<lparr>bx_regulator := r, bx_enabled_since := e\<rparr>"
    using g by metis+
qed

lemma asic_bad_count [simp]:
  "bx_bad_thermal_count (snd (asic_enable L now s)) = bx_bad_thermal_count s"
  "bx_bad_thermal_count (snd (asic_disable L s)) = bx_bad_thermal_count s"
  using asic_state(1) [of L now s] asic_state(2) [of L s] by auto

lemma monitor_fails:
  fixes L :: "'d line" and s :: "'d bitaxe_state"
  assumes "unat (bx_bad_thermal_count s) < 3"
  shows "fst (run_monitor L es s) = MonitorFailed e \<longleftrightarrow>
    e = ThermalEmergency 3 \<and> three_bad (replicate (unat (bx_bad_thermal_count s)) True @ tick_verdicts L es s)"
  using assms
proof (induction L es s rule: run_monitor.induct)
  case (2 L now es s)
  let ?n = "unat (bx_bad_thermal_count s)"
  have inc: "unat (bx_bad_thermal_count s + 1) = Suc ?n" using 2(2) by (simp add: unat_word_ariths(1))
  show ?case
  proof (cases "tick_bad L now s")
    case False
    have f: "fst (monitor_tick L now s) = Inr ()" "bx_bad_thermal_count (snd (monitor_tick L now s)) = 0"
      using monitor_tick_verdict [of L now s] False by (simp_all add: bad_reading_limit_def)
    then obtain t where t: "monitor_tick L now s = (Inr (), t)" by (metis prod.collapse)
    then show ?thesis
      using 2(1) [OF t [symmetric] refl] f(2) False three_bad_Cons_False [OF 2(2)] by simp
  next
    case True
    have c: "bx_bad_thermal_count (snd (monitor_tick L now s)) = bx_bad_thermal_count s + 1"
      and f: "fst (monitor_tick L now s) =
        (if 2 \<le> ?n then Inl (ThermalEmergency (bx_bad_thermal_count s + 1)) else Inr ())"
      using monitor_tick_verdict [of L now s] True inc by (auto simp: bad_reading_limit_def word_le_nat_alt)
    show ?thesis
    proof (cases "?n = 2")
      case n: True
      then have "bx_bad_thermal_count s + 1 = 3" using inc by (simp add: word_unat_eq_iff)
      then obtain t where "monitor_tick L now s = (Inl (ThermalEmergency 3), t)" using f n by (metis order_refl prod.collapse)
      then show ?thesis using True n by (auto simp: three_bad_def numeral_2_eq_2)
    next
      case n: False
      then obtain t where t: "monitor_tick L now s = (Inr (), t)" using f 2(2) by (metis less_Suc_eq_le numeral_3_eq_3 numeral_2_eq_2 order_antisym prod.collapse)
      show ?thesis using 2(1) [OF t [symmetric] refl] c t True n 2(2) inc by (simp add: replicate_app_Cons_same)
    qed
  qed
qed (auto simp: three_bad_short asic_bad_count)

text \<open>
  C35: From a count of zero the monitor gives up exactly when three cycles in a row were bad, and
  then for this reason. A cycle counts as bad only while the chips are enabled and settled;
  every fault of the regulator, and every failed reading but the temperature, is survived.
\<close>

theorem thermal_shutdown:
  assumes "bx_bad_thermal_count s = 0"
  shows "fst (run_monitor L es s) = MonitorFailed e \<longleftrightarrow> e = ThermalEmergency 3 \<and> three_bad (tick_verdicts L es s)"
  using monitor_fails [of s L es e] assms by simp

lemma dead_line_send: "length (pk_data p) + 6 \<le> codec_max_length \<Longrightarrow> fst (send_packet dead_line p s) = Inl CommandTimeout"
  by (simp add: send_packet_def hbind_run write_packet_def control_encode_def Let_def await_id_def dead_line_def)

lemma dead_line_temperature: "isl (fst (get_external_temperature (bitaxe_i2c dead_line) a s))"
  by (simp add: get_external_temperature_def emc_read_register_def bitaxe_i2c_def i2c_write_read_def hbind_run hmaperr_def
      dead_line_send packet_new_def codec_max_length_def)

lemma dead_line_tick: "tick_bad dead_line now s \<longleftrightarrow> diode_ready now (bx_enabled_since s)"
proof -
  obtain raw readings t where r: "read_sensors dead_line s = (Inr (raw, readings), t)" using read_sensors_Inr by blast
  have "raw = fst (on_board_channel (get_external_temperature (bitaxe_i2c dead_line) emc_address) s)"
    using arg_cong [OF r, of fst] unfolding read_sensors_def Let_def
    by (simp add: hbind_run hok_run check_regulator_Inr hret_def hattempt_def)
  moreover have "isl (fst (on_board_channel (get_external_temperature (bitaxe_i2c dead_line) emc_address) s))"
    using dead_line_temperature [of emc_address]
    by (auto simp: on_board_channel_def hzoom_def hmaperr_def split_beta isl_map_sum)
  ultimately obtain e where "raw = Inl e" by (metis isl_def)
  then show ?thesis by (simp add: tick_bad_def r)
qed

lemma tick_verdicts_step:
  "tick_verdicts L (MonitorTick now # es) s =
    tick_bad L now s # (if isl (fst (monitor_tick L now s)) then [] else tick_verdicts L es (snd (monitor_tick L now s)))"
  by (cases "monitor_tick L now s") (simp split: sum.split)

lemma monitor_tick_enabled: "bx_enabled_since (snd (monitor_tick L now s)) = bx_enabled_since s"
proof -
  obtain raw readings t where r: "read_sensors L s = (Inr (raw, readings), t)" "same_board s t" using read_sensors_Inr by blast
  show ?thesis using same_board_fields [OF r(2)] by (simp add: monitor_tick_run [OF r(1)] fan_to_keeps)
qed

theorem thermal_shutdown_witness:
  "fst (run_monitor dead_line [MonitorTick 600, MonitorTick 1200, MonitorTick 2600]
     ((bitaxe_new (idle_channel ()))\<lparr>bx_enabled_since := Some 0\<rparr>)) = MonitorFailed (ThermalEmergency 3)"
proof -
  let ?s = "(bitaxe_new (idle_channel ()))\<lparr>bx_enabled_since := Some 0\<rparr>"
  have "tick_verdicts dead_line [MonitorTick 600, MonitorTick 1200, MonitorTick 2600] ?s = [True, True, True]"
    by (simp add: tick_verdicts_step dead_line_tick monitor_tick_enabled monitor_tick_verdict diode_ready_def
        bad_reading_limit_def bitaxe_new_def word_le_nat_alt del: tick_verdicts.simps(2))
  then show ?thesis
    using thermal_shutdown [of ?s dead_line "[MonitorTick 600, MonitorTick 1200, MonitorTick 2600]" "ThermalEmergency 3"]
    by (simp add: bitaxe_new_def three_bad_def)
qed

text \<open>The end of the monitor on the channel.\<close>

definition running_op :: "i2c_op \<Rightarrow> bool" where
  "running_op p \<longleftrightarrow> observing p \<or> p = nrst High \<or> p = nrst Low"

definition end_log :: "monitor_end \<Rightarrow> i2c_op list" where
  "end_log r =
    (case r of
       StillRunning \<Rightarrow> []
     | MonitorFailed e \<Rightarrow> [fan_write 100, nrst Low, switch_off]
     | MonitorCancelledEnd \<Rightarrow> [nrst Low, switch_off, fan_write 25])"

lemma monitor_tick_log:
  fixes s :: "'d bitaxe_state"
  shows "\<exists>pre. board_log (snd (monitor_tick L now s)) =
      board_log s @ pre @ (if isl (fst (monitor_tick L now s)) then [fan_write 100] else []) \<and> list_all running_op pre"
proof -
  obtain raw readings t where r: "read_sensors L s = (Inr (raw, readings), t)" using read_sensors_Inr by blast
  obtain pre where pre: "board_log t = board_log s @ pre" "list_all observing pre"
    using emitsD [OF read_sensors_observe [unfolded emits_only_def], of L s] by (auto simp: r)
  have "list_all running_op pre" using pre(2) by (auto simp: running_op_def list_all_iff)
  moreover have "board_log (u\<lparr>bx_bad_thermal_count := n\<rparr>) = board_log u"
    "board_log (u\<lparr>bx_bad_thermal_count := n, bx_published := b\<rparr>) = board_log u" for u :: "'d bitaxe_state" and n b
    by (simp_all add: board_log_def)
  ultimately show ?thesis
    using pre(1) by (intro exI [of _ pre]) (simp add: monitor_tick_run [OF r] fan_to_keeps)
qed

lemma htry_snd: "snd (htry m s) = snd (m s)"
  by (simp add: htry_def hbind_run hattempt_def hret_def)

lemma shutdown_log:
  "board_log (snd (board_shutdown L s)) = board_log s @ [nrst Low, switch_off] \<and> bx_shutdown_sent (snd (board_shutdown L s))"
proof
  show "board_log (snd (board_shutdown L s)) = board_log s @ [nrst Low, switch_off]"
    using emitsD [OF shutdown_emits, of L s] by auto
  let ?d = "snd (asic_disable L (s\<lparr>bx_shutdown_sent := True\<rparr>))"
  have "snd (board_shutdown L s) = snd (on_regulator (set_vout (bitaxe_i2c L) 0) ?d)"
    by (simp add: board_shutdown_def hthen_def hbind_run hret_def htry_snd)
  moreover have "same_board ?d (snd (on_regulator (set_vout (bitaxe_i2c L) 0) ?d))"
    using zoom_same(1) unfolding moves_by_def by blast
  moreover have "bx_shutdown_sent ?d" using asic_state(2) [of L "s\<lparr>bx_shutdown_sent := True\<rparr>"] by auto
  ultimately show "bx_shutdown_sent (snd (board_shutdown L s))" using same_board_fields by metis
qed

lemma board_log_write:
  "board_log (snd (asic_enable L now s)) = board_log s @ [nrst High]"
  "board_log (snd (asic_disable L s)) = board_log s @ [nrst Low]"
  using emitsD [OF asic_emits(1), of L now s] emitsD [OF asic_emits(2), of L s] by auto

lemma running_step:
  assumes "board_log u = board_log s @ pre" "list_all running_op pre"
    and "case run of (r, t) \<Rightarrow> (\<exists>pre. board_log t = board_log u @ pre @ end_log r \<and> list_all running_op pre) \<and>
      (r = StillRunning \<or> bx_shutdown_sent t)"
  shows "case run of (r, t) \<Rightarrow> (\<exists>pre. board_log t = board_log s @ pre @ end_log r \<and> list_all running_op pre) \<and>
      (r = StillRunning \<or> bx_shutdown_sent t)"
proof (cases run)
  case (Pair r t)
  then obtain post where "board_log t = board_log u @ post @ end_log r" "list_all running_op post"
    using assms(3) by auto
  then show ?thesis using assms Pair by (auto intro: exI [of _ "pre @ post"])
qed

text \<open>
  C36: While it runs, the monitor itself only reads, selects the phases and clears faults, and the
  thread only moves the reset line. However it ends, the reset is asserted and then the core
  voltage is commanded off, whatever the devices answered before or answer then, and the threads are told.
\<close>

theorem monitor_powers_down:
  fixes L :: "'d line" and s :: "'d bitaxe_state"
  shows "case run_monitor L es s of (r, t) \<Rightarrow>
    (\<exists>pre. board_log t = board_log s @ pre @ end_log r \<and> list_all running_op pre) \<and>
    (r = StillRunning \<or> bx_shutdown_sent t)"
proof (induction L es s rule: run_monitor.induct)
  case (2 L now es s)
  obtain pre where pre: "board_log (snd (monitor_tick L now s)) =
      board_log s @ pre @ (if isl (fst (monitor_tick L now s)) then [fan_write 100] else [])" "list_all running_op pre"
    using monitor_tick_log by blast
  show ?case
  proof (cases "monitor_tick L now s")
    case (Pair r t)
    show ?thesis
    proof (cases r)
      case (Inl e)
      then show ?thesis using pre shutdown_log [of L t] by (auto simp: Pair end_log_def)
    next
      case (Inr u)
      then have t: "board_log t = board_log s @ pre" using pre(1) Pair by simp
      show ?thesis
        using running_step [OF t pre(2) 2 [OF Pair [symmetric] Inr]] Pair Inr by simp
    qed
  qed
next
  case (3 L es s)
  show ?case
    using shutdown_log [of L s]
    by (simp add: hthen_def hbind_run shutdown_Inr end_log_def percent_new_clamped_def fan_to_keeps)
next
  case (4 L now es s)
  show ?case unfolding run_monitor.simps by (rule running_step [OF board_log_write(1) _ 4]) (simp add: running_op_def)
next
  case (5 L es s)
  show ?case unfolding run_monitor.simps by (rule running_step [OF board_log_write(2) _ 5]) (simp add: running_op_def)
next
  case (1 L s)
  show ?case by (simp add: end_log_def)
qed

section \<open>Bring-up\<close>

text \<open>The reset was asserted first, and released right after the core voltage was switched on and left so.\<close>

definition powered :: "i2c_op list \<Rightarrow> i2c_op list \<Rightarrow> bool" where
  "powered post es \<longleftrightarrow>
    (\<exists>pre mid. es = nrst Low # pre @ switch_on # mid @ nrst High # post \<and>
       nrst High \<notin> set pre \<and> list_all no_operation mid)"

definition unreleased :: "i2c_op list \<Rightarrow> bool" where
  "unreleased es \<longleftrightarrow> (\<exists>rest. es = nrst Low # rest \<and> nrst High \<notin> set rest)"

definition bring_up_log :: "i2c_op list \<Rightarrow> board_error + chip_info list \<Rightarrow> bool" where
  "bring_up_log es r \<longleftrightarrow>
    (case r of
       Inr infos \<Rightarrow> powered [nrst Low] es \<and> infos \<noteq> [] \<and> ci_chip_id (hd infos) = [0x13, 0x70]
     | Inl NoChips \<Rightarrow> powered [] es
     | Inl (WrongChip c) \<Rightarrow> powered [] es
     | Inl _ \<Rightarrow> unreleased es \<or> powered [] es \<or> powered [nrst Low] es)"

text \<open>What turning on the core voltage leaves, when it is done without error.\<close>

definition switched_on :: "i2c_op list \<Rightarrow> bool" where
  "switched_on es \<longleftrightarrow> (\<exists>pre mid. es = pre @ switch_on # mid \<and> nrst High \<notin> set pre \<and> list_all no_operation mid)"

lemma nrst_simps [simp]:
  "nrst v \<noteq> reg_write c bs" "reg_write c bs \<noteq> nrst v" "nrst v \<noteq> switch_on" "switch_on \<noteq> nrst v" "nrst v \<noteq> switch_off"
  "nrst v \<noteq> fan_write p" "\<not> no_operation (nrst v)" "\<not> is_read (nrst v)" "nrst High \<noteq> nrst Low"
  by (simp_all add: nrst_def reg_write_def switch_on_def switch_off_def fan_write_def no_operation_def is_read_def)

lemma no_nrst: "list_all no_operation es \<Longrightarrow> nrst v \<notin> set es" "list_all is_read es \<Longrightarrow> nrst v \<notin> set es"
  using nrst_simps(7,8) by (auto simp: list_all_iff)

lemma no_nrst_init: "init_log es \<Longrightarrow> nrst v \<notin> set es"
proof -
  assume i: "init_log es"
  have "nrst v \<notin> set (writes es)" using i no_nrst(1) by (auto simp: init_log_def)
  then show ?thesis by (simp add: writes_def)
qed

text \<open>Turning on: no reset line, and with success the output is on.\<close>

definition turns_on :: "i2c_op list \<Rightarrow> 'e + unit \<Rightarrow> bool" where
  "turns_on es r \<longleftrightarrow> nrst High \<notin> set es \<and> (r = Inr () \<longrightarrow> switched_on es)"

lemma turns_on_Inl: "turns_on es (Inl e) \<longleftrightarrow> nrst High \<notin> set es"
  by (simp add: turns_on_def)

lemma turns_on_append:
  "nrst High \<notin> set es \<Longrightarrow> turns_on fs r \<Longrightarrow> turns_on (es @ fs) r"
  "turns_on es (Inr ()) \<Longrightarrow> list_all no_operation fs \<Longrightarrow> turns_on (es @ fs) r"
proof -
  show "turns_on (es @ fs) r" if a: "nrst High \<notin> set es" "turns_on fs r"
  proof -
    have "switched_on (es @ fs)" if on: "switched_on fs"
    proof -
      obtain pre mid where "fs = pre @ switch_on # mid" "nrst High \<notin> set pre" "list_all no_operation mid"
        using on unfolding switched_on_def by blast
      then show ?thesis using a(1) unfolding switched_on_def by (intro exI [of _ "es @ pre"] exI [of _ mid]) simp
    qed
    then show ?thesis using a by (auto simp: turns_on_def)
  qed
  show "turns_on (es @ fs) r" if a: "turns_on es (Inr ())" "list_all no_operation fs"
  proof -
    obtain pre mid where "es = pre @ switch_on # mid" "nrst High \<notin> set pre" "list_all no_operation mid"
      using a(1) unfolding turns_on_def switched_on_def by blast
    then have "switched_on (es @ fs)" using a(2) unfolding switched_on_def by (intro exI [of _ pre] exI [of _ "mid @ fs"]) simp
    then show ?thesis using a no_nrst(1) by (auto simp: turns_on_def)
  qed
qed

lemma turns_on_log: "turn_on_log w es \<Longrightarrow> (r = Inr () \<longrightarrow> switch_on \<in> set es) \<Longrightarrow> turns_on es r"
  unfolding turn_on_log_def
proof (elim disjE exE conjE)
  fix post
  assume e: "es = [reg_write PmVoutCommand (to_le 2 w), reg_write PmClearFaults [], switch_on] @ post" and p: "reads post"
  have "list_all no_operation post" using p by (auto simp: reads_def list_all_iff)
  then have "switched_on es"
    unfolding switched_on_def e
    by (intro exI [of _ "[reg_write PmVoutCommand (to_le 2 w), reg_write PmClearFaults []]"] exI [of _ post]) simp
  then show "turns_on es r" using p no_nrst(2) by (simp add: turns_on_def e reads_def)
qed (auto simp: turns_on_def)

context i2c_bus
begin

lemma turn_on_success:
  "emits (tps_log lg)
    (hseq [write_word B PmVoutCommand w, clear_faults B, write_byte B PmOperation (operation_code OpOn), after_turn_on B])
    (\<lambda>es r. r = Inr () \<longrightarrow> switch_on \<in> set es)"
proof -
  have on: "emits (tps_log lg) (hseq [write_byte B PmOperation (operation_code OpOn), after_turn_on B])
      (\<lambda>es r. switch_on \<in> set es)"
    unfolding hseq.simps hthen_def
    by (rule emits_bind [OF write_emits(1) emits_bind [OF after_turn_on_reads emits_ret, where Z = "\<lambda>_ _. True"]])
       (auto simp: switch_on_def)
  show ?thesis
    unfolding hseq.simps(2) [of _ "_ # _ # _"] hthen_def
    by (rule emits_bind [OF write_emits(2) emits_bind [OF write_emits(3) on,
          where Z = "\<lambda>es r. r = Inr () \<longrightarrow> switch_on \<in> set es"]]) auto
qed

lemma set_vout_turns_on: "v \<noteq> 0 \<Longrightarrow> emits (tps_log lg) (set_vout B v) turns_on"
proof -
  assume v: "v \<noteq> 0"
  let ?m = "\<lambda>w. hseq [write_word B PmVoutCommand w, clear_faults B, write_byte B PmOperation (operation_code OpOn), after_turn_on B]"
  have m: "emits (tps_log lg) (?m w) turns_on" for w
    by (rule emits_weaken [OF emits_conj [OF turn_on_emits turn_on_success]]) (auto intro: turns_on_log)
  have b: "emits (tps_log lg) (hbind (encode_voltage B v) ?m) turns_on"
    by (rule emits_bind [OF encode_voltage_only [unfolded emits_only_def] m])
       (auto simp: no_nrst turns_on_Inl intro: turns_on_append(1))
  show ?thesis
  proof (rule emitsI)
    fix s
    show "\<exists>es. tps_log lg (snd (set_vout B v s)) = tps_log lg s @ es \<and> turns_on es (fst (set_vout B v s))"
      using v emitsD [OF b, of s] by (simp add: set_vout_def hthrow_def turns_on_def)
  qed
qed

end

text \<open>The errors before the discovery are not about the chips.\<close>

definition plain :: "board_error + 'a \<Rightarrow> bool" where
  "plain r \<longleftrightarrow> (\<forall>c. r \<noteq> Inl NoChips \<and> r \<noteq> Inl (WrongChip c))"

lemma plain_hw:
  "plain (fst (on_board_channel m s))" "plain (fst (on_regulator n s))" "plain (fst (htry x s))" "plain (fst (hret a s))"
  "plain (fst (board_send_commands D sent cs s))"
proof -
  show "plain (fst (on_board_channel m s))" "plain (fst (on_regulator n s))"
    by (auto simp: plain_def on_board_channel_def on_regulator_def hzoom_def hmaperr_def split_beta map_sum_def split: sum.splits)
  show "plain (fst (htry x s))" "plain (fst (hret a s))" by (simp_all add: plain_def hret_def)
  show "plain (fst (board_send_commands D sent cs s))"
    by (induction cs arbitrary: sent) (auto simp: plain_def hret_def hthrow_def split: option.split)
qed

lemma plain_bind: "plain (fst (m s)) \<Longrightarrow> (\<And>a t. plain (fst (f a t))) \<Longrightarrow> plain (fst (hbind m f s))"
  by (auto simp: hbind_run plain_def split: sum.split)

lemma plain_seq: "(\<And>m s. m \<in> set ms \<Longrightarrow> plain (fst (m s))) \<Longrightarrow> plain (fst (hseq ms s))"
  by (induction ms arbitrary: s) (auto simp: hthen_def plain_def hret_def hbind_run split: sum.split)

lemma init_power_emits: "emits board_log (init_power_controller L) turns_on"
proof -
  have init: "emits board_log (on_regulator (tps_init (bitaxe_i2c L))) (\<lambda>es _. nrst High \<notin> set es)"
    by (rule on_regulator_emits [OF bitaxe.init_emits]) (rule no_nrst_init)
  have vout: "emits board_log (on_regulator (set_vout (bitaxe_i2c L) default_vout)) turns_on"
    by (rule on_regulator_emits [OF bitaxe.set_vout_turns_on]) (auto simp: default_vout_def turns_on_def)
  have get: "emits_only (tps_log i2c_log) (get_vout (bitaxe_i2c L)) is_read"
    unfolding get_vout_def by (intro emits_only_bind bitaxe.reads_only bitaxe.decode_voltage_only emits_only_ret)
  have "emits_only board_log (hseq [htry (on_regulator (get_vout (bitaxe_i2c L))),
      htry (on_regulator (dump_configuration (bitaxe_i2c L)))]) no_operation"
    by (rule emits_only_seq) (auto intro!: htry_only board_only bitaxe.reads_no_operation get bitaxe.dump_reads_only)
  then have rest: "emits board_log (hseq [htry (on_regulator (get_vout (bitaxe_i2c L))),
      htry (on_regulator (dump_configuration (bitaxe_i2c L)))]) (\<lambda>es _. list_all no_operation es)"
    by (simp only: emits_only_def)
  show ?thesis
    unfolding init_power_controller_def hseq.simps(2) [of "on_regulator _"] hthen_def
    by (rule emits_bind [OF init emits_bind [OF vout rest, where Z = turns_on]])
       (auto intro: turns_on_append simp: turns_on_Inl)
qed

lemma silent_only: "(\<And>s. snd (m s) = s) \<Longrightarrow> emits lg m (\<lambda>es r. es = [] \<and> (\<exists>s. r = fst (m s)))"
  by (auto simp: emits_def)

lemma board_send_silent: "snd (board_send_commands D sent cs s) = s"
  by (induction cs arbitrary: sent) (simp_all add: hret_def hthrow_def split: option.split)

lemma chips_silent: "snd (board_discover_chips D s) = s" "snd (check_chip_id infos s) = s"
  by (simp_all add: board_discover_chips_def check_chip_id_def hret_def hthrow_def Let_def split: option.split list.split)

text \<open>The steps up to the core voltage, the release of the reset, and the rest.\<close>

lemma power_up_emits:
  "emits board_log (hseq [write_nrst L Low, on_board_channel (i2c_set_frequency L 100000), init_fan_controller L, init_power_controller L])
    (\<lambda>es r. (\<exists>rest. es = nrst Low # rest \<and> turns_on rest r) \<and> plain r)"
proof (rule emits_result)
  have freq: "emits board_log (on_board_channel (i2c_set_frequency L 100000)) (\<lambda>es _. nrst High \<notin> set es)"
  proof (rule on_board_emits)
    let ?p = "packet_new PageI2C (i2c_command_byte I2cSetFrequency) (to_le 4 (100000 :: u32))"
    have "emits ch_log (i2c_set_frequency L 100000) (\<lambda>es r. (\<exists>i. es = [?p\<lparr>pk_id := i\<rparr>]) \<and> True)"
      unfolding i2c_set_frequency_def
      by (intro emits_bind_result maperr_send_emits)
         (auto simp: packet_new_def codec_max_length_def intro!: emits_ret)
    then show "emits i2c_log (i2c_set_frequency L 100000) (\<lambda>es r. es = [i2c_op_of ?p] \<and> True)"
      by (rule emits_i2c_log) (rule refl)
  qed (auto simp: i2c_op_of_def packet_new_def nrst_def split: list.split)
  have fan: "emits board_log (init_fan_controller L) (\<lambda>es _. nrst High \<notin> set es)"
  proof -
    have r: "emits_only i2c_log (emc_read_register (bitaxe_i2c L) a reg) (\<lambda>p. p \<noteq> nrst High)" for a reg
      unfolding emc_read_register_def
      by (intro emits_only_bind emits_only_ret bitaxe.read_only) (simp_all add: nrst_def)
    have w: "emits_only i2c_log (emc_write_register (bitaxe_i2c L) a reg v) (\<lambda>p. p \<noteq> nrst High)" for a reg v
      unfolding emc_write_register_def by (rule bitaxe.write_only) (simp_all add: nrst_def)
    have "emits_only i2c_log (emc_init (bitaxe_i2c L) emc_address) (\<lambda>p. p \<noteq> nrst High)"
      unfolding emc_init_def by (intro emits_only_bind emits_only_if emits_only_then r w emits_only_ret)
    moreover have "emits_only board_log (fan_to L 100) (\<lambda>p. p \<noteq> nrst High)"
      unfolding fan_to_def set_fan_speed_def by (intro board_only w)
    ultimately have "emits_only board_log (init_fan_controller L) (\<lambda>p. p \<noteq> nrst High)"
      unfolding init_fan_controller_def by (intro emits_only_then board_only)
    then show ?thesis unfolding emits_only_def by (rule emits_weaken) (auto simp: list_all_iff)
  qed
  have p: "emits board_log (hthen (init_power_controller L) (hret ())) turns_on"
    unfolding hthen_def by (rule emits_bind [OF init_power_emits emits_ret [where X = "\<lambda>es r. es = [] \<and> r = Inr ()"]]) auto
  show "emits board_log (hseq [write_nrst L Low, on_board_channel (i2c_set_frequency L 100000), init_fan_controller L,
      init_power_controller L]) (\<lambda>es r. \<exists>rest. es = nrst Low # rest \<and> turns_on rest r)"
    unfolding hseq.simps hthen_def
    by (rule emits_bind [OF write_nrst_emits emits_bind [OF freq emits_bind [OF fan p [unfolded hthen_def],
            where Z = turns_on], where Z = turns_on]])
       (auto intro: turns_on_append(1) simp: turns_on_def [of "[]"] turns_on_Inl)
  have power: "plain (fst (init_power_controller L s))" for s
    unfolding init_power_controller_def by (rule plain_seq) (auto intro: plain_hw)
  have fans: "plain (fst (init_fan_controller L s))" for s
    unfolding init_fan_controller_def hthen_def fan_to_def by (intro plain_bind plain_hw)
  show "plain (fst (hseq [write_nrst L Low, on_board_channel (i2c_set_frequency L 100000), init_fan_controller L,
      init_power_controller L] s))" for s
    by (rule plain_seq) (auto simp: write_nrst_def intro: plain_hw power fans)
qed

definition finish_log :: "i2c_op list \<Rightarrow> board_error + chip_info list \<Rightarrow> bool" where
  "finish_log es r \<longleftrightarrow>
    (case r of
       Inr infos \<Rightarrow> es = [nrst Low] \<and> infos \<noteq> [] \<and> ci_chip_id (hd infos) = [0x13, 0x70]
     | Inl NoChips \<Rightarrow> es = []
     | Inl (WrongChip c) \<Rightarrow> es = []
     | Inl _ \<Rightarrow> es = [] \<or> es = [nrst Low])"

lemma finish_log_plain: "plain (Inl e :: board_error + chip_info list) \<Longrightarrow> es = [] \<or> es = [nrst Low] \<Longrightarrow> finish_log es (Inl e)"
  by (cases e) (auto simp: plain_def finish_log_def)

lemma release_emits:
  "emits board_log (hseq [write_nrst L High, board_send_commands D [] (replicate 3 version_mask_command)])
    (\<lambda>es r. es = [nrst High] \<and> plain r)"
proof (rule emits_result)
  show "emits board_log (hseq [write_nrst L High, board_send_commands D [] (replicate 3 version_mask_command)])
      (\<lambda>es _. es = [nrst High])"
    unfolding hseq.simps hthen_def
    by (intro emits_bind_silent write_nrst_emits emits_ret refl)
       (simp add: emits_def board_send_silent)
  show "plain (fst (hseq [write_nrst L High, board_send_commands D [] (replicate 3 version_mask_command)] s))" for s
    by (rule plain_seq) (auto simp: write_nrst_def intro: plain_hw)
qed

lemma finish_emits:
  "emits board_log (hbind (board_discover_chips D) (\<lambda>chip_infos. hbind (check_chip_id chip_infos) (\<lambda>_.
     hbind (write_nrst L Low) (\<lambda>_. hret chip_infos)))) finish_log"
proof (rule emitsI)
  fix s :: "'a bitaxe_state"
  let ?m = "hbind (board_discover_chips D) (\<lambda>chip_infos. hbind (check_chip_id chip_infos) (\<lambda>_.
     hbind (write_nrst L Low) (\<lambda>_. hret chip_infos)))"
  have low: "board_log (snd (write_nrst L Low s)) = board_log s @ [nrst Low]"
    using emitsD [OF write_nrst_emits, of L Low s] by auto
  have e: "plain (Inl e :: board_error + chip_info list)" if "fst (write_nrst L Low s) = Inl e" for e
    using plain_hw(1) [of "gpio_write L asic_reset_pin Low" s] that by (auto simp: write_nrst_def plain_def)
  show "\<exists>es. board_log (snd (?m s)) = board_log s @ es \<and> finish_log es (fst (?m s))"
  proof (cases "fst (board_discover_chips D s)")
    case (Inl x)
    then have "x = NoChips \<or> (\<exists>t. x = CommandNotSent t)"
      by (auto simp: board_discover_chips_def hthrow_def hret_def Let_def split: option.splits if_splits)
    then show ?thesis using Inl by (auto simp: hbind_run chips_silent finish_log_def)
  next
    case (Inr infos)
    then obtain i js where i: "infos = i # js"
      by (cases infos) (auto simp: board_discover_chips_def hthrow_def hret_def Let_def split: option.splits if_splits)
    show ?thesis
    proof (cases "ci_chip_id i = [0x13, 0x70]")
      case True
      then have c: "fst (check_chip_id infos s) = Inr ()" by (simp add: check_chip_id_def i hret_def)
      show ?thesis
        using Inr c low i True finish_log_plain [OF e]
        by (cases "fst (write_nrst L Low s)") (auto simp: hbind_run chips_silent hret_def finish_log_def [of _ "Inr _"])
    next
      case False
      then have "fst (check_chip_id infos s) = Inl (WrongChip (ci_chip_id i))"
        by (simp add: check_chip_id_def i hthrow_def)
      then show ?thesis using Inr by (simp add: hbind_run chips_silent finish_log_def)
    qed
  qed
qed

text \<open>
  C37: The chips are put in reset before anything else, and taken out of it only once the core voltage was
  switched on with nothing but reads after it. A bring-up that succeeds has put them back in reset and found
  a BM1370 first. When no chip or another chip answers, the bring-up ends right there: the
  voltage stays on and the reset released.
\<close>

theorem bring_up_order:
  fixes L :: "'d line" and D :: data_port and s :: "'d bitaxe_state"
  shows "case create_from_usb L D s of (r, t) \<Rightarrow> \<exists>es. board_log t = board_log s @ es \<and> bring_up_log es r"
proof -
  let ?up = "hseq [write_nrst L Low, on_board_channel (i2c_set_frequency L 100000), init_fan_controller L, init_power_controller L]"
  let ?release = "hseq [write_nrst L High, board_send_commands D [] (replicate 3 version_mask_command)]"
  let ?finish = "hbind (board_discover_chips D) (\<lambda>chip_infos. hbind (check_chip_id chip_infos) (\<lambda>_.
     hbind (write_nrst L Low) (\<lambda>_. hret chip_infos)))"
  have split: "create_from_usb L D = hbind ?up (\<lambda>_. hbind ?release (\<lambda>_. ?finish))"
    using hseq_append [of "[write_nrst L Low, on_board_channel (i2c_set_frequency L 100000), init_fan_controller L, init_power_controller L]"]
    unfolding create_from_usb_def by (simp add: hthen_def hbind_assoc)
  have second: "emits board_log (hbind ?release (\<lambda>_. ?finish)) (\<lambda>es r. \<exists>post. es = nrst High # post \<and> finish_log post r)"
    by (rule emits_bind [OF release_emits finish_emits]) (auto intro: finish_log_plain simp: plain_def)
  have complete: "bring_up_log (nrst Low # rest @ nrst High # post) r" if on: "switched_on rest" "finish_log post r" for rest post r
  proof -
    obtain pre mid where "rest = pre @ switch_on # mid" "nrst High \<notin> set pre" "list_all no_operation mid"
      using on(1) unfolding switched_on_def by blast
    then have "powered post (nrst Low # rest @ nrst High # post)"
      unfolding powered_def by (intro exI [of _ pre] exI [of _ mid]) simp
    then show ?thesis
      using on(2) by (auto simp: bring_up_log_def finish_log_def split: sum.splits board_error.splits)
  qed
  have early: "bring_up_log (nrst Low # rest) (Inl e)"
    if "turns_on rest (Inl e :: board_error + unit)" "plain (Inl e :: board_error + unit)" for rest e
    using that by (cases e) (auto simp: bring_up_log_def unreleased_def turns_on_def plain_def)
  have "emits board_log (create_from_usb L D) bring_up_log"
    unfolding split
    by (rule emits_bind [OF power_up_emits second]) (auto intro: early complete simp: turns_on_def)
  then show ?thesis by (auto simp: emits_def split: prod.split) (metis fst_conv snd_conv)
qed

end
