(* ===== verification/Emberone.thy ===== *)
theory Emberone
  imports Bitaxe_Properties
begin

text \<open>
  The emberOne/00 board (\<open>board/emberone00.rs\<close>): the supply of the chips' interface behind a pin of
  the firmware, two temperature sensors, the monitor that publishes their readings, and the
  shutdown. The animation of the status LED (\<open>bitaxe_raw/led.rs\<close> below it) runs as a task of its own on
  the same channel: what it writes, and when, is given, as the bytes of each colour after
  calibration and brightness. Waits and constant texts of the telemetry are left out.
\<close>

section \<open>The board\<close>




definition ember_response_format :: "u16 \<Rightarrow> response_format" where
  "ember_response_format bcd_device = (if 1 \<le> dv_firmware_minor (from_bcd bcd_device) then V1 else V0)"







section \<open>The LED\<close>





section \<open>Bring-up\<close>



section \<open>The monitor\<close>





section \<open>Shutdown\<close>



section \<open>What goes over the channel\<close>





















section \<open>The supply\<close>








end
