(* ===== verification/Backplane.thy ===== *)
theory Backplane
  imports Prelude "HOL-Library.AList" "HOL-Library.Multiset"
begin

text \<open>
  The patterns a USB device is matched by (\<open>board/pattern.rs\<close>), the choice of a board's descriptor and
  the backplane that starts and stops boards (\<open>backplane.rs\<close>). The regular expressions of the
  \<open>regex\<close> crate are a parameter; lower case is that of ASCII. What a board's factory answers comes
  with the event that calls it, and whether the scheduler and the API still take a message is
  asked of the effects so far. Threads and shutdown futures are type parameters.
\<close>

section \<open>Patterns\<close>

datatype 'a match_crit = MatchAny | MatchSpecific 'a

datatype string_match = MatchExact string | MatchRegex string | MatchContains string

datatype bcd_version_match = BcdExact u16 | BcdMajor u8

record usb_device_info =
  ud_vid :: u16
  ud_pid :: u16
  ud_bcd_device :: u16
  ud_serial_number :: "string option"
  ud_manufacturer :: "string option"
  ud_product :: "string option"
  ud_device_path :: string

definition bcd_matches :: "bcd_version_match \<Rightarrow> u16 \<Rightarrow> bool" where
  "bcd_matches m bcd_device =
    (case m of BcdExact expected \<Rightarrow> bcd_device = expected
     | BcdMajor major \<Rightarrow> (ucast (drop_bit 8 bcd_device) :: u8) = major)"

definition bcd_specificity :: "bcd_version_match \<Rightarrow> nat" where
  "bcd_specificity m = (case m of BcdExact _ \<Rightarrow> 15 | BcdMajor _ \<Rightarrow> 10)"

definition lower_char :: "char \<Rightarrow> char" where
  "lower_char c =
    (if 65 \<le> (of_char c :: nat) \<and> (of_char c :: nat) \<le> 90 then char_of ((of_char c :: nat) + 32) else c)"

fun starts_with :: "string \<Rightarrow> string \<Rightarrow> bool" where
  "starts_with s [] = True"
| "starts_with [] (c # cs) = False"
| "starts_with (d # s) (c # cs) = (c = d \<and> starts_with s cs)"

fun contains_text :: "string \<Rightarrow> string \<Rightarrow> bool" where
  "contains_text [] t = (t = [])"
| "contains_text (c # s) t = (starts_with (c # s) t \<or> contains_text s t)"

text \<open>\<open>rx pattern\<close> is the compiled expression, \<open>None\<close> when it is invalid.\<close>

definition string_matches :: "(string \<Rightarrow> (string \<Rightarrow> bool) option) \<Rightarrow> string_match \<Rightarrow> string option \<Rightarrow> bool" where
  "string_matches rx m s =
    (case s of
       None \<Rightarrow> False
     | Some v \<Rightarrow>
         (case m of
            MatchExact expected \<Rightarrow> v = expected
          | MatchRegex p \<Rightarrow> (case rx p of Some re \<Rightarrow> re v | None \<Rightarrow> False)
          | MatchContains sub \<Rightarrow> contains_text (map lower_char v) (map lower_char sub)))"

definition string_specificity :: "string_match \<Rightarrow> nat" where
  "string_specificity m = (case m of MatchExact _ \<Rightarrow> 20 | MatchRegex _ \<Rightarrow> 15 | MatchContains _ \<Rightarrow> 10)"

record board_pattern =
  bp_vid :: "u16 match_crit"
  bp_pid :: "u16 match_crit"
  bp_bcd_device :: "bcd_version_match match_crit"
  bp_manufacturer :: "string_match match_crit"
  bp_product :: "string_match match_crit"
  bp_serial_pattern :: "string_match match_crit"

definition pattern_wildcard :: board_pattern where
  "pattern_wildcard =
    \<lparr>bp_vid = MatchAny, bp_pid = MatchAny, bp_bcd_device = MatchAny, bp_manufacturer = MatchAny,
     bp_product = MatchAny, bp_serial_pattern = MatchAny\<rparr>"

definition crit_holds :: "('a \<Rightarrow> bool) \<Rightarrow> 'a match_crit \<Rightarrow> bool" where
  "crit_holds P m = (case m of MatchAny \<Rightarrow> True | MatchSpecific v \<Rightarrow> P v)"

definition pattern_matches :: "(string \<Rightarrow> (string \<Rightarrow> bool) option) \<Rightarrow> board_pattern \<Rightarrow> usb_device_info \<Rightarrow> bool" where
  "pattern_matches rx p d \<longleftrightarrow>
    crit_holds (\<lambda>vid. ud_vid d = vid) (bp_vid p) \<and>
    crit_holds (\<lambda>pid. ud_pid d = pid) (bp_pid p) \<and>
    crit_holds (\<lambda>m. bcd_matches m (ud_bcd_device d)) (bp_bcd_device p) \<and>
    crit_holds (\<lambda>m. string_matches rx m (ud_manufacturer d)) (bp_manufacturer p) \<and>
    crit_holds (\<lambda>m. string_matches rx m (ud_product d)) (bp_product p) \<and>
    crit_holds (\<lambda>m. string_matches rx m (ud_serial_number d)) (bp_serial_pattern p)"

definition crit_score :: "('a \<Rightarrow> nat) \<Rightarrow> 'a match_crit \<Rightarrow> nat" where
  "crit_score f m = (case m of MatchAny \<Rightarrow> 0 | MatchSpecific v \<Rightarrow> f v)"

text \<open>The score is at most 95, far inside \<open>u32\<close>.\<close>

definition pattern_specificity :: "board_pattern \<Rightarrow> nat" where
  "pattern_specificity p =
    crit_score (\<lambda>_. 10) (bp_vid p) + crit_score (\<lambda>_. 10) (bp_pid p) +
    crit_score bcd_specificity (bp_bcd_device p) + crit_score string_specificity (bp_manufacturer p) +
    crit_score string_specificity (bp_product p) + crit_score string_specificity (bp_serial_pattern p)"

record board_descriptor =
  bd_pattern :: board_pattern
  bd_name :: string

text \<open>\<open>max_by_key\<close>: the last of the elements with the largest key.\<close>

fun max_by_key :: "('a \<Rightarrow> nat) \<Rightarrow> 'a list \<Rightarrow> 'a option" where
  "max_by_key key [] = None"
| "max_by_key key (x # xs) =
    (case max_by_key key xs of Some y \<Rightarrow> (if key x \<le> key y then Some y else Some x) | None \<Rightarrow> Some x)"

definition find_descriptor ::
  "(string \<Rightarrow> (string \<Rightarrow> bool) option) \<Rightarrow> board_descriptor list \<Rightarrow> usb_device_info \<Rightarrow> board_descriptor option" where
  "find_descriptor rx registered d =
    max_by_key (\<lambda>b. pattern_specificity (bd_pattern b)) (filter (\<lambda>b. pattern_matches rx (bd_pattern b) d) registered)"

section \<open>The backplane\<close>

record ('t, 'f) connector =
  cn_serial_number :: "string option"
  cn_threads :: "'t list"
  cn_shutdown :: "'f option"

datatype ('t, 'f) bp_effect =
  ToApi | ToScheduler 't | EnumerationComplete | SendRefused | ShutdownAwaited 'f | ShutdownDropped 'f

text \<open>
  The boards are a hash map: an association list with distinct keys, whose order of iteration is
  a parameter of the environment.
\<close>

record ('t, 'f) backplane =
  bp_boards :: "(string \<times> 'f option) list"
  bp_effects :: "('t, 'f) bp_effect list"

record ('t, 'f) backplane_env =
  be_regex :: "string \<Rightarrow> (string \<Rightarrow> bool) option"
  be_registered :: "board_descriptor list"
  be_cpu_registered :: bool
  be_api_takes :: "('t, 'f) bp_effect list \<Rightarrow> bool"
  be_scheduler_takes :: "('t, 'f) bp_effect list \<Rightarrow> bool"
  be_key_order :: "string list \<Rightarrow> string list"

definition bp_note :: "('t, 'f) bp_effect \<Rightarrow> ('t, 'f) backplane \<Rightarrow> ('t, 'f) backplane" where
  "bp_note e s = s\<lparr>bp_effects := bp_effects s @ [e]\<rparr>"

fun send_threads :: "('t, 'f) backplane_env \<Rightarrow> 't list \<Rightarrow> ('t, 'f) backplane \<Rightarrow> ('t, 'f) backplane" where
  "send_threads E [] s = s"
| "send_threads E (t # ts) s =
    (if be_scheduler_takes E (bp_effects s) then send_threads E ts (bp_note (ToScheduler t) s) else bp_note SendRefused s)"

text \<open>Inserting under a key in use drops the board that was there, its future not awaited.\<close>

definition insert_board :: "string \<Rightarrow> 'f option \<Rightarrow> ('t, 'f) backplane \<Rightarrow> ('t, 'f) backplane" where
  "insert_board key fut s =
    (let s' = s\<lparr>bp_boards := AList.update key fut (bp_boards s)\<rparr>
     in case map_of (bp_boards s) key of Some (Some old) \<Rightarrow> bp_note (ShutdownDropped old) s' | _ \<Rightarrow> s')"

definition start_board :: "('t, 'f) backplane_env \<Rightarrow> string \<Rightarrow> ('t, 'f) connector \<Rightarrow> ('t, 'f) backplane \<Rightarrow> ('t, 'f) backplane" where
  "start_board E board_id conn s =
    (let s = bp_note (if be_api_takes E (bp_effects s) then ToApi else SendRefused) s
     in insert_board board_id (cn_shutdown conn) (send_threads E (cn_threads conn) s))"

definition send_enumeration_complete :: "('t, 'f) backplane_env \<Rightarrow> ('t, 'f) backplane \<Rightarrow> ('t, 'f) backplane" where
  "send_enumeration_complete E s =
    bp_note (if be_scheduler_takes E (bp_effects s) then EnumerationComplete else SendRefused) s"

definition remove_board :: "string \<Rightarrow> ('t, 'f) backplane \<Rightarrow> ('t, 'f) backplane" where
  "remove_board key s =
    (let s' = s\<lparr>bp_boards := AList.delete key (bp_boards s)\<rparr>
     in case map_of (bp_boards s) key of Some (Some fut) \<Rightarrow> bp_note (ShutdownAwaited fut) s' | _ \<Rightarrow> s')"

text \<open>The events, with the answer of the factory should it be called.\<close>

datatype ('t, 'f) transport_event =
  UsbConnected usb_device_info "string + ('t, 'f) connector"
  | UsbDisconnected string
  | CpuConnected string "string + ('t, 'f) connector"
  | CpuDisconnected string
  | InitialEnumerationComplete

definition handle_usb_connected ::
  "('t, 'f) backplane_env \<Rightarrow> usb_device_info \<Rightarrow> string + ('t, 'f) connector \<Rightarrow> ('t, 'f) backplane \<Rightarrow> ('t, 'f) backplane" where
  "handle_usb_connected E d answer s =
    (case find_descriptor (be_regex E) (be_registered E) d of
       None \<Rightarrow> s
     | Some _ \<Rightarrow>
         (case answer of
            Inl e \<Rightarrow> s
          | Inr conn \<Rightarrow>
              start_board E (case cn_serial_number conn of Some k \<Rightarrow> k | None \<Rightarrow> ''unknown'') conn s))"

text \<open>The path of the device is not used: the first board in the order of the map is stopped.\<close>

definition handle_usb_disconnected :: "('t, 'f) backplane_env \<Rightarrow> ('t, 'f) backplane \<Rightarrow> ('t, 'f) backplane" where
  "handle_usb_disconnected E s =
    (case be_key_order E (map fst (bp_boards s)) of [] \<Rightarrow> s | key # _ \<Rightarrow> remove_board key s)"

definition handle_cpu_connected ::
  "('t, 'f) backplane_env \<Rightarrow> string \<Rightarrow> string + ('t, 'f) connector \<Rightarrow> ('t, 'f) backplane \<Rightarrow> ('t, 'f) backplane" where
  "handle_cpu_connected E device_id answer s =
    (if \<not> be_cpu_registered E then s
     else case answer of Inl e \<Rightarrow> s | Inr conn \<Rightarrow> start_board E device_id conn s)"

definition handle_event :: "('t, 'f) backplane_env \<Rightarrow> ('t, 'f) transport_event \<Rightarrow> ('t, 'f) backplane \<Rightarrow> ('t, 'f) backplane" where
  "handle_event E ev s =
    (case ev of
       UsbConnected d answer \<Rightarrow> handle_usb_connected E d answer s
     | UsbDisconnected path \<Rightarrow> handle_usb_disconnected E s
     | CpuConnected device_id answer \<Rightarrow> handle_cpu_connected E device_id answer s
     | CpuDisconnected device_id \<Rightarrow> remove_board device_id s
     | InitialEnumerationComplete \<Rightarrow> s)"

text \<open>One turn of the loop: the transports that completed, whether that was passed on, and the state.\<close>

type_synonym ('t, 'f) loop_state = "nat set \<times> bool \<times> ('t, 'f) backplane"

definition backplane_turn ::
  "('t, 'f) backplane_env \<Rightarrow> nat \<Rightarrow> ('t, 'f) loop_state \<Rightarrow> nat \<times> ('t, 'f) transport_event \<Rightarrow> ('t, 'f) loop_state" where
  "backplane_turn E transport_count st tev =
    (case (st, tev) of
       ((completed, sent, s), (transport, ev)) \<Rightarrow>
         if ev = InitialEnumerationComplete
         then let completed = insert transport completed
              in if \<not> sent \<and> card completed = transport_count
                 then (completed, True, send_enumeration_complete E s)
                 else (completed, sent, s)
         else (completed, sent, handle_event E ev s))"

text \<open>
  The start of the run: the virtual Nano3s board, when it is registered, and the announcement
  when there is no transport.
\<close>

definition backplane_start ::
  "('t, 'f) backplane_env \<Rightarrow> (string + ('t, 'f) connector) option \<Rightarrow> nat \<Rightarrow> ('t, 'f) backplane \<Rightarrow> ('t, 'f) loop_state" where
  "backplane_start E nano3s transport_count s =
    (let s = (case nano3s of
                Some (Inr conn) \<Rightarrow>
                  start_board E (case cn_serial_number conn of Some k \<Rightarrow> k | None \<Rightarrow> ''nano3s-0'') conn s
              | _ \<Rightarrow> s)
     in if transport_count = 0 then ({}, True, send_enumeration_complete E s) else ({}, False, s))"

definition run_backplane ::
  "('t, 'f) backplane_env \<Rightarrow> (string + ('t, 'f) connector) option \<Rightarrow> nat \<Rightarrow> (nat \<times> ('t, 'f) transport_event) list \<Rightarrow>
    ('t, 'f) backplane \<Rightarrow> ('t, 'f) loop_state" where
  "run_backplane E nano3s transport_count events s =
    foldl (backplane_turn E transport_count) (backplane_start E nano3s transport_count s) events"

definition backplane_new :: "('t, 'f) backplane" where
  "backplane_new = \<lparr>bp_boards = [], bp_effects = []\<rparr>"

definition shutdown_all_boards :: "('t, 'f) backplane_env \<Rightarrow> ('t, 'f) backplane \<Rightarrow> ('t, 'f) backplane" where
  "shutdown_all_boards E s = foldl (\<lambda>s key. remove_board key s) s (be_key_order E (map fst (bp_boards s)))"

end
