(* ===== verification/Backplane_Properties.thy ===== *)
theory Backplane_Properties
  imports Backplane
begin

text \<open>
  The choice of the descriptor, the announcement of the enumeration and the accounts of the boards'
  shutdown futures.
\<close>

section \<open>The descriptor\<close>

lemma max_by_key_None [simp]: "max_by_key key xs = None \<longleftrightarrow> xs = []"
  by (cases xs) (auto split: option.split)

lemma max_by_key_Some: "max_by_key key xs = Some y \<Longrightarrow> y \<in> set xs \<and> list_all (\<lambda>x. key x \<le> key y) xs"
  by (induction xs arbitrary: y) (auto simp: list_all_iff split: option.splits if_splits)

text \<open>
  A device gets a descriptor that matches it and that no other matching one beats in specificity; it
  gets none exactly if none matches.
\<close>

theorem best_board:
  "case find_descriptor rx ds d of
     Some b \<Rightarrow> b \<in> set ds \<and> pattern_matches rx (bd_pattern b) d \<and>
       list_all (\<lambda>b'. pattern_specificity (bd_pattern b') \<le> pattern_specificity (bd_pattern b))
         (filter (\<lambda>b'. pattern_matches rx (bd_pattern b') d) ds)
   | None \<Rightarrow> list_all (\<lambda>b. \<not> pattern_matches rx (bd_pattern b) d) ds"
  unfolding find_descriptor_def
  by (auto simp: list_all_iff filter_empty_conv dest: max_by_key_Some split: option.split)

lemma specificity_small: "pattern_specificity p \<le> 95"
proof -
  have s: "crit_score string_specificity m \<le> 20" for m
    by (simp add: crit_score_def string_specificity_def split: match_crit.split string_match.split)
  have b: "crit_score bcd_specificity m \<le> 15" for m
    by (simp add: crit_score_def bcd_specificity_def split: match_crit.split bcd_version_match.split)
  have v: "crit_score (\<lambda>_. 10) m \<le> 10" for m :: "u16 match_crit" by (simp add: crit_score_def split: match_crit.split)
  show ?thesis
    unfolding pattern_specificity_def
    using s [of "bp_manufacturer p"] s [of "bp_product p"] s [of "bp_serial_pattern p"] b [of "bp_bcd_device p"]
      v [of "bp_vid p"] v [of "bp_pid p"] by linarith
qed

section \<open>The announcement\<close>

definition completed_of :: "(nat \<times> ('t, 'f) transport_event) list \<Rightarrow> nat set" where
  "completed_of events = {t. (t, InitialEnumerationComplete) \<in> set events}"

lemma completed_of_simps [simp]:
  "completed_of [] = {}"
  "completed_of (es @ [(t, ev)]) = (if ev = InitialEnumerationComplete then insert t (completed_of es) else completed_of es)"
  by (auto simp: completed_of_def)

lemma finite_completed [simp]: "finite (completed_of events)"
  by (rule finite_subset [of _ "fst ` set events"]) (force simp: completed_of_def, simp)

text \<open>Everything but the announcement leaves other effects only.\<close>

definition grows :: "('t, 'f) backplane \<Rightarrow> ('t, 'f) backplane \<Rightarrow> bool" where
  "grows s t \<longleftrightarrow> (\<exists>es. bp_effects t = bp_effects s @ es \<and> EnumerationComplete \<notin> set es)"

lemma grows_refl: "grows s s"
  by (simp add: grows_def)

lemma grows_trans: "grows s t \<Longrightarrow> grows t u \<Longrightarrow> grows s u"
  by (auto simp: grows_def)

lemma grows_note: "e \<noteq> EnumerationComplete \<Longrightarrow> grows s (bp_note e s)"
  by (simp add: grows_def bp_note_def)

lemma grows_send: "grows s (send_threads E ts s)"
proof (induction ts arbitrary: s)
  case (Cons t ts)
  show ?case by (simp add: grows_note grows_trans [OF grows_note Cons])
qed (simp add: grows_refl)

lemma grows_board: "grows s (insert_board k fut s)" "grows s (remove_board k s)"
  by (auto simp: insert_board_def remove_board_def grows_def bp_note_def Let_def split: option.split)

lemma grows_start: "grows s (start_board E k conn s)"
  unfolding start_board_def Let_def
  by (rule grows_trans [OF grows_trans [OF grows_note grows_send] grows_board(1)]) simp

lemma grows_handle: "grows s (handle_event E ev s)"
  by (auto simp: handle_event_def handle_usb_connected_def handle_usb_disconnected_def handle_cpu_connected_def
      intro: grows_refl grows_start grows_board split: transport_event.split option.split sum.split list.split)

lemma run_snoc:
  "run_backplane E nano3s n (events @ [tev]) s = backplane_turn E n (run_backplane E nano3s n events s) tev"
  by (simp add: run_backplane_def)

lemma run_completed: "fst (run_backplane E nano3s n events s) = completed_of events"
proof (induction events rule: rev_induct)
  case (snoc tev events)
  then show ?case by (cases tev) (simp add: run_snoc backplane_turn_def Let_def split_beta)
qed (simp add: run_backplane_def backplane_start_def Let_def)

definition announced :: "('t, 'f) backplane_env \<Rightarrow> (string + ('t, 'f) connector) option \<Rightarrow> nat \<Rightarrow>
    (nat \<times> ('t, 'f) transport_event) list \<Rightarrow> ('t, 'f) bp_effect list \<Rightarrow> bool" where
  "announced E nano3s n events effs \<longleftrightarrow>
    (\<exists>before t after rest. events = before @ (t, InitialEnumerationComplete) # after \<and>
       card (completed_of before) < n \<and> card (insert t (completed_of before)) = n \<and>
       effs = bp_effects (snd (snd (run_backplane E nano3s n before backplane_new))) @ EnumerationComplete # rest \<and>
       EnumerationComplete \<notin> set (bp_effects (snd (snd (run_backplane E nano3s n before backplane_new)))) \<and>
       EnumerationComplete \<notin> set rest)"

lemma announced_later:
  assumes "announced E nano3s n events (bp_effects s)" "grows s t"
  shows "announced E nano3s n (events @ [tev]) (bp_effects t)"
proof -
  obtain es where es: "bp_effects t = bp_effects s @ es" "EnumerationComplete \<notin> set es"
    using assms(2) by (auto simp: grows_def)
  obtain before u after rest where b: "events = before @ (u, InitialEnumerationComplete) # after"
    "card (completed_of before) < n" "card (insert u (completed_of before)) = n"
    "bp_effects s = bp_effects (snd (snd (run_backplane E nano3s n before backplane_new))) @ EnumerationComplete # rest"
    "EnumerationComplete \<notin> set (bp_effects (snd (snd (run_backplane E nano3s n before backplane_new))))"
    "EnumerationComplete \<notin> set rest"
    using assms(1) unfolding announced_def by blast
  show ?thesis
    unfolding announced_def using b es
    by (intro exI [of _ before] exI [of _ u] exI [of _ "after @ [tev]"] exI [of _ "rest @ es"]) simp
qed

text \<open>
  The scheduler is told once that the enumeration is complete, when the last of the transports has
  reported, and after every message of what happened before; as long as one transport has
  not reported it is not told.
\<close>

theorem enumeration_announced:
  assumes takes: "\<And>effs. be_scheduler_takes E effs" and n: "0 < n"
  shows "case run_backplane E nano3s n events backplane_new of (completed, sent, s) \<Rightarrow>
    completed = completed_of events \<and>
    (if sent then announced E nano3s n events (bp_effects s)
     else card completed < n \<and> EnumerationComplete \<notin> set (bp_effects s))"
proof (induction events rule: rev_induct)
  case Nil
  have "EnumerationComplete \<notin> set (bp_effects (start_board E k conn backplane_new))" for k conn
    using grows_start [of backplane_new E k conn] by (auto simp: grows_def backplane_new_def)
  then show ?case using n
    by (auto simp: run_backplane_def backplane_start_def Let_def backplane_new_def split: option.split sum.split)
next
  case (snoc tev events)
  obtain completed sent s where r: "run_backplane E nano3s n events backplane_new = (completed, sent, s)"
    by (cases "run_backplane E nano3s n events backplane_new") auto
  obtain t ev where tev: "tev = (t, ev)" by (cases tev)
  have c: "completed = completed_of events" using run_completed [of E nano3s n events backplane_new] r by simp
  note IH = snoc [unfolded r, simplified]
  show ?case
  proof (cases "ev = InitialEnumerationComplete")
    case False
    have g: "grows s (handle_event E ev s)" by (rule grows_handle)
    show ?thesis
    proof (cases sent)
      case True
      then show ?thesis
        using announced_later [OF _ g, of E nano3s n events tev] IH False c
        by (simp add: run_snoc r tev backplane_turn_def)
    next
      case unsent: False
      then have "card (completed_of events) < n" "EnumerationComplete \<notin> set (bp_effects s)" using IH c by simp_all
      then show ?thesis using unsent False c g by (auto simp: run_snoc r tev backplane_turn_def grows_def)
    qed
  next
    case True
    show ?thesis
    proof (cases sent)
      case sent: True
      then show ?thesis
        using announced_later [OF _ grows_refl, of E nano3s n events s tev] IH True c
        by (simp add: run_snoc r tev backplane_turn_def Let_def)
    next
      case unsent: False
      then have low: "card (completed_of events) < n" "EnumerationComplete \<notin> set (bp_effects s)" using IH c by simp_all
      show ?thesis
      proof (cases "card (insert t (completed_of events)) = n")
        case full: True
        have "announced E nano3s n (events @ [tev]) (bp_effects (send_enumeration_complete E s))"
          unfolding announced_def using low full c r True tev
          by (intro exI [of _ events] exI [of _ t] exI [of _ "[]"])
             (simp add: send_enumeration_complete_def takes bp_note_def)
        then show ?thesis using unsent full True c by (simp add: run_snoc r tev backplane_turn_def Let_def)
      next
        case part: False
        have "card (insert t (completed_of events)) \<le> Suc (card (completed_of events))" by (simp add: card_insert_if)
        then have "card (insert t (completed_of events)) < n" using low(1) part by linarith
        then show ?thesis using unsent part True c low by (simp add: run_snoc r tev backplane_turn_def Let_def)
      qed
    qed
  qed
qed

text \<open>An example environment: two boards of one kind, no regular expressions.\<close>

definition demo_bp_env :: "(nat, nat) backplane_env" where
  "demo_bp_env =
    \<lparr>be_regex = \<lambda>_. None,
     be_registered = [\<lparr>bd_pattern = pattern_wildcard\<lparr>bp_product := MatchSpecific (MatchExact ''Bitaxe'')\<rparr>, bd_name = ''Bitaxe Gamma''\<rparr>],
     be_cpu_registered = True, be_api_takes = \<lambda>_. True, be_scheduler_takes = \<lambda>_. True, be_key_order = id\<rparr>"

definition demo_bitaxe :: "string option \<Rightarrow> usb_device_info" where
  "demo_bitaxe serial =
    \<lparr>ud_vid = 0xC0DE, ud_pid = 0xCAFE, ud_bcd_device = 0, ud_serial_number = serial, ud_manufacturer = Some ''OSMU'',
     ud_product = Some ''Bitaxe'', ud_device_path = ''/sys/devices/test''\<rparr>"

definition demo_events :: "(nat \<times> (nat, nat) transport_event) list" where
  "demo_events =
    [(0, UsbConnected (demo_bitaxe None) (Inr \<lparr>cn_serial_number = None, cn_threads = [1], cn_shutdown = Some 10\<rparr>)),
     (1, InitialEnumerationComplete),
     (0, UsbConnected (demo_bitaxe None) (Inr \<lparr>cn_serial_number = None, cn_threads = [2], cn_shutdown = Some 20\<rparr>)),
     (0, InitialEnumerationComplete)]"

theorem enumeration_announced_witness:
  "announced demo_bp_env None 2 demo_events
     [ToApi, ToScheduler 1, ToApi, ToScheduler 2, ShutdownDropped 10, EnumerationComplete]"
proof -
  have "run_backplane demo_bp_env None 2 demo_events backplane_new =
      ({0, 1}, True, \<lparr>bp_boards = [(''unknown'', Some 20)],
        bp_effects = [ToApi, ToScheduler 1, ToApi, ToScheduler 2, ShutdownDropped 10, EnumerationComplete]\<rparr>)"
    by code_simp
  then show ?thesis
    using enumeration_announced [where E = demo_bp_env and n = 2 and nano3s = None and events = demo_events] by (simp add: demo_bp_env_def)
qed

section \<open>The shutdown futures\<close>

definition opt_mset :: "'f option \<Rightarrow> 'f multiset" where
  "opt_mset v = (case v of Some f \<Rightarrow> {#f#} | None \<Rightarrow> {#})"

definition held :: "(string \<times> 'f option) list \<Rightarrow> 'f multiset" where
  "held bs = sum_list (map (\<lambda>(k, v). opt_mset v) bs)"


definition awaited :: "('t, 'f) bp_effect list \<Rightarrow> 'f multiset" where
  "awaited es = sum_list (map (\<lambda>e. case e of ShutdownAwaited f \<Rightarrow> {#f#} | _ \<Rightarrow> {#}) es)"

definition dropped :: "('t, 'f) bp_effect list \<Rightarrow> 'f multiset" where
  "dropped es = sum_list (map (\<lambda>e. case e of ShutdownDropped f \<Rightarrow> {#f#} | _ \<Rightarrow> {#}) es)"

lemma account_simps [simp]:
  "held [] = {#}" "held ((k, v) # bs) = opt_mset v + held bs"
  "awaited [] = {#}" "awaited (es @ fs) = awaited es + awaited fs"
  "dropped [] = {#}" "dropped (es @ fs) = dropped es + dropped fs"
  "awaited [ShutdownAwaited f] = {#f#}" "awaited [ShutdownDropped f] = {#}"
  "dropped [ShutdownDropped f] = {#f#}" "dropped [ShutdownAwaited f] = {#}"
  by (simp_all add: held_def awaited_def dropped_def)







definition quiet_effect :: "('t, 'f) bp_effect \<Rightarrow> bool" where
  "quiet_effect e \<longleftrightarrow> awaited [e] = {#} \<and> dropped [e] = {#}"

lemma quiet_simps [simp]:
  "quiet_effect ToApi" "quiet_effect (ToScheduler t)" "quiet_effect EnumerationComplete" "quiet_effect SendRefused"
  by (simp_all add: quiet_effect_def awaited_def dropped_def)






text \<open>The future of the board an event starts.\<close>

definition future_of :: "('t, 'f) backplane_env \<Rightarrow> ('t, 'f) transport_event \<Rightarrow> 'f multiset" where
  "future_of E ev =
    (case ev of
       UsbConnected d (Inr conn) \<Rightarrow>
         (if find_descriptor (be_regex E) (be_registered E) d = None then {#} else opt_mset (cn_shutdown conn))
     | CpuConnected k (Inr conn) \<Rightarrow> (if be_cpu_registered E then opt_mset (cn_shutdown conn) else {#})
     | _ \<Rightarrow> {#})"



lemma future_of_complete [simp]: "future_of E InitialEnumerationComplete = {#}"
  by (simp add: future_of_def)





text \<open>Unplugging any device stops the first board in the map's order, whatever kind it is.\<close>

lemma disconnect_any_path: "handle_event E (UsbDisconnected p) s = handle_event E (UsbDisconnected q) s"
  by (simp add: handle_event_def)

end
