(* ===== verification/Cpu_Miner.thy ===== *)
theory Cpu_Miner
  imports Chip_Thread
begin

text \<open>
  The CPU miner (\<open>cpu_miner/hasher.rs\<close>): a loop that drains its commands, hashes for the part of each
  second its duty cycle gives it, and rolls the time of its task. What the loop observes, the clock
  and its command channel, is given turn by turn and, within a cycle, hash by hash. Hash functions
  and the rate of a count of hashes over a time are fields of the environment; the share channel
  of a task is in the task, and its answer is ignored.
\<close>

datatype miner_command = MinerUpdate chip_task | MinerReplace chip_task | MinerGoIdle | MinerShutdown

datatype miner_effect = MinerReply "chip_task option" | MinerShare chip_task thread_share

record 'e cpu_env =
  cv_txid :: "u8 list \<Rightarrow> 'e + hash256"
  cv_sha256d :: "u8 list \<Rightarrow> hash256"
  cv_block_hash :: "block_header \<Rightarrow> hash256"
  cv_to_work :: "u256 \<Rightarrow> u256"
  cv_rate :: "u64 \<Rightarrow> nat \<Rightarrow> hash_rate"

text \<open>The locals of the loop, with the fields of the shared status it writes.\<close>

record cpu_miner =
  cm_current_task :: "chip_task option"
  cm_cached_merkle_root :: "hash256 option"
  cm_nonce :: u32
  cm_shares_found :: u64
  cm_hashes_computed :: u64
  cm_is_active :: bool
  cm_status_shares :: u64
  cm_status_hashrate :: hash_rate
  cm_effects :: "miner_effect list"

definition cpu_miner_new :: cpu_miner where
  "cpu_miner_new =
    \<lparr>cm_current_task = None, cm_cached_merkle_root = None, cm_nonce = 0, cm_shares_found = 0, cm_hashes_computed = 0,
     cm_is_active = False, cm_status_shares = 0, cm_status_hashrate = 0, cm_effects = []\<rparr>"

definition cpu_merkle_root :: "'e cpu_env \<Rightarrow> chip_task \<Rightarrow> hash256 option" where
  "cpu_merkle_root E task =
    (case job_merkle_root (ht_template task) of
       FixedRoot mr \<Rightarrow> Some mr
     | ComputedRoot _ \<Rightarrow>
         (case ht_en2 task of
            None \<Rightarrow> None
          | Some en2 \<Rightarrow>
              (case job_merkle_root_for (cv_txid E) (cv_sha256d E) (ht_template task) en2 of Inr h \<Rightarrow> Some h | Inl _ \<Rightarrow> None)))"

definition cpu_header :: "chip_task \<Rightarrow> hash256 \<Rightarrow> u32 \<Rightarrow> block_header" where
  "cpu_header task mroot nonce =
    \<lparr>bh_version = vt_base (job_version (ht_template task)), bh_prev_blockhash = job_prev_blockhash (ht_template task),
     bh_merkle_root = mroot, bh_time = ht_ntime task, bh_bits = job_bits (ht_template task), bh_nonce = nonce\<rparr>"

definition try_nonce :: "'e cpu_env \<Rightarrow> chip_task \<Rightarrow> hash256 \<Rightarrow> u32 \<Rightarrow> thread_share option" where
  "try_nonce E task mroot nonce =
    (let hash = cv_block_hash E (cpu_header task mroot nonce)
     in if u256_from_le_bytes hash \<le> ht_share_target task
        then Some \<lparr>sh_nonce = nonce, sh_hash = hash, sh_version = vt_base (job_version (ht_template task)),
                   sh_ntime = ht_ntime task, sh_extranonce2 = ht_en2 task,
                   sh_expected_work = cv_to_work E (ht_share_target task)\<rparr>
        else None)"

definition update_status :: "bool \<Rightarrow> cpu_miner \<Rightarrow> cpu_miner" where
  "update_status active s = s\<lparr>cm_is_active := active, cm_status_shares := cm_shares_found s\<rparr>"

definition take_task :: "'e cpu_env \<Rightarrow> chip_task \<Rightarrow> cpu_miner \<Rightarrow> cpu_miner" where
  "take_task E task s =
    (let old = cm_current_task s;
         s = update_status True (s\<lparr>cm_cached_merkle_root := cpu_merkle_root E task, cm_current_task := Some task, cm_nonce := 0\<rparr>)
     in s\<lparr>cm_effects := cm_effects s @ [MinerReply old]\<rparr>)"

definition miner_go_idle :: "cpu_miner \<Rightarrow> cpu_miner" where
  "miner_go_idle s =
    (let old = cm_current_task s;
         s = update_status False (s\<lparr>cm_cached_merkle_root := None, cm_current_task := None\<rparr>)
     in s\<lparr>cm_effects := cm_effects s @ [MinerReply old]\<rparr>)"

text \<open>Whether the loop goes on after a command.\<close>

definition miner_obey :: "'e cpu_env \<Rightarrow> miner_command \<Rightarrow> cpu_miner \<Rightarrow> bool \<times> cpu_miner" where
  "miner_obey E cmd s =
    (case cmd of
       MinerUpdate task \<Rightarrow> (True, take_task E task s)
     | MinerReplace task \<Rightarrow> (True, take_task E task s)
     | MinerGoIdle \<Rightarrow> (True, miner_go_idle s)
     | MinerShutdown \<Rightarrow> (False, s))"


section \<open>A cycle of hashing\<close>

text \<open>What one pass of the inner loop would see if it looked.\<close>

record hash_obs =
  ho_elapsed_ms :: nat
  ho_shutdown :: bool
  ho_command :: "miner_command option"

datatype cycle_end = CycleBreak | CycleReturn | CycleOpen

definition hash_once :: "'e cpu_env \<Rightarrow> cpu_miner \<Rightarrow> cpu_miner" where
  "hash_once E s =
    (let s = (case (cm_current_task s, cm_cached_merkle_root s) of
                (Some task, Some mroot) \<Rightarrow>
                  (case try_nonce E task mroot (cm_nonce s) of
                     Some sh \<Rightarrow>
                       s\<lparr>cm_shares_found := cm_shares_found s + 1, cm_effects := cm_effects s @ [MinerShare task sh]\<rparr>
                   | None \<Rightarrow> s)
              | _ \<Rightarrow> s)
     in s\<lparr>cm_nonce := cm_nonce s + 1, cm_hashes_computed := cm_hashes_computed s + 1\<rparr>)"

fun hash_cycle :: "'e cpu_env \<Rightarrow> nat \<Rightarrow> hash_obs list \<Rightarrow> cpu_miner \<Rightarrow> cycle_end \<times> cpu_miner" where
  "hash_cycle E work_ms [] s = (CycleOpen, s)"
| "hash_cycle E work_ms (ob # obs) s =
    (if cm_hashes_computed s mod 10000 = 0 \<and> work_ms \<le> ho_elapsed_ms ob then (CycleBreak, s)
     else if cm_hashes_computed s mod 10000 = 0 \<and> ho_shutdown ob then (CycleReturn, s)
     else case (if cm_hashes_computed s mod 1000 = 0 then ho_command ob else None) of
            Some cmd \<Rightarrow> (case miner_obey E cmd s of (True, s) \<Rightarrow> (CycleBreak, s) | (False, s) \<Rightarrow> (CycleReturn, s))
          | None \<Rightarrow> hash_cycle E work_ms obs (hash_once E s))"

section \<open>The loop\<close>







section \<open>Every share is one\<close>

definition share_of_task :: "'e cpu_env \<Rightarrow> chip_task \<Rightarrow> thread_share \<Rightarrow> bool" where
  "share_of_task E task sh \<longleftrightarrow>
    (case cpu_merkle_root E task of
       None \<Rightarrow> False
     | Some mroot \<Rightarrow>
         sh_hash sh = cv_block_hash E (cpu_header task mroot (sh_nonce sh)) \<and>
         u256_from_le_bytes (sh_hash sh) \<le> ht_share_target task \<and>
         sh_version sh = vt_base (job_version (ht_template task)) \<and>
         sh_ntime sh = ht_ntime task \<and> sh_extranonce2 sh = ht_en2 task)"

definition effect_ok :: "'e cpu_env \<Rightarrow> miner_effect \<Rightarrow> bool" where
  "effect_ok E e = (case e of MinerReply _ \<Rightarrow> True | MinerShare task sh \<Rightarrow> share_of_task E task sh)"

definition shares_in :: "miner_effect list \<Rightarrow> nat" where
  "shares_in es = length (filter (\<lambda>e. case e of MinerReply _ \<Rightarrow> False | MinerShare _ _ \<Rightarrow> True) es)"


lemma shares_in_simps [simp]:
  "shares_in [] = 0" "shares_in (es @ fs) = shares_in es + shares_in fs"
  "shares_in [MinerReply r] = 0" "shares_in [MinerShare task sh] = 1"
  by (simp_all add: shares_in_def)

lemma effect_ok_simps [simp]: "effect_ok E (MinerReply r)" "effect_ok E (MinerShare task sh) = share_of_task E task sh"
  by (simp_all add: effect_ok_def)






lemma merkle_root_ntime [simp]: "cpu_merkle_root E (task\<lparr>ht_ntime := t\<rparr>) = cpu_merkle_root E task"
  by (simp add: cpu_merkle_root_def split: merkle_root_kind.split option.split)






section \<open>The scan\<close>

text \<open>Passes of the inner loop that nothing interrupts.\<close>

definition undisturbed :: "nat \<Rightarrow> hash_obs \<Rightarrow> bool" where
  "undisturbed work_ms ob \<longleftrightarrow> ho_elapsed_ms ob < work_ms \<and> \<not> ho_shutdown ob \<and> ho_command ob = None"

definition scan_shares :: "'e cpu_env \<Rightarrow> chip_task \<Rightarrow> hash256 \<Rightarrow> u32 \<Rightarrow> nat \<Rightarrow> miner_effect list" where
  "scan_shares E task mroot start k =
    map (MinerShare task) (List.map_filter (\<lambda>i. try_nonce E task mroot (start + word_of_nat i)) [0..<k])"

lemma map_filter_snoc [simp]: "List.map_filter f (xs @ [x]) = List.map_filter f xs @ (case f x of Some y \<Rightarrow> [y] | None \<Rightarrow> [])"
  by (induction xs) (simp_all add: List.map_filter_simps split: option.split)

lemma hash_cycle_undisturbed: "undisturbed w ob \<Longrightarrow> hash_cycle E w (ob # obs) s = hash_cycle E w obs (hash_once E s)"
  by (simp add: undisturbed_def)

lemma hash_cycle_append:
  "list_all (undisturbed w) obs \<Longrightarrow> hash_cycle E w (obs @ [ob]) s = hash_cycle E w [ob] (snd (hash_cycle E w obs s))"
  by (induction obs arbitrary: s) (simp_all add: hash_cycle_undisturbed del: hash_cycle.simps(2))

text \<open>
  Left alone, a cycle tries consecutive nonces, each once, and sends exactly the shares
  among them, in order.
\<close>

theorem cpu_scan:
  assumes "list_all (undisturbed w) obs" "cm_current_task s = Some task" "cm_cached_merkle_root s = Some mroot"
  shows "case hash_cycle E w obs s of (r, t) \<Rightarrow>
    r = CycleOpen \<and> cm_nonce t = cm_nonce s + word_of_nat (length obs) \<and>
    cm_effects t = cm_effects s @ scan_shares E task mroot (cm_nonce s) (length obs) \<and>
    cm_current_task t = Some task \<and> cm_cached_merkle_root t = Some mroot"
  using assms(1)
proof (induction obs rule: rev_induct)
  case (snoc ob obs)
  obtain t where t: "hash_cycle E w obs s = (CycleOpen, t)" "cm_nonce t = cm_nonce s + word_of_nat (length obs)"
    "cm_effects t = cm_effects s @ scan_shares E task mroot (cm_nonce s) (length obs)"
    "cm_current_task t = Some task" "cm_cached_merkle_root t = Some mroot"
    using snoc by (cases "hash_cycle E w obs s") auto
  have ob: "undisturbed w ob" and obs: "list_all (undisturbed w) obs" using snoc.prems by simp_all
  have "hash_cycle E w (obs @ [ob]) s = hash_cycle E w [ob] t" by (simp add: hash_cycle_append [OF obs] t(1))
  also have "\<dots> = (CycleOpen, hash_once E t)" using ob by (simp add: undisturbed_def)
  finally show ?case
    using t by (auto simp: hash_once_def Let_def scan_shares_def ac_simps split: option.split)
qed (simp add: assms scan_shares_def List.map_filter_simps)

text \<open>Three hashes from a fresh task, of which the second is under the target.\<close>

definition scan_env :: "unit cpu_env" where
  "scan_env =
    \<lparr>cv_txid = \<lambda>_. Inl (), cv_sha256d = \<lambda>_. [], cv_block_hash = \<lambda>h. (if bh_nonce h = 1 then [1] else [3]),
     cv_to_work = id, cv_rate = \<lambda>_ _. 0\<rparr>"

theorem cpu_scan_witness:
  "\<exists>s obs task mroot. list_all (undisturbed 500) obs \<and> length obs = 3 \<and> ht_share_target task = 2 \<and>
    cm_effects (snd (hash_cycle scan_env 500 obs s)) = scan_shares scan_env task mroot 0 3"
proof -
  define obs where "obs = replicate 3 \<lparr>ho_elapsed_ms = 0, ho_shutdown = False, ho_command = None\<rparr>"
  have obs: "list_all (undisturbed 500) obs" "length obs = 3" by (simp_all add: obs_def undisturbed_def numeral_3_eq_3)
  fix task0 :: chip_task and mroot :: hash256
  define task where "task = task0\<lparr>ht_share_target := 2\<rparr>"
  define s where "s = cpu_miner_new\<lparr>cm_current_task := Some task, cm_cached_merkle_root := Some mroot\<rparr>"
  have s: "cm_current_task s = Some task" "cm_cached_merkle_root s = Some mroot" "cm_effects s = []" "cm_nonce s = 0"
    by (simp_all add: s_def cpu_miner_new_def)
  show ?thesis
    using cpu_scan [OF obs(1) s(1,2), of scan_env] obs s
    by (intro exI [of _ s] exI [of _ obs] exI [of _ task] exI [of _ mroot]) (auto simp: task_def split: prod.splits)
qed

text \<open>A task whose root cannot be computed is hashed for all the same: nothing is tried but the rate counts it.\<close>

lemma rootless_hashes:
  "cm_cached_merkle_root s = None \<Longrightarrow>
    hash_once E s = s\<lparr>cm_nonce := cm_nonce s + 1, cm_hashes_computed := cm_hashes_computed s + 1\<rparr>"
  by (simp add: hash_once_def split: option.split)

end
