(* ===== verification/Forced_Rate.thy ===== *)
theory Forced_Rate
  imports Scheduler_Properties
begin

text \<open>
  The wrapper that forces a share rate (\<open>job_source/forced_rate.rs\<close>): it stands between a job source and
  the scheduler, passes commands and events on, and gives the jobs the target of its rate at the
  last hash rate the scheduler has reported. What its loop selects is given in order, with
  whether the receiver of what it passes on still listens. The floating-point arithmetic is
  the one of the scheduler's environment; reading a number and the interval of a rate are
  parameters, and a \<open>None\<close> of the latter is the panic of \<open>Duration::from_secs_f64\<close>.
\<close>

record 'f rate_reader =
  rr_parse :: "string \<Rightarrow> 'f option"
  rr_finite_positive :: "'f \<Rightarrow> bool"
  rr_eighteen :: 'f
  rr_per_minute :: "'f \<Rightarrow> nat option"

definition forced_rate_from_env :: "'f rate_reader \<Rightarrow> string option \<Rightarrow> nat option option" where
  "forced_rate_from_env R var =
    (case var of
       None \<Rightarrow> Some None
     | Some v \<Rightarrow>
         let shares_per_min =
           (case rr_parse R v of
              Some x \<Rightarrow> if rr_finite_positive R x then x else rr_eighteen R
            | None \<Rightarrow> rr_eighteen R)
         in map_option Some (rr_per_minute R shares_per_min))"

datatype forced_output = ToScheduler source_event | ToInner source_command

record forced_source =
  fr_target_rate :: nat
  fr_hashrate :: hash_rate
  fr_sent :: "forced_output list"

definition forced_new :: "nat \<Rightarrow> forced_source" where
  "forced_new interval = \<lparr>fr_target_rate = interval, fr_hashrate = 0, fr_sent = []\<rparr>"

definition modify_job :: "('f, 'm) sched_env_scheme \<Rightarrow> forced_source \<Rightarrow> job_template \<Rightarrow> job_template option" where
  "modify_job E s job =
    (if fr_hashrate s = 0 then Some job
     else map_option (\<lambda>target. job\<lparr>job_share_target := target\<rparr>) (rate_to_target E (fr_target_rate s) (fr_hashrate s)))"

definition modify_event :: "('f, 'm) sched_env_scheme \<Rightarrow> forced_source \<Rightarrow> source_event \<Rightarrow> source_event option" where
  "modify_event E s e =
    (case e of
       UpdateJob job \<Rightarrow> map_option UpdateJob (modify_job E s job)
     | ReplaceJob job \<Rightarrow> map_option ReplaceJob (modify_job E s job)
     | ClearJobs \<Rightarrow> Some ClearJobs)"

datatype forced_input = InnerEvent bool source_event | OuterCommand bool source_command | InnerClosed | OuterClosed | ForcedCancelled

datatype forced_end = ForcedRunning | ForcedOk | ForcedErr

definition forced_send :: "forced_output \<Rightarrow> forced_source \<Rightarrow> forced_source" where
  "forced_send out s = s\<lparr>fr_sent := fr_sent s @ [out]\<rparr>"

definition forced_step ::
  "('f, 'm) sched_env_scheme \<Rightarrow> forced_input \<Rightarrow> forced_source \<Rightarrow> (forced_end \<times> forced_source) option" where
  "forced_step E i s =
    (case i of
       InnerEvent listening e \<Rightarrow>
         map_option (\<lambda>m. if listening then (ForcedRunning, forced_send (ToScheduler m) s) else (ForcedErr, s)) (modify_event E s e)
     | OuterCommand listening cmd \<Rightarrow>
         let s = (case cmd of UpdateHashRate hr \<Rightarrow> s\<lparr>fr_hashrate := hr\<rparr> | SubmitShare _ \<Rightarrow> s)
         in Some (if listening then (ForcedRunning, forced_send (ToInner cmd) s) else (ForcedErr, s))
     | InnerClosed \<Rightarrow> Some (ForcedOk, s)
     | OuterClosed \<Rightarrow> Some (ForcedOk, s)
     | ForcedCancelled \<Rightarrow> Some (ForcedOk, s))"

fun forced_run ::
  "('f, 'm) sched_env_scheme \<Rightarrow> forced_input list \<Rightarrow> forced_source \<Rightarrow> (forced_end \<times> forced_source) option" where
  "forced_run E [] s = Some (ForcedRunning, s)"
| "forced_run E (i # is) s =
    (case forced_step E i s of
       None \<Rightarrow> None
     | Some (ForcedRunning, t) \<Rightarrow> forced_run E is t
     | Some (r, t) \<Rightarrow> Some (r, t))"

section \<open>What is passed on\<close>

definition passes_on :: "forced_input \<Rightarrow> bool" where
  "passes_on i \<longleftrightarrow> (case i of InnerEvent l _ \<Rightarrow> l | OuterCommand l _ \<Rightarrow> l | _ \<Rightarrow> False)"

text \<open>The rate the scheduler has reported last.\<close>

definition reported_rate :: "forced_input list \<Rightarrow> hash_rate" where
  "reported_rate is = fold (\<lambda>i r. case i of OuterCommand _ (UpdateHashRate hr) \<Rightarrow> hr | _ \<Rightarrow> r) is 0"

text \<open>A job as it is, or with the target at which the hashes of one interval give one share.\<close>

definition forced_job :: "('f, 'm) sched_env_scheme \<Rightarrow> ('f \<Rightarrow> rat) \<Rightarrow> nat \<Rightarrow> hash_rate \<Rightarrow> job_template \<Rightarrow> job_template" where
  "forced_job E val interval rate job =
    (if rate = 0 then job
     else job\<lparr>job_share_target := word_of_int (ideal_target (val (hashes_in E interval rate)))\<rparr>)"

definition forced_output_of ::
  "('f, 'm) sched_env_scheme \<Rightarrow> ('f \<Rightarrow> rat) \<Rightarrow> nat \<Rightarrow> hash_rate \<Rightarrow> forced_input \<Rightarrow> forced_output list" where
  "forced_output_of E val interval rate i =
    (case i of
       InnerEvent _ (UpdateJob job) \<Rightarrow> [ToScheduler (UpdateJob (forced_job E val interval rate job))]
     | InnerEvent _ (ReplaceJob job) \<Rightarrow> [ToScheduler (ReplaceJob (forced_job E val interval rate job))]
     | InnerEvent _ ClearJobs \<Rightarrow> [ToScheduler ClearJobs]
     | OuterCommand _ cmd \<Rightarrow> [ToInner cmd]
     | _ \<Rightarrow> [])"

lemma reported_rate_simps [simp]:
  "reported_rate [] = 0"
  "reported_rate (is @ [i]) = (case i of OuterCommand _ (UpdateHashRate hr) \<Rightarrow> hr | _ \<Rightarrow> reported_rate is)"
  by (simp_all add: reported_rate_def split: forced_input.split source_command.split)

lemma modify_job_forced:
  assumes "rate_law E val"
  shows "modify_job E s job = Some (forced_job E val (fr_target_rate s) (fr_hashrate s) job)"
proof -
  obtain t where t: "rate_to_target E (fr_target_rate s) (fr_hashrate s) = Some t"
    "int (unat t) = ideal_target (val (hashes_in E (fr_target_rate s) (fr_hashrate s)))"
    using rate_to_target_value [OF assms] by blast
  have "word_of_int (ideal_target (val (hashes_in E (fr_target_rate s) (fr_hashrate s)))) = t"
    unfolding t(2) [symmetric] by simp
  then show ?thesis using t(1) by (simp add: modify_job_def forced_job_def)
qed

lemma forced_step_passes:
  assumes "rate_law E val" "passes_on i"
  shows "forced_step E i s = Some (ForcedRunning,
    s\<lparr>fr_hashrate := (case i of OuterCommand _ (UpdateHashRate hr) \<Rightarrow> hr | _ \<Rightarrow> fr_hashrate s),
      fr_sent := fr_sent s @ forced_output_of E val (fr_target_rate s) (fr_hashrate s) i\<rparr>)"
  using assms(2)
  by (cases i)
    (auto simp: passes_on_def forced_step_def modify_event_def modify_job_forced [OF assms(1)] forced_send_def
      forced_output_of_def split: source_event.split source_command.split)

lemma forced_run_append:
  "forced_run E is s = Some (ForcedRunning, t) \<Longrightarrow> forced_run E (is @ js) s = forced_run E js t"
  by (induction E "is" s rule: forced_run.induct) (auto split: option.splits prod.splits forced_end.splits)

text \<open>
  The wrapper passes everything on, in order: commands and the clearing of jobs as they are,
  and each job with the target at which the rate last reported before it gives one share per
  interval, in all other fields unchanged, or as it is while no rate has been reported.
\<close>

theorem forced_rate_passes_on:
  assumes "rate_law E val" "list_all passes_on is"
  shows "forced_run E is (forced_new interval) = Some (ForcedRunning,
    \<lparr>fr_target_rate = interval, fr_hashrate = reported_rate is,
     fr_sent = concat (map (\<lambda>k. forced_output_of E val interval (reported_rate (take k is)) (is ! k)) [0..<length is])\<rparr>)"
  using assms(2)
proof (induction "is" rule: rev_induct)
  case Nil
  then show ?case by (simp add: forced_new_def)
next
  case (snoc i js)
  have i: "passes_on i" and js: "list_all passes_on js" using snoc.prems by simp_all
  have same: "concat (map (\<lambda>k. forced_output_of E val interval (reported_rate (take k (js @ [i]))) ((js @ [i]) ! k)) [0..<length js])
      = concat (map (\<lambda>k. forced_output_of E val interval (reported_rate (take k js)) (js ! k)) [0..<length js])"
    by (intro arg_cong [of _ _ concat] map_cong) (simp_all add: nth_append)
  show ?case
    unfolding forced_run_append [OF snoc.IH [OF js]]
    by (simp add: forced_step_passes [OF assms(1) i] same del: take_append split: forced_input.split source_command.split)
      (simp add: nth_append)
qed

text \<open>A job before the first report, a report, and the same job after it.\<close>

theorem forced_rate_passes_on_witness:
  "\<exists>is. rate_law pow2_env (\<lambda>k. 2 powi k) \<and> list_all passes_on is \<and> length is = 3 \<and> reported_rate is = 2 ^ 40 \<and>
    (\<exists>s. forced_run pow2_env is (forced_new (of_secs 10)) = Some (ForcedRunning, s) \<and> length (fr_sent s) = 3)"
proof -
  fix job
  define js where "js = [InnerEvent True (ReplaceJob job), OuterCommand True (UpdateHashRate (2 ^ 40)), InnerEvent True (UpdateJob job)]"
  have js: "list_all passes_on js" "length js = 3" "reported_rate js = 2 ^ 40"
    by (simp_all add: js_def passes_on_def reported_rate_def)
  show ?thesis
    using forced_rate_passes_on [OF pow2_law js(1), of "of_secs 10"] js pow2_law
    by (intro exI [of _ js]) (auto simp: js_def forced_output_of_def upt_rec)
qed

end
